(* ===== verification/Warden_Prelude.thy ===== *)
theory Warden_Prelude
  imports Main "HOL-Library.Sublist"
begin

text \<open>
  Shared vocabulary of the development: Go error values, results that may fail, and the
  generic list and map facts the component theories use. Go's \<open>error\<close> is a value of
  \<open>gerr\<close>; a function that returns \<open>(T, error)\<close> returns \<open>gerr + T\<close> (\<open>Inl\<close> is the
  error), a function that returns only \<open>error\<close> returns \<open>gerr option\<close> (\<open>None\<close> is nil).
\<close>

section \<open>Collections of rewrite rules\<close>

named_theorems go_lib \<open>facts about the Go library functions the program calls\<close>
named_theorems vm_laws \<open>laws of the runtime operations\<close>
named_theorems frame_laws \<open>what an operation leaves unchanged\<close>

section \<open>Go errors\<close>

text \<open>
  \<open>Sentinel v\<close> is a package-level error variable, identified by its qualified name
  (\<open>errors.Is\<close> compares identity). \<open>Errorf f as\<close> is a fresh error made from a format and
  its arguments, \<open>Wrapf f as e\<close> one whose format wraps \<open>e\<close> with the verb w, and
  \<open>Joined es\<close> is \<open>errors.Join\<close> of a non-empty list. \<open>Flatf f es\<close> is a fresh error whose
  text quotes those of \<open>es\<close> without wrapping them. The message is kept as the format
  with its arguments; it is never rendered, because no branch of the program inspects it.
\<close>

datatype gerr =
    Sentinel string
  | Errorf string "string list"
  | Wrapf string "string list" gerr
  | Joined "gerr list"
  | Flatf string "gerr list"

fun errors_is :: "gerr \<Rightarrow> string \<Rightarrow> bool" where
  "errors_is (Sentinel v) t = (v = t)"
| "errors_is (Errorf f as) t = False"
| "errors_is (Wrapf f as e) t = errors_is e t"
| "errors_is (Joined es) t = list_ex (\<lambda>e. errors_is e t) es"
| "errors_is (Flatf f es) t = False"

definition errors_join :: "gerr list \<Rightarrow> gerr option" where
  "errors_join es = (if es = [] then None else Some (Joined es))"

lemma errors_join_None [simp]: "errors_join es = None \<longleftrightarrow> es = []"
  by (simp add: errors_join_def)

text \<open>A text that a handler writes: a literal, or the message of an error value.\<close>

datatype message = Lit string | TextOf gerr

section \<open>Results\<close>

type_synonym 'a res = "gerr + 'a"

definition ok :: "'a res \<Rightarrow> bool" where
  "ok r = (case r of Inl _ \<Rightarrow> False | Inr _ \<Rightarrow> True)"

lemma ok_simps [simp]: "ok (Inr x)" "\<not> ok (Inl e)"
  by (simp_all add: ok_def)

lemma ok_iff: "ok r \<longleftrightarrow> (\<exists>x. r = Inr x)"
  by (cases r) simp_all

section \<open>Lists\<close>

lemma drop_length_prefix_less:
  "prefix p s \<Longrightarrow> p \<noteq> [] \<Longrightarrow> length (drop (length p) s) < length s"
  by (auto simp: prefix_def)

lemma prefix_trans_not:
  "\<not> prefix p t \<Longrightarrow> prefix s t \<Longrightarrow> \<not> prefix p s"
  using prefix_order.order_trans by blast

lemma count_list_zero_iff: "count_list xs x = 0 \<longleftrightarrow> x \<notin> set xs"
  by (simp add: count_list_0_iff)

lemma takeWhile_append_stop:
  "\<forall>x \<in> set xs. P x \<Longrightarrow> \<not> P y \<Longrightarrow> takeWhile P (xs @ y # ys) = xs"
  by (simp add: takeWhile_tail)

lemma dropWhile_append_stop:
  "\<forall>x \<in> set xs. P x \<Longrightarrow> \<not> P y \<Longrightarrow> dropWhile P (xs @ y # ys) = y # ys"
  by (induction xs) simp_all

lemma rev_dropWhile_rev_prefix: "prefix (rev (dropWhile P (rev xs))) xs"
proof -
  have "suffix (dropWhile P (rev xs)) (rev xs)"
    by (rule suffix_dropWhile)
  then show ?thesis by (metis rev_rev_ident suffix_to_prefix)
qed

lemma find_None_not: "find P xs = None \<longleftrightarrow> (\<forall>x \<in> set xs. \<not> P x)"
  by (auto simp: find_None_iff)

lemma find_Some_holds: "find P xs = Some x \<Longrightarrow> P x \<and> x \<in> set xs"
  by (auto simp: find_Some_iff)

section \<open>Go maps as association lists\<close>

text \<open>
  A Go map that the program iterates over or measures is an association list with distinct
  keys; \<open>al_put\<close> is \<open>m[k] = v\<close> and \<open>al_del\<close> is \<open>delete(m, k)\<close>.
\<close>

definition al_del :: "'k \<Rightarrow> ('k \<times> 'v) list \<Rightarrow> ('k \<times> 'v) list" where
  "al_del k m = filter (\<lambda>p. fst p \<noteq> k) m"

definition al_put :: "'k \<Rightarrow> 'v \<Rightarrow> ('k \<times> 'v) list \<Rightarrow> ('k \<times> 'v) list" where
  "al_put k v m = (k, v) # al_del k m"

lemma map_of_al_del: "map_of (al_del k m) = (map_of m)(k := None)"
  by (induction m) (auto simp: al_del_def)

lemma map_of_al_put [simp]: "map_of (al_put k v m) = (map_of m)(k \<mapsto> v)"
  by (simp add: al_put_def map_of_al_del)

lemma distinct_filter_fst: "distinct (map fst m) \<Longrightarrow> distinct (map fst (filter P m))"
  by (induction m) auto

lemma distinct_al_put: "distinct (map fst m) \<Longrightarrow> distinct (map fst (al_put k v m))"
  by (auto simp: al_put_def al_del_def distinct_filter_fst)

lemma map_of_filter_vals:
  "distinct (map fst m) \<Longrightarrow> map_of (filter (\<lambda>p. P (snd p)) m) k =
     (case map_of m k of None \<Rightarrow> None | Some v \<Rightarrow> if P v then Some v else None)"
proof (induction m)
  case (Cons a m)
  then show ?case by (cases a) (auto split: option.splits dest: map_of_SomeD intro: rev_image_eqI)
qed simp

end
