(* ===== verification/Go_Strings.thy ===== *)
theory Go_Strings
  imports Warden_Prelude "HOL-Library.Char_ord"
begin

text \<open>
  The parts of Go's \<open>strings\<close>, \<open>unicode/utf8\<close>, \<open>unicode\<close> and \<open>strconv\<close> packages that the
  program calls. A Go string is a sequence of bytes, so it is a \<open>string\<close> (a list of
  8-bit characters); \<open>range\<close> over it and the rune-wise functions decode UTF-8 as
  \<open>utf8.DecodeRune\<close> does, an invalid byte being the rune U+FFFD of width one. The tables of
  the \<open>unicode\<close> package beyond ASCII are a parameter \<open>u\<close> of the functions that consult
  them; every theorem holds for all tables.
\<close>

section \<open>Bytes and runes\<close>

type_synonym rune = nat

abbreviation byte :: "char \<Rightarrow> nat" where
  "byte c \<equiv> of_char c"

definition rune_error :: rune where
  "rune_error = 0xFFFD"

definition cont_in :: "nat \<Rightarrow> nat \<Rightarrow> char \<Rightarrow> bool" where
  "cont_in lo hi c = (lo \<le> byte c \<and> byte c \<le> hi)"

abbreviation cont :: "char \<Rightarrow> bool" where
  "cont \<equiv> cont_in 0x80 0xBF"

definition second_range :: "nat \<Rightarrow> nat \<times> nat" where
  "second_range b =
     (if b = 0xE0 then (0xA0, 0xBF) else if b = 0xED then (0x80, 0x9F)
      else if b = 0xF0 then (0x90, 0xBF) else if b = 0xF4 then (0x80, 0x8F)
      else (0x80, 0xBF))"

text \<open>\<open>utf8.DecodeRuneInString\<close> on a non-empty string: the rune and its width.\<close>

fun decode_rune :: "string \<Rightarrow> rune \<times> nat" where
  "decode_rune [] = (rune_error, 0)"
| "decode_rune (c0 # cs) =
     (let b = byte c0; (lo, hi) = second_range b in
      if b < 0x80 then (b, 1)
      else if b < 0xC2 \<or> 0xF4 < b then (rune_error, 1)
      else (case cs of
          [] \<Rightarrow> (rune_error, 1)
        | c1 # cs1 \<Rightarrow>
            if \<not> cont_in lo hi c1 then (rune_error, 1)
            else if b < 0xE0 then ((b - 0xC0) * 64 + (byte c1 - 0x80), 2)
            else (case cs1 of
                [] \<Rightarrow> (rune_error, 1)
              | c2 # cs2 \<Rightarrow>
                  if \<not> cont c2 then (rune_error, 1)
                  else if b < 0xF0 then
                    ((b - 0xE0) * 4096 + (byte c1 - 0x80) * 64 + (byte c2 - 0x80), 3)
                  else (case cs2 of
                      [] \<Rightarrow> (rune_error, 1)
                    | c3 # _ \<Rightarrow>
                        if \<not> cont c3 then (rune_error, 1)
                        else ((b - 0xF0) * 262144 + (byte c1 - 0x80) * 4096
                              + (byte c2 - 0x80) * 64 + (byte c3 - 0x80), 4)))))"

lemma decode_rune_ascii [simp]: "byte c < 0x80 \<Longrightarrow> decode_rune (c # cs) = (byte c, 1)"
  by (simp add: Let_def split: prod.split)

text \<open>A rune that starts with a byte outside ASCII is outside ASCII in all of its bytes.\<close>

lemma decode_rune_non_ascii:
  assumes "decode_rune (c # cs) = (r, w)" and "0x80 \<le> byte c"
  shows "1 \<le> w" and "\<forall>d \<in> set (take (w - 1) cs). 0x80 \<le> byte d" and "0x80 \<le> r"
proof -
  show "1 \<le> w"
    using assms by (auto simp: Let_def split: if_splits list.splits prod.splits)
  show "\<forall>d \<in> set (take (w - 1) cs). 0x80 \<le> byte d"
    using assms
    by (auto simp: Let_def numeral_2_eq_2 numeral_3_eq_3 cont_in_def second_range_def
        split: if_splits list.splits prod.splits)
  show "0x80 \<le> r"
    using assms
    by (auto simp: Let_def rune_error_def cont_in_def second_range_def
        split: if_splits list.splits prod.splits)
qed

text \<open>The runes a \<open>range\<close> loop over a string visits.\<close>

function runes :: "string \<Rightarrow> rune list" where
  "runes [] = []"
| "runes (c # cs) = (case decode_rune (c # cs) of (r, w) \<Rightarrow> r # runes (drop (w - 1) cs))"
  by pat_completeness auto
termination
  by (relation "measure length") auto

lemma runes_ascii_Cons [simp]: "byte c < 0x80 \<Longrightarrow> runes (c # cs) = byte c # runes cs"
  by simp

lemma runes_Nil_iff [simp]: "runes s = [] \<longleftrightarrow> s = []"
  by (cases s) (auto split: prod.splits)

text \<open>Every ASCII byte of a string is one of its runes, whatever surrounds it.\<close>

lemma ascii_byte_in_runes: "c \<in> set s \<Longrightarrow> byte c < 0x80 \<Longrightarrow> byte c \<in> set (runes s)"
proof (induction s rule: runes.induct)
  case 1
  then show ?case by simp
next
  case (2 d cs)
  obtain r w where rw: "decode_rune (d # cs) = (r, w)" by fastforce
  show ?case
  proof (cases "byte d < 0x80")
    case True
    with 2 rw show ?thesis by auto
  next
    case False
    then have hi: "\<forall>e \<in> set (take (w - 1) cs). 0x80 \<le> byte e"
      using decode_rune_non_ascii(2) [OF rw] by simp
    from "2.prems" False have "c \<in> set (take (w - 1) cs) \<union> set (drop (w - 1) cs)"
      by (auto simp flip: set_append)
    with hi "2.prems"(2) have "c \<in> set (drop (w - 1) cs)" by auto
    with "2.IH" [OF rw [symmetric]] "2.prems"(2) rw show ?thesis by simp
  qed
qed

lemma runes_ascii: "\<forall>c \<in> set s. byte c < 0x80 \<Longrightarrow> runes s = map byte s"
  by (induction s) auto

text \<open>\<open>utf8.AppendRune\<close>.\<close>

definition encode_rune :: "rune \<Rightarrow> string" where
  "encode_rune r0 =
     (let r = (if (0xD800 \<le> r0 \<and> r0 \<le> 0xDFFF) \<or> 0x10FFFF < r0 then rune_error else r0) in
      if r < 0x80 then [char_of r]
      else if r < 0x800 then [char_of (0xC0 + r div 64), char_of (0x80 + r mod 64)]
      else if r < 0x10000 then
        [char_of (0xE0 + r div 4096), char_of (0x80 + r div 64 mod 64), char_of (0x80 + r mod 64)]
      else [char_of (0xF0 + r div 262144), char_of (0x80 + r div 4096 mod 64),
            char_of (0x80 + r div 64 mod 64), char_of (0x80 + r mod 64)])"

lemma encode_rune_ascii [simp]: "r < 0x80 \<Longrightarrow> encode_rune r = [char_of r]"
  by (simp add: encode_rune_def Let_def)

text \<open>\<open>strings.Map\<close>: \<open>None\<close> is a negative rune, which drops the character.\<close>

definition strings_map :: "(rune \<Rightarrow> rune option) \<Rightarrow> string \<Rightarrow> string" where
  "strings_map f s =
     concat (map (\<lambda>r. case f r of None \<Rightarrow> [] | Some r' \<Rightarrow> encode_rune r') (runes s))"

text \<open>If the mapping yields only ASCII runes that satisfy \<open>P\<close>, so are all bytes of the result.\<close>

lemma strings_map_bytes:
  assumes "\<And>r r'. f r = Some r' \<Longrightarrow> r' < 0x80 \<and> P r'"
  shows "\<forall>c \<in> set (strings_map f s). byte c < 0x80 \<and> P (byte c)"
proof
  fix c
  assume "c \<in> set (strings_map f s)"
  then obtain r r' where "f r = Some r'" and c: "c \<in> set (encode_rune r')"
    by (auto simp: strings_map_def split: option.splits dest: sym)
  with assms have "r' < 0x80" and "P r'" by auto
  moreover from this c have "c = char_of r'" by simp
  ultimately show "byte c < 0x80 \<and> P (byte c)" by simp
qed

section \<open>Character classes\<close>

definition lower_az :: "rune \<Rightarrow> bool" where
  "lower_az r = (97 \<le> r \<and> r \<le> 122)"

definition upper_az :: "rune \<Rightarrow> bool" where
  "upper_az r = (65 \<le> r \<and> r \<le> 90)"

definition dec_digit :: "rune \<Rightarrow> bool" where
  "dec_digit r = (48 \<le> r \<and> r \<le> 57)"

definition alnum :: "rune \<Rightarrow> bool" where
  "alnum r = (lower_az r \<or> upper_az r \<or> dec_digit r)"

lemmas char_class_defs = lower_az_def upper_az_def dec_digit_def alnum_def

lemma alnum_ascii: "alnum r \<Longrightarrow> r < 0x80"
  by (auto simp: char_class_defs)

text \<open>The \<open>unicode\<close> tables for runes from U+0080 on.\<close>

record unicode_tables =
  ut_letter :: "rune \<Rightarrow> bool"
  ut_digit :: "rune \<Rightarrow> bool"
  ut_lower :: "rune \<Rightarrow> rune"
  ut_print :: "rune \<Rightarrow> bool"

definition is_letter :: "unicode_tables \<Rightarrow> rune \<Rightarrow> bool" where
  "is_letter u r = (if r < 0x80 then lower_az r \<or> upper_az r else ut_letter u r)"

definition is_digit :: "unicode_tables \<Rightarrow> rune \<Rightarrow> bool" where
  "is_digit u r = (if r < 0x80 then dec_digit r else ut_digit u r)"

definition rune_lower :: "unicode_tables \<Rightarrow> rune \<Rightarrow> rune" where
  "rune_lower u r = (if r < 0x80 then (if upper_az r then r + 32 else r) else ut_lower u r)"

definition to_lower :: "unicode_tables \<Rightarrow> string \<Rightarrow> string" where
  "to_lower u s = strings_map (\<lambda>r. Some (rune_lower u r)) s"

lemma to_lower_fixed:
  "\<forall>c \<in> set s. byte c < 0x80 \<and> \<not> upper_az (byte c) \<Longrightarrow> to_lower u s = s"
proof -
  assume a: "\<forall>c \<in> set s. byte c < 0x80 \<and> \<not> upper_az (byte c)"
  have "concat (map (\<lambda>c. encode_rune (rune_lower u (byte c))) s) = s"
    using a by (induction s) (simp_all add: rune_lower_def)
  then show ?thesis
    using a by (simp add: to_lower_def strings_map_def runes_ascii o_def)
qed

text \<open>Tables that know no character outside ASCII, for concrete runs.\<close>

definition ascii_tables :: unicode_tables where
  "ascii_tables = \<lparr>ut_letter = \<lambda>_. False, ut_digit = \<lambda>_. False, ut_lower = id, ut_print = \<lambda>_. False\<rparr>"

text \<open>
  \<open>strings.EqualFold s t\<close> for an ASCII \<open>t\<close>: simple case folding, in which only the letters
  k and s have a partner outside ASCII (U+212A and U+017F).
\<close>

definition fold_eq :: "rune \<Rightarrow> rune \<Rightarrow> bool" where
  "fold_eq r t =
     (r = t \<or> (lower_az t \<and> r + 32 = t) \<or> (upper_az t \<and> r = t + 32)
      \<or> (t = 75 \<or> t = 107) \<and> r = 0x212A \<or> (t = 83 \<or> t = 115) \<and> r = 0x17F)"

definition equal_fold_ascii :: "string \<Rightarrow> string \<Rightarrow> bool" where
  "equal_fold_ascii s t = list_all2 fold_eq (runes s) (map byte t)"

section \<open>Trimming\<close>

text \<open>
  \<open>strip ps s\<close> removes, as long as it can, a member of \<open>ps\<close> from the front of \<open>s\<close>.
  \<open>strings.TrimSpace\<close> decodes a rune at either end and drops it while it is white space. A
  rune decodes from the front (or the back) of a string exactly when its encoding stands
  there, so the decoding is written as a test for the encodings of the white space runes.
\<close>

function strip :: "string list \<Rightarrow> string \<Rightarrow> string" where
  "strip ps s = (case find (\<lambda>p. p \<noteq> [] \<and> prefix p s) ps of
       None \<Rightarrow> s
     | Some p \<Rightarrow> strip ps (drop (length p) s))"
  by pat_completeness auto
termination
  by (relation "measure (\<lambda>(ps, s). length s)")
     (auto dest!: find_Some_holds drop_length_prefix_less)

declare strip.simps [simp del]

lemma strip_done: "p \<in> set ps \<Longrightarrow> p \<noteq> [] \<Longrightarrow> \<not> prefix p (strip ps s)"
proof (induction ps s rule: strip.induct)
  case (1 ps s)
  show ?case
  proof (cases "find (\<lambda>p. p \<noteq> [] \<and> prefix p s) ps")
    case None
    with "1.prems" show ?thesis by (simp add: strip.simps [of ps s]) (auto simp: find_None_not)
  next
    case (Some q)
    with 1 show ?thesis by (simp add: strip.simps [of ps s])
  qed
qed

lemma strip_suffix: "suffix (strip ps s) s"
proof (induction ps s rule: strip.induct)
  case (1 ps s)
  show ?case
  proof (cases "find (\<lambda>p. p \<noteq> [] \<and> prefix p s) ps")
    case None
    then show ?thesis by (simp add: strip.simps [of ps s])
  next
    case (Some q)
    with 1 have "suffix (strip ps (drop (length q) s)) (drop (length q) s)" by simp
    with Some show ?thesis
      by (simp add: strip.simps [of ps s]) (meson suffix_drop suffix_order.order_trans)
  qed
qed

lemma strip_fixed: "(\<And>p. p \<in> set ps \<Longrightarrow> p \<noteq> [] \<Longrightarrow> \<not> prefix p s) \<Longrightarrow> strip ps s = s"
  by (subst strip.simps) (auto split: option.splits dest: find_Some_holds)

definition space_encodings :: "string list" where
  "space_encodings =
     [[CHR 0x09], [CHR 0x0A], [CHR 0x0B], [CHR 0x0C], [CHR 0x0D], [CHR 0x20],
      [CHR 0xC2, CHR 0x85], [CHR 0xC2, CHR 0xA0], [CHR 0xE1, CHR 0x9A, CHR 0x80],
      [CHR 0xE2, CHR 0x80, CHR 0x80], [CHR 0xE2, CHR 0x80, CHR 0x81],
      [CHR 0xE2, CHR 0x80, CHR 0x82], [CHR 0xE2, CHR 0x80, CHR 0x83],
      [CHR 0xE2, CHR 0x80, CHR 0x84], [CHR 0xE2, CHR 0x80, CHR 0x85],
      [CHR 0xE2, CHR 0x80, CHR 0x86], [CHR 0xE2, CHR 0x80, CHR 0x87],
      [CHR 0xE2, CHR 0x80, CHR 0x88], [CHR 0xE2, CHR 0x80, CHR 0x89],
      [CHR 0xE2, CHR 0x80, CHR 0x8A], [CHR 0xE2, CHR 0x80, CHR 0xA8],
      [CHR 0xE2, CHR 0x80, CHR 0xA9], [CHR 0xE2, CHR 0x80, CHR 0xAF],
      [CHR 0xE2, CHR 0x81, CHR 0x9F], [CHR 0xE3, CHR 0x80, CHR 0x80]]"

definition trim_left_space :: "string \<Rightarrow> string" where
  "trim_left_space s = strip space_encodings s"

definition trim_right_space :: "string \<Rightarrow> string" where
  "trim_right_space s = rev (strip (map rev space_encodings) (rev s))"

definition trim_space :: "string \<Rightarrow> string" where
  "trim_space s = trim_right_space (trim_left_space s)"

lemma trim_right_space_prefix: "prefix (trim_right_space s) s"
  using strip_suffix [of "map rev space_encodings" "rev s"]
  by (simp add: trim_right_space_def suffix_to_prefix)

lemma trim_left_space_fixed:
  "(\<And>p. p \<in> set space_encodings \<Longrightarrow> \<not> prefix p s) \<Longrightarrow> trim_left_space s = s"
  by (simp add: trim_left_space_def strip_fixed)

lemma space_encodings_nonempty: "p \<in> set space_encodings \<Longrightarrow> p \<noteq> []"
  by (auto simp: space_encodings_def)

lemma trim_left_space_done: "p \<in> set space_encodings \<Longrightarrow> \<not> prefix p (trim_left_space s)"
  using strip_done space_encodings_nonempty by (simp add: trim_left_space_def)

lemma trim_right_space_idem: "trim_right_space (trim_right_space s) = trim_right_space s"
proof -
  let ?t = "strip (map rev space_encodings) (rev s)"
  have "strip (map rev space_encodings) ?t = ?t"
    by (rule strip_fixed) (rule strip_done)
  then show ?thesis by (simp add: trim_right_space_def)
qed

lemma trim_space_idem [simp]: "trim_space (trim_space s) = trim_space s"
proof -
  have "\<not> prefix p (trim_space s)" if "p \<in> set space_encodings" for p
    using prefix_trans_not [OF trim_left_space_done [OF that] trim_right_space_prefix]
    by (simp add: trim_space_def)
  then have "trim_left_space (trim_space s) = trim_space s"
    by (rule trim_left_space_fixed)
  then show ?thesis
    by (simp add: trim_space_def trim_right_space_idem)
qed

lemma trim_space_Nil [simp]: "trim_space [] = []"
proof -
  have "prefix (trim_space []) (trim_left_space [])"
    by (simp add: trim_space_def trim_right_space_prefix)
  moreover have "trim_left_space [] = []"
    using strip_suffix [of space_encodings "[]"] by (simp add: trim_left_space_def)
  ultimately show ?thesis by simp
qed

lemma set_trim_space: "set (trim_space s) \<subseteq> set s"
proof -
  have "set (trim_space s) \<subseteq> set (trim_left_space s)"
    using trim_right_space_prefix by (auto simp: trim_space_def dest: set_mono_prefix)
  also have "\<dots> \<subseteq> set s"
    using strip_suffix by (auto simp: trim_left_space_def dest: set_mono_suffix)
  finally show ?thesis .
qed

text \<open>\<open>strings.TrimRight\<close> and \<open>strings.Trim\<close> with a cutset of ASCII characters.\<close>

definition trim_right_set :: "char list \<Rightarrow> string \<Rightarrow> string" where
  "trim_right_set cs s = rev (dropWhile (\<lambda>c. c \<in> set cs) (rev s))"

definition trim_set :: "char list \<Rightarrow> string \<Rightarrow> string" where
  "trim_set cs s = trim_right_set cs (dropWhile (\<lambda>c. c \<in> set cs) s)"

lemma trim_right_set_idem [simp]: "trim_right_set cs (trim_right_set cs s) = trim_right_set cs s"
  by (simp add: trim_right_set_def dropWhile_idem)

lemma space_encoding_ends:
  "p \<in> set space_encodings \<Longrightarrow> byte (hd p) \<le> 0x20 \<or> 0x80 \<le> byte (hd p)"
  "p \<in> set space_encodings \<Longrightarrow> byte (last p) \<le> 0x20 \<or> 0x80 \<le> byte (last p)"
  by (auto simp: space_encodings_def)

lemma trim_space_plain:
  assumes "\<forall>c \<in> set s. 0x20 < byte c \<and> byte c < 0x80"
  shows "trim_space s = s"
proof -
  have l: "\<not> prefix p s" if p: "p \<in> set space_encodings" for p
  proof
    assume "prefix p s"
    then have "hd p \<in> set s"
      using space_encodings_nonempty [OF p] by (metis hd_in_set set_mono_prefix subsetD)
    with assms space_encoding_ends(1) [OF p] show False by fastforce
  qed
  have r: "\<not> prefix q (rev s)" if q: "q \<in> set (map rev space_encodings)" for q
  proof
    assume pre: "prefix q (rev s)"
    obtain p where p: "p \<in> set space_encodings" "q = rev p" using q by auto
    have "hd q \<in> set (rev s)"
      using pre space_encodings_nonempty [OF p(1)] p(2) by (metis hd_in_set rev_is_Nil_conv set_mono_prefix subsetD)
    then have "last p \<in> set s" using p by (simp add: hd_rev)
    with assms space_encoding_ends(2) [OF p(1)] show False by fastforce
  qed
  have "trim_left_space s = s" using l by (rule trim_left_space_fixed)
  moreover have "trim_right_space s = s"
    using strip_fixed [of "map rev space_encodings" "rev s"] r by (simp add: trim_right_space_def)
  ultimately show ?thesis by (simp add: trim_space_def)
qed

lemma trim_set_none: "\<forall>c \<in> set s. c \<notin> set cs \<Longrightarrow> trim_set cs s = s"
proof -
  assume a: "\<forall>c \<in> set s. c \<notin> set cs"
  then have "dropWhile (\<lambda>c. c \<in> set cs) s = s" by (cases s) auto
  moreover have "dropWhile (\<lambda>c. c \<in> set cs) (rev s) = rev s"
    using a by (cases s rule: rev_cases) auto
  ultimately show ?thesis by (simp add: trim_set_def trim_right_set_def)
qed

section \<open>Searching and splitting\<close>

text \<open>\<open>strings.Split\<close> with a one-character separator: never empty.\<close>

fun split_on :: "char \<Rightarrow> string \<Rightarrow> string list" where
  "split_on d [] = [[]]"
| "split_on d (c # cs) =
     (if c = d then [] # split_on d cs
      else (case split_on d cs of [] \<Rightarrow> [[c]] | f # fs \<Rightarrow> (c # f) # fs))"

fun join_with :: "string \<Rightarrow> string list \<Rightarrow> string" where
  "join_with sep [] = []"
| "join_with sep [x] = x"
| "join_with sep (x # xs) = x @ sep @ join_with sep xs"

lemma split_on_nonempty [simp]: "split_on d s \<noteq> []"
  by (induction s) (auto split: list.splits)

lemma split_on_no_sep: "f \<in> set (split_on d s) \<Longrightarrow> d \<notin> set f"
proof (induction s arbitrary: f)
  case Nil
  then show ?case by simp
next
  case (Cons c cs)
  then show ?case by (auto split: if_splits list.splits)
qed

lemma split_on_single: "d \<notin> set s \<Longrightarrow> split_on d s = [s]"
  by (induction s) auto

lemma split_on_append: "d \<notin> set x \<Longrightarrow> split_on d (x @ d # s) = x # split_on d s"
  by (induction x) auto

lemma split_on_lines:
  "\<forall>l \<in> set ls. d \<notin> set l \<Longrightarrow> split_on d (concat (map (\<lambda>l. l @ [d]) ls)) = ls @ [[]]"
  by (induction ls) (simp_all add: split_on_append)

lemma join_split: "join_with [d] (split_on d s) = s"
proof (induction s)
  case Nil
  then show ?case by simp
next
  case (Cons c cs)
  obtain f fs where ffs: "split_on d cs = f # fs"
    by (cases "split_on d cs") auto
  with Cons show ?case by (cases fs) auto
qed

lemma length_split_on: "length (split_on d s) = Suc (count_list s d)"
proof (induction s)
  case Nil
  then show ?case by simp
next
  case (Cons c cs)
  then show ?case by (cases "split_on d cs") auto
qed

text \<open>The part of a string before and after the last occurrence of a character.\<close>

definition cut_last :: "char \<Rightarrow> string \<Rightarrow> (string \<times> string) option" where
  "cut_last d s =
     (if d \<in> set s then
        Some (rev (tl (dropWhile (\<lambda>c. c \<noteq> d) (rev s))), rev (takeWhile (\<lambda>c. c \<noteq> d) (rev s)))
      else None)"

text \<open>\<open>strings.Cut\<close> at the first occurrence of a character.\<close>

definition cut_first :: "char \<Rightarrow> string \<Rightarrow> (string \<times> string) option" where
  "cut_first d s =
     (if d \<in> set s then
        Some (takeWhile (\<lambda>c. c \<noteq> d) s, tl (dropWhile (\<lambda>c. c \<noteq> d) s))
      else None)"

lemma cut_last_append: "d \<notin> set b \<Longrightarrow> cut_last d (a @ d # b) = Some (a, b)"
proof -
  assume d: "d \<notin> set b"
  have "takeWhile (\<lambda>c. c \<noteq> d) (rev b @ d # rev a) = rev b"
    using d by (intro takeWhile_append_stop) auto
  moreover have "dropWhile (\<lambda>c. c \<noteq> d) (rev b @ d # rev a) = d # rev a"
    using d by (intro dropWhile_append_stop) auto
  ultimately show ?thesis by (simp add: cut_last_def)
qed

lemma cut_first_append: "d \<notin> set a \<Longrightarrow> cut_first d (a @ d # b) = Some (a, b)"
proof -
  assume d: "d \<notin> set a"
  have "takeWhile (\<lambda>c. c \<noteq> d) (a @ d # b) = a"
    using d by (intro takeWhile_append_stop) auto
  moreover have "dropWhile (\<lambda>c. c \<noteq> d) (a @ d # b) = d # b"
    using d by (intro dropWhile_append_stop) auto
  ultimately show ?thesis by (simp add: cut_first_def)
qed

definition contains_sub :: "string \<Rightarrow> string \<Rightarrow> bool" where
  "contains_sub s t = list_ex (\<lambda>k. prefix t (drop k s)) [0..<Suc (length s)]"

lemma contains_sub_iff: "contains_sub s t \<longleftrightarrow> sublist t s"
proof
  assume "contains_sub s t"
  then obtain k where "prefix t (drop k s)"
    by (auto simp: contains_sub_def list_ex_iff)
  then have "sublist t (drop k s)" by blast
  then show "sublist t s" by (meson sublist_drop sublist_order.order_trans)
next
  assume "sublist t s"
  then obtain a b where s: "s = a @ t @ b" by (auto simp: sublist_def)
  then have "prefix t (drop (length a) s)" by simp
  moreover from s have "length a \<in> set [0..<Suc (length s)]" by auto
  ultimately show "contains_sub s t" by (auto simp: contains_sub_def list_ex_iff)
qed

section \<open>Decimal numbers\<close>

definition digit_char :: "nat \<Rightarrow> char" where
  "digit_char d = char_of (48 + d)"

definition digit_val :: "char \<Rightarrow> nat" where
  "digit_val c = byte c - 48"

fun nat_dec :: "nat \<Rightarrow> string" where
  "nat_dec n = (if n < 10 then [digit_char n] else nat_dec (n div 10) @ [digit_char (n mod 10)])"

declare nat_dec.simps [simp del]

definition int_dec :: "int \<Rightarrow> string" where
  "int_dec i = (if i < 0 then CHR ''-'' # nat_dec (nat (- i)) else nat_dec (nat i))"

definition dec_val :: "string \<Rightarrow> nat" where
  "dec_val s = foldl (\<lambda>n c. 10 * n + digit_val c) 0 s"

lemma byte_digit_char [simp]: "d < 10 \<Longrightarrow> byte (digit_char d) = 48 + d"
  by (simp add: digit_char_def)

lemma digit_val_char [simp]: "d < 10 \<Longrightarrow> digit_val (digit_char d) = d"
  by (simp add: digit_val_def)

lemma dec_val_snoc: "dec_val (s @ [c]) = 10 * dec_val s + digit_val c"
  by (simp add: dec_val_def)

lemma dec_val_nat_dec [simp]: "dec_val (nat_dec n) = n"
proof (induction n rule: nat_dec.induct)
  case (1 n)
  show ?case
  proof (cases "n < 10")
    case True
    then show ?thesis by (simp add: nat_dec.simps [of n] dec_val_def)
  next
    case False
    with 1 show ?thesis by (simp add: nat_dec.simps [of n] dec_val_snoc)
  qed
qed

lemma nat_dec_inject [simp]: "nat_dec m = nat_dec n \<longleftrightarrow> m = n"
  by (metis dec_val_nat_dec)

lemma nat_dec_nonempty [simp]: "nat_dec n \<noteq> []"
  by (subst nat_dec.simps) simp

lemma nat_dec_digits: "c \<in> set (nat_dec n) \<Longrightarrow> dec_digit (byte c)"
proof (induction n rule: nat_dec.induct)
  case (1 n)
  then show ?case
    by (subst (asm) (2) nat_dec.simps) (auto simp: dec_digit_def split: if_splits)
qed

text \<open>\<open>strconv.Atoi\<close> within the range of \<open>int64\<close>: an optional sign and decimal digits.\<close>

definition all_digits :: "string \<Rightarrow> bool" where
  "all_digits s = (s \<noteq> [] \<and> list_all (\<lambda>c. dec_digit (byte c)) s)"

definition atoi :: "string \<Rightarrow> int option" where
  "atoi s =
     (let neg = (s \<noteq> [] \<and> hd s = CHR ''-'');
          ds = (if s \<noteq> [] \<and> (hd s = CHR ''-'' \<or> hd s = CHR ''+'') then tl s else s);
          v = (if neg then - int (dec_val ds) else int (dec_val ds))
      in if all_digits ds \<and> - (2 ^ 63) \<le> v \<and> v < 2 ^ 63 then Some v else None)"

lemma all_digits_nat_dec [simp]: "all_digits (nat_dec n)"
  using nat_dec_digits by (auto simp: all_digits_def list_all_iff)

lemma atoi_nat_dec: "n < 2 ^ 63 \<Longrightarrow> atoi (nat_dec n) = Some (int n)"
proof -
  assume n: "n < 2 ^ 63"
  have "dec_digit (byte (hd (nat_dec n)))"
    by (rule nat_dec_digits [of _ n]) simp
  then have "hd (nat_dec n) \<noteq> CHR ''-''" and "hd (nat_dec n) \<noteq> CHR ''+''"
    by (auto simp: dec_digit_def)
  with n show ?thesis by (simp add: atoi_def Let_def)
qed

section \<open>Quoting\<close>

text \<open>
  \<open>strconv.Quote\<close>, the verb q of \<open>fmt\<close>: printable runes stand for themselves, the others
  and the bytes that are not UTF-8 are escaped.
\<close>

definition hex_char :: "nat \<Rightarrow> char" where
  "hex_char k = (if k < 10 then char_of (48 + k) else char_of (87 + k))"

fun hex_pad :: "nat \<Rightarrow> nat \<Rightarrow> string" where
  "hex_pad 0 n = []"
| "hex_pad (Suc w) n = hex_pad w (n div 16) @ [hex_char (n mod 16)]"

definition is_print :: "unicode_tables \<Rightarrow> rune \<Rightarrow> bool" where
  "is_print u r = (if r < 0x80 then 0x20 \<le> r \<and> r < 0x7F else ut_print u r)"

definition quote_rune :: "unicode_tables \<Rightarrow> rune \<Rightarrow> string" where
  "quote_rune u r =
     (if r = 34 \<or> r = 92 then [CHR 0x5C, char_of r]
      else if is_print u r then encode_rune r
      else if r = 7 then [CHR 0x5C, CHR ''a''] else if r = 8 then [CHR 0x5C, CHR ''b'']
      else if r = 12 then [CHR 0x5C, CHR ''f''] else if r = 10 then [CHR 0x5C, CHR ''n'']
      else if r = 13 then [CHR 0x5C, CHR ''r''] else if r = 9 then [CHR 0x5C, CHR ''t'']
      else if r = 11 then [CHR 0x5C, CHR ''v'']
      else if r < 0x20 \<or> r = 0x7F then [CHR 0x5C, CHR ''x''] @ hex_pad 2 r
      else if r < 0x10000 then [CHR 0x5C, CHR ''u''] @ hex_pad 4 r
      else [CHR 0x5C, CHR ''U''] @ hex_pad 8 r)"

function quote_body :: "unicode_tables \<Rightarrow> string \<Rightarrow> string" where
  "quote_body u [] = []"
| "quote_body u (c # cs) = (case decode_rune (c # cs) of (r, w) \<Rightarrow>
     (if w = 1 \<and> 0x80 \<le> byte c then [CHR 0x5C, CHR ''x''] @ hex_pad 2 (byte c)
      else quote_rune u r) @ quote_body u (drop (w - 1) cs))"
  by pat_completeness auto
termination
  by (relation "measure (\<lambda>(u, s). length s)") auto

definition go_quote :: "unicode_tables \<Rightarrow> string \<Rightarrow> string" where
  "go_quote u s = [CHR 0x22] @ quote_body u s @ [CHR 0x22]"

definition plain_char :: "char \<Rightarrow> bool" where
  "plain_char c = (0x20 \<le> byte c \<and> byte c < 0x7F \<and> byte c \<noteq> 34 \<and> byte c \<noteq> 92)"

lemma quote_body_plain: "\<forall>c \<in> set s. plain_char c \<Longrightarrow> quote_body u s = s"
proof (induction s)
  case Nil
  then show ?case by simp
next
  case (Cons c cs)
  then have "plain_char c" by simp
  then show ?case
    using Cons by (simp add: plain_char_def quote_rune_def is_print_def)
qed

lemma go_quote_plain: "\<forall>c \<in> set s. plain_char c \<Longrightarrow> go_quote u s = [CHR 0x22] @ s @ [CHR 0x22]"
  by (simp add: go_quote_def quote_body_plain)

end
