(* ===== verification/Go_Net.thy ===== *)
theory Go_Net
  imports Go_Strings "HOL-Library.Word"
begin

text \<open>
  The parts of Go's \<open>net\<close> package the program calls: \<open>SplitHostPort\<close>, \<open>ParseIP\<close>,
  \<open>IP.To4\<close>, \<open>IP.String\<close> and \<open>IP.IsLoopback\<close>. An IP is its bytes, 4 or 16 of them, as in Go.
\<close>

type_synonym ip = "8 word list"

section \<open>Host and port\<close>

definition split_host_port :: "string \<Rightarrow> (string \<times> string) option" where
  "split_host_port hp = (case cut_last CHR '':'' hp of
       None \<Rightarrow> None
     | Some (pre, port) \<Rightarrow>
         if hd hp = CHR ''['' then
           (case cut_first CHR '']'' hp of
              None \<Rightarrow> None
            | Some (opened, rest) \<Rightarrow>
                if Suc (length opened) \<noteq> length pre then None
                else if CHR ''['' \<in> set (tl hp) then None
                else if CHR '']'' \<in> set rest then None
                else Some (tl opened, port))
         else if CHR '':'' \<in> set pre then None
         else if CHR ''['' \<in> set hp then None
         else if CHR '']'' \<in> set hp then None
         else Some (pre, port))"

lemma split_host_port_plain:
  assumes "CHR '':'' \<notin> set h" "CHR ''['' \<notin> set h" "CHR '']'' \<notin> set h"
    and "CHR '':'' \<notin> set p" "CHR ''['' \<notin> set p" "CHR '']'' \<notin> set p"
  shows "split_host_port (h @ CHR '':'' # p) = Some (h, p)"
proof -
  have "hd (h @ CHR '':'' # p) \<noteq> CHR ''[''"
    using assms by (cases h) auto
  with assms show ?thesis by (simp add: split_host_port_def cut_last_append)
qed

lemma split_host_port_no_colon: "CHR '':'' \<notin> set s \<Longrightarrow> split_host_port s = None"
  by (simp add: split_host_port_def cut_last_def)

section \<open>IP addresses\<close>

definition ipv4_field :: "string \<Rightarrow> 8 word option" where
  "ipv4_field f =
     (if all_digits f \<and> (length f = 1 \<or> hd f \<noteq> CHR ''0'') \<and> dec_val f \<le> 255
      then Some (of_nat (dec_val f)) else None)"

definition parse_ipv4 :: "string \<Rightarrow> ip option" where
  "parse_ipv4 s = (case split_on CHR ''.'' s of
       [a, b, c, d] \<Rightarrow>
         (case (ipv4_field a, ipv4_field b, ipv4_field c, ipv4_field d) of
            (Some w, Some x, Some y, Some z) \<Rightarrow> Some [w, x, y, z]
          | _ \<Rightarrow> None)
     | _ \<Rightarrow> None)"

definition hex_digit :: "char \<Rightarrow> nat option" where
  "hex_digit c =
     (let b = byte c in
      if dec_digit b then Some (b - 48)
      else if 97 \<le> b \<and> b \<le> 102 then Some (b - 87)
      else if 65 \<le> b \<and> b \<le> 70 then Some (b - 55)
      else None)"

definition hex_val :: "string \<Rightarrow> nat" where
  "hex_val s = foldl (\<lambda>n c. 16 * n + (case hex_digit c of None \<Rightarrow> 0 | Some d \<Rightarrow> d)) 0 s"

text \<open>
  The group loop of \<open>netip.parseIPv6\<close>: \<open>n\<close> groups may still be read, \<open>acc\<close> holds the
  bytes read so far and \<open>ell\<close> the position of the double colon.
\<close>

fun v6_loop :: "nat \<Rightarrow> ip \<Rightarrow> nat option \<Rightarrow> string \<Rightarrow> (ip \<times> nat option) option" where
  "v6_loop 0 acc ell s = (if s = [] then Some (acc, ell) else None)"
| "v6_loop (Suc n) acc ell s =
     (let ds = takeWhile (\<lambda>c. hex_digit c \<noteq> None) s;
          rest = drop (length ds) s;
          acc' = acc @ [of_nat (hex_val ds div 256), of_nat (hex_val ds mod 256)]
      in if ds = [] \<or> 4 < length ds then None
         else if rest \<noteq> [] \<and> hd rest = CHR ''.'' then
           (if (ell = None \<and> length acc \<noteq> 12) \<or> 12 < length acc then None
            else case parse_ipv4 s of None \<Rightarrow> None | Some b \<Rightarrow> Some (acc @ b, ell))
         else (case rest of
             [] \<Rightarrow> Some (acc', ell)
           | [_] \<Rightarrow> None
           | c # d # ds' \<Rightarrow>
               if c \<noteq> CHR '':'' then None
               else if d \<noteq> CHR '':'' then v6_loop n acc' ell (d # ds')
               else if ell \<noteq> None then None
               else if ds' = [] then Some (acc', Some (length acc'))
               else v6_loop n acc' (Some (length acc')) ds'))"

definition v6_expand :: "ip \<times> nat option \<Rightarrow> ip option" where
  "v6_expand p = (case p of
       (acc, None) \<Rightarrow> if length acc = 16 then Some acc else None
     | (acc, Some e) \<Rightarrow>
         if length acc < 16 then Some (take e acc @ replicate (16 - length acc) 0 @ drop e acc)
         else None)"

definition parse_ipv6 :: "string \<Rightarrow> ip option" where
  "parse_ipv6 s =
     (if prefix ''::'' s then
        (if length s = 2 then Some (replicate 16 0)
         else Option.bind (v6_loop 8 [] (Some 0) (drop 2 s)) v6_expand)
      else Option.bind (v6_loop 8 [] None s) v6_expand)"

definition v4_in_6 :: "ip \<Rightarrow> ip" where
  "v4_in_6 b = replicate 10 0 @ [0xFF, 0xFF] @ b"

text \<open>\<open>net.ParseIP\<close>: the 16-byte form, or nil; an address with a zone is refused.\<close>

definition parse_ip :: "string \<Rightarrow> ip option" where
  "parse_ip s =
     (if CHR ''%'' \<in> set s then None
      else (case find (\<lambda>c. c = CHR ''.'' \<or> c = CHR '':'') s of
          None \<Rightarrow> None
        | Some c \<Rightarrow> if c = CHR ''.'' then map_option v4_in_6 (parse_ipv4 s) else parse_ipv6 s))"

definition to4 :: "ip \<Rightarrow> ip option" where
  "to4 p =
     (if length p = 4 then Some p
      else if length p = 16 \<and> take 12 p = replicate 10 0 @ [0xFF, 0xFF] then Some (drop 12 p)
      else None)"

definition ipv4 :: "8 word \<Rightarrow> 8 word \<Rightarrow> 8 word \<Rightarrow> 8 word \<Rightarrow> ip" where
  "ipv4 a b c d = v4_in_6 [a, b, c, d]"

definition is_loopback :: "ip \<Rightarrow> bool" where
  "is_loopback p = (case to4 p of
       Some q \<Rightarrow> hd q = 127
     | None \<Rightarrow> p = replicate 15 0 @ [1])"

section \<open>Printing\<close>

fun nat_hex :: "nat \<Rightarrow> string" where
  "nat_hex n =
     (let d = (\<lambda>k. if k < 10 then char_of (48 + k) else char_of (87 + k))
      in if n < 16 then [d n] else nat_hex (n div 16) @ [d (n mod 16)])"

declare nat_hex.simps [simp del]

definition dotted :: "ip \<Rightarrow> string" where
  "dotted p = join_with ''.'' (map (\<lambda>b. nat_dec (unat b)) p)"

fun v6_groups :: "ip \<Rightarrow> nat list" where
  "v6_groups (a # b # r) = (unat a * 256 + unat b) # v6_groups r"
| "v6_groups _ = []"

text \<open>The first longest run of at least two zero groups: start and end.\<close>

definition zero_run :: "nat list \<Rightarrow> (nat \<times> nat) option" where
  "zero_run gs =
     foldl (\<lambda>best i.
         let l = length (takeWhile (\<lambda>g. g = 0) (drop i gs));
             cur = (case best of None \<Rightarrow> 0 | Some (a, b) \<Rightarrow> b - a)
         in if 2 \<le> l \<and> cur < l then Some (i, i + l) else best)
       None [0..<length gs]"

definition v6_string :: "ip \<Rightarrow> string" where
  "v6_string p =
     (let gs = v6_groups p; j = (\<lambda>xs. join_with '':'' (map nat_hex xs))
      in case zero_run gs of
           None \<Rightarrow> j gs
         | Some (a, b) \<Rightarrow> j (take a gs) @ ''::'' @ j (drop b gs))"

definition ip_string :: "ip \<Rightarrow> string" where
  "ip_string p =
     (if p = [] then ''<nil>''
      else (case to4 p of
          Some q \<Rightarrow> dotted q
        | None \<Rightarrow> if length p = 16 then v6_string p else ''?''))"

section \<open>Facts\<close>

lemma to4_v4_in_6 [simp]: "length b = 4 \<Longrightarrow> to4 (v4_in_6 b) = Some b"
  by (simp add: to4_def v4_in_6_def)

lemma to4_length4 [simp]: "length b = 4 \<Longrightarrow> to4 b = Some b"
  by (simp add: to4_def)

lemma to4_ipv4 [simp]: "to4 (ipv4 a b c d) = Some [a, b, c, d]"
  by (simp add: ipv4_def)

lemma nat_dec_hd_nonzero: "10 \<le> n \<Longrightarrow> hd (nat_dec n) \<noteq> CHR ''0''"
proof (induction n rule: nat_dec.induct)
  case (1 n)
  have ne: "nat_dec (n div 10) \<noteq> []" by simp
  show ?case
  proof (cases "10 \<le> n div 10")
    case True
    with 1 ne show ?thesis by (simp add: nat_dec.simps [of n])
  next
    case False
    then have "n div 10 < 10" by simp
    moreover have "0 < n div 10" using "1.prems" by (simp add: div_greater_zero_iff)
    ultimately have "byte (hd (nat_dec (n div 10))) \<noteq> byte (CHR ''0'')"
      by (simp add: nat_dec.simps [of "n div 10"])
    then have "hd (nat_dec (n div 10)) \<noteq> CHR ''0''" by metis
    with "1.prems" ne show ?thesis by (simp add: nat_dec.simps [of n])
  qed
qed

lemma ipv4_field_nat_dec: "ipv4_field (nat_dec (unat (b :: 8 word))) = Some b"
proof -
  have "unat b \<le> 255" using unsigned_less [of b, where ?'a = nat] by simp
  moreover have "length (nat_dec (unat b)) = 1 \<or> hd (nat_dec (unat b)) \<noteq> CHR ''0''"
  proof (cases "10 \<le> unat b")
    case True
    then show ?thesis by (simp add: nat_dec_hd_nonzero)
  next
    case False
    then show ?thesis by (simp add: nat_dec.simps)
  qed
  ultimately show ?thesis by (simp add: ipv4_field_def)
qed

lemma nat_dec_no_dot: "CHR ''.'' \<notin> set (nat_dec n)"
  using nat_dec_digits by (force simp: dec_digit_def)

lemma dotted_chars: "c \<in> set (dotted p) \<Longrightarrow> dec_digit (byte c) \<or> c = CHR ''.''"
proof (induction p rule: induct_list012)
  case (3 x y zs)
  then show ?case by (auto simp: dotted_def dest: nat_dec_digits)
qed (auto simp: dotted_def dest: nat_dec_digits)

lemma parse_ipv4_dotted: "parse_ipv4 (dotted [a, b, c, d]) = Some [a, b, c, d]"
  by (simp add: parse_ipv4_def dotted_def split_on_append split_on_single nat_dec_no_dot
      ipv4_field_nat_dec)

text \<open>Printing an IPv4 address and parsing it back gives its 16-byte form.\<close>

lemma parse_ip_dotted: "parse_ip (dotted [a, b, c, d]) = Some (ipv4 a b c d)"
proof -
  let ?s = "dotted [a, b, c, d]"
  have no: "CHR ''%'' \<notin> set ?s" "CHR '':'' \<notin> set ?s"
    using dotted_chars [of "CHR ''%''" "[a, b, c, d]"] dotted_chars [of "CHR '':''" "[a, b, c, d]"]
    by (simp_all add: dec_digit_def) blast+
  have "CHR ''.'' \<in> set ?s" by (simp add: dotted_def)
  then have "find (\<lambda>c. c = CHR ''.'' \<or> c = CHR '':'') ?s \<noteq> None"
    unfolding find_None_not by blast
  then obtain x where x: "find (\<lambda>c. c = CHR ''.'' \<or> c = CHR '':'') ?s = Some x" by blast
  with no have "x = CHR ''.''" by (auto dest: find_Some_holds)
  with no x show ?thesis by (simp add: parse_ip_def parse_ipv4_dotted ipv4_def)
qed

end
