(* ===== verification/Go_Json.thy ===== *)
theory Go_Json
  imports Go_Net
begin

text \<open>
  The part of \<open>encoding/json\<close> that the guest protocol uses: a stream decoder that reads one
  value and leaves the rest, and the encoder of strings. A number is kept as its literal.
  Decoding a string replaces what is not UTF-8 by U+FFFD, as Go does, so a round trip gives
  \<open>to_valid s\<close>, which is \<open>s\<close> itself when \<open>s\<close> is UTF-8.
\<close>

section \<open>Strings\<close>

text \<open>\<open>strings.ToValidUTF8\<close> with U+FFFD, one for each invalid byte.\<close>

definition to_valid :: "string \<Rightarrow> string" where
  "to_valid s = concat (map encode_rune (runes s))"

definition json_ascii :: "char \<Rightarrow> string" where
  "json_ascii c =
     (if c = CHR 0x22 \<or> c = CHR 0x5C then [CHR 0x5C, c]
      else if byte c = 8 then [CHR 0x5C, CHR ''b''] else if byte c = 12 then [CHR 0x5C, CHR ''f'']
      else if byte c = 10 then [CHR 0x5C, CHR ''n''] else if byte c = 13 then [CHR 0x5C, CHR ''r'']
      else if byte c = 9 then [CHR 0x5C, CHR ''t'']
      else if byte c < 0x20 \<or> c = CHR ''<'' \<or> c = CHR ''>'' \<or> c = CHR ''&''
      then [CHR 0x5C, CHR ''u''] @ hex_pad 4 (byte c)
      else [c])"

function json_body :: "string \<Rightarrow> string" where
  "json_body [] = []"
| "json_body (c # cs) = (case decode_rune (c # cs) of (r, w) \<Rightarrow>
     (if byte c < 0x80 then json_ascii c
      else if w = 1 then [CHR 0x5C, CHR ''u''] @ hex_pad 4 rune_error
      else if r = 0x2028 \<or> r = 0x2029 then [CHR 0x5C, CHR ''u''] @ hex_pad 4 r
      else take w (c # cs)) @ json_body (drop (w - 1) cs))"
  by pat_completeness auto
termination
  by (relation "measure length") auto

definition json_quote :: "string \<Rightarrow> string" where
  "json_quote s = CHR 0x22 # json_body s @ [CHR 0x22]"

fun hex4 :: "string \<Rightarrow> (nat \<times> string) option" where
  "hex4 (a # b # c # d # r) = (case (hex_digit a, hex_digit b, hex_digit c, hex_digit d) of
       (Some p, Some q, Some x, Some y) \<Rightarrow> Some (((p * 16 + q) * 16 + x) * 16 + y, r)
     | _ \<Rightarrow> None)"
| "hex4 _ = None"

definition is_surrogate :: "nat \<Rightarrow> bool" where
  "is_surrogate v = (0xD800 \<le> v \<and> v < 0xE000)"

text \<open>What follows a backslash: the bytes it stands for, and the rest.\<close>

definition json_escape :: "string \<Rightarrow> (string \<times> string) option" where
  "json_escape cs = (case cs of
       [] \<Rightarrow> None
     | c # r \<Rightarrow>
         if c = CHR 0x22 \<or> c = CHR 0x5C \<or> c = CHR ''/'' then Some ([c], r)
         else if c = CHR ''b'' then Some ([CHR 8], r) else if c = CHR ''f'' then Some ([CHR 12], r)
         else if c = CHR ''n'' then Some ([CHR 10], r) else if c = CHR ''r'' then Some ([CHR 13], r)
         else if c = CHR ''t'' then Some ([CHR 9], r)
         else if c = CHR ''u'' then (case hex4 r of
             None \<Rightarrow> None
           | Some (v, r1) \<Rightarrow>
               if \<not> is_surrogate v then Some (encode_rune v, r1)
               else (case (if take 2 r1 = [CHR 0x5C, CHR ''u''] then hex4 (drop 2 r1) else None) of
                   None \<Rightarrow> Some (encode_rune rune_error, r1)
                 | Some (v2, r2) \<Rightarrow>
                     if v < 0xDC00 \<and> is_surrogate v2 \<and> 0xDC00 \<le> v2
                     then Some (encode_rune (0x10000 + (v - 0xD800) * 0x400 + (v2 - 0xDC00)), r2)
                     else Some (encode_rune rune_error, r1)))
         else None)"

lemma hex4_shorter: "hex4 s = Some (v, r) \<Longrightarrow> length r < length s"
  by (induction s rule: hex4.induct) (auto split: option.splits)

lemma json_escape_shorter: "json_escape cs = Some (b, r) \<Longrightarrow> length r < length cs"
  by (auto simp: json_escape_def Let_def split: list.splits if_splits option.splits dest!: hex4_shorter)

text \<open>The rest of a string literal after its opening quote.\<close>

function json_str :: "string \<Rightarrow> (string \<times> string) option" where
  "json_str [] = None"
| "json_str (c # cs) =
     (if c = CHR 0x22 then Some ([], cs)
      else if c = CHR 0x5C then (case json_escape cs of
          None \<Rightarrow> None
        | Some (b, r) \<Rightarrow> map_option (\<lambda>(s, t). (b @ s, t)) (json_str r))
      else if byte c < 0x20 then None
      else (case decode_rune (c # cs) of (r, w) \<Rightarrow>
        map_option (\<lambda>(s, t). (encode_rune r @ s, t)) (json_str (drop (w - 1) cs))))"
  by pat_completeness auto
termination
  by (relation "measure length") (auto dest: json_escape_shorter)

declare json_str.simps [simp del]

section \<open>Values\<close>

datatype json = JNull | JBool bool | JNum string | JStr string | JArr "json list" | JObj "(string \<times> json) list"

definition json_space :: "char \<Rightarrow> bool" where
  "json_space c = (byte c = 32 \<or> byte c = 9 \<or> byte c = 10 \<or> byte c = 13)"

definition is_dec :: "char \<Rightarrow> bool" where
  "is_dec c = dec_digit (byte c)"

text \<open>The digits at the front, at least one.\<close>

definition digits1 :: "string \<Rightarrow> (string \<times> string) option" where
  "digits1 s = (if takeWhile is_dec s = [] then None else Some (takeWhile is_dec s, dropWhile is_dec s))"

definition json_int_part :: "string \<Rightarrow> (string \<times> string) option" where
  "json_int_part s = (case s of
       [] \<Rightarrow> None
     | c # r \<Rightarrow> if c = CHR ''0'' then Some ([c], r) else digits1 s)"

definition json_frac :: "string \<Rightarrow> (string \<times> string) option" where
  "json_frac s = (case s of
       c # r \<Rightarrow> if c = CHR ''.'' then map_option (\<lambda>(d, t). (c # d, t)) (digits1 r) else Some ([], s)
     | [] \<Rightarrow> Some ([], s))"

definition json_exp :: "string \<Rightarrow> (string \<times> string) option" where
  "json_exp s = (case s of
       c # r \<Rightarrow>
         if c = CHR ''e'' \<or> c = CHR ''E'' then (case r of
             g # r1 \<Rightarrow>
               if g = CHR ''+'' \<or> g = CHR ''-'' then map_option (\<lambda>(d, t). (c # g # d, t)) (digits1 r1)
               else map_option (\<lambda>(d, t). (c # d, t)) (digits1 r)
           | [] \<Rightarrow> None)
         else Some ([], s)
     | [] \<Rightarrow> Some ([], s))"

definition json_number :: "string \<Rightarrow> (string \<times> string) option" where
  "json_number s =
     (let sg = (if s \<noteq> [] \<and> hd s = CHR ''-'' then ''-'' else []) in
      case json_int_part (drop (length sg) s) of
        None \<Rightarrow> None
      | Some (a, r1) \<Rightarrow> (case json_frac r1 of
            None \<Rightarrow> None
          | Some (b, r2) \<Rightarrow> map_option (\<lambda>(c, r3). (sg @ a @ b @ c, r3)) (json_exp r2)))"

datatype jtok = TOpenObj | TCloseObj | TOpenArr | TCloseArr | TComma | TColon | TScalar json

definition json_word :: "string \<Rightarrow> json \<Rightarrow> string \<Rightarrow> (jtok \<times> string) option" where
  "json_word k v s = (if prefix k s then Some (TScalar v, drop (length k) s) else None)"

definition json_tok :: "string \<Rightarrow> (jtok \<times> string) option" where
  "json_tok s0 = (case dropWhile json_space s0 of
       [] \<Rightarrow> None
     | c # r \<Rightarrow>
         if c = CHR ''{'' then Some (TOpenObj, r) else if c = CHR ''}'' then Some (TCloseObj, r)
         else if c = CHR ''['' then Some (TOpenArr, r) else if c = CHR '']'' then Some (TCloseArr, r)
         else if c = CHR '','' then Some (TComma, r) else if c = CHR '':'' then Some (TColon, r)
         else if c = CHR 0x22 then map_option (\<lambda>(s, t). (TScalar (JStr s), t)) (json_str r)
         else if c = CHR ''t'' then json_word ''true'' (JBool True) (c # r)
         else if c = CHR ''f'' then json_word ''false'' (JBool False) (c # r)
         else if c = CHR ''n'' then json_word ''null'' JNull (c # r)
         else map_option (\<lambda>(s, t). (TScalar (JNum s), t)) (json_number (c # r)))"

lemma digits1_shorter: "digits1 s = Some (a, r) \<Longrightarrow> length r < length s"
proof -
  assume "digits1 s = Some (a, r)"
  then have "takeWhile is_dec s \<noteq> []" "r = dropWhile is_dec s" by (auto simp: digits1_def split: if_splits)
  moreover have "length s = length (takeWhile is_dec s) + length (dropWhile is_dec s)"
    by (metis length_append takeWhile_dropWhile_id)
  ultimately show ?thesis by (cases "takeWhile is_dec s") auto
qed

lemma json_number_shorter: "json_number s = Some (a, r) \<Longrightarrow> length r < length s"
proof -
  assume a: "json_number s = Some (a, r)"
  have i: "json_int_part s = Some (a, r) \<Longrightarrow> length r < length s" for s a r
    by (auto simp: json_int_part_def split: list.splits if_splits dest!: digits1_shorter)
  have f: "json_frac s = Some (a, r) \<Longrightarrow> length r \<le> length s" for s a r
    by (auto simp: json_frac_def split: list.splits if_splits dest!: digits1_shorter)
  have e: "json_exp s = Some (a, r) \<Longrightarrow> length r \<le> length s" for s a r
    by (auto simp: json_exp_def split: list.splits if_splits dest!: digits1_shorter)
  show ?thesis
    using a by (auto simp: json_number_def Let_def split: option.splits if_splits dest!: i f e)
qed

lemma json_str_shorter: "json_str s = Some (a, r) \<Longrightarrow> length r < length s"
proof (induction s arbitrary: a r rule: json_str.induct)
  case (2 c cs)
  show ?case
  proof (cases "c = CHR 0x22")
    case False
    show ?thesis
    proof (cases "c = CHR 0x5C")
      case True
      with "2.prems" obtain b r1 a1 where e: "json_escape cs = Some (b, r1)" "json_str r1 = Some (a1, r)"
        by (auto simp: json_str.simps split: option.splits)
      from "2.IH"(1) [OF False True e(1) refl e(2)] json_escape_shorter [OF e(1)] show ?thesis by simp
    next
      case bs: False
      with False "2.prems" obtain rw w a1 where e: "\<not> byte c < 0x20" "decode_rune (c # cs) = (rw, w)"
        "json_str (drop (w - 1) cs) = Some (a1, r)"
        by (auto simp: json_str.simps simp del: decode_rune.simps split: if_splits prod.splits)
      from "2.IH"(2) [OF False bs e(1) e(2) [symmetric] e(3)] show ?thesis by simp
    qed
  qed (use "2.prems" in \<open>auto simp: json_str.simps\<close>)
qed (simp add: json_str.simps)

lemma json_tok_shorter: "json_tok s = Some (k, r) \<Longrightarrow> length r < length s"
proof -
  assume a: "json_tok s = Some (k, r)"
  then obtain c t where d: "dropWhile json_space s = c # t" by (auto simp: json_tok_def split: list.splits)
  have l: "length (c # t) \<le> length s" using length_dropWhile_le [of json_space s] d by simp
  have "length r < length (c # t)"
    using a unfolding json_tok_def d
    by (auto simp: json_word_def split: if_splits dest!: json_str_shorter json_number_shorter)
  with l show ?thesis by linarith
qed

text \<open>
  The parser: a stack of open arrays and objects, and what it expects next. Nesting beyond
  10000 levels is an error, as in the scanner.
\<close>

datatype jframe = FArr "json list" | FObj "(string \<times> json) list" string

datatype jexpect = XValue | XFirst | XFirstKey | XKey "(string \<times> json) list" | XColon "(string \<times> json) list" string | XDone json

definition maxNestingDepth :: nat where
  "maxNestingDepth = 10000"

text \<open>Starting a value with the token \<open>k\<close>.\<close>

definition start_value :: "jframe list \<Rightarrow> jtok \<Rightarrow> (jframe list \<times> jexpect) option" where
  "start_value st k = (case k of
       TScalar v \<Rightarrow> Some (st, XDone v)
     | TOpenArr \<Rightarrow> if length st < maxNestingDepth then Some (FArr [] # st, XFirst) else None
     | TOpenObj \<Rightarrow> if length st < maxNestingDepth then Some (st, XFirstKey) else None
     | _ \<Rightarrow> None)"

definition json_step :: "jframe list \<Rightarrow> jexpect \<Rightarrow> jtok \<Rightarrow> (jframe list \<times> jexpect) option" where
  "json_step st q k = (case q of
       XValue \<Rightarrow> start_value st k
     | XFirst \<Rightarrow> if k = TCloseArr then Some (tl st, XDone (JArr [])) else start_value st k
     | XFirstKey \<Rightarrow> (case k of
           TCloseObj \<Rightarrow> Some (st, XDone (JObj []))
         | TScalar (JStr s) \<Rightarrow> Some (st, XColon [] s)
         | _ \<Rightarrow> None)
     | XKey ms \<Rightarrow> (case k of TScalar (JStr s) \<Rightarrow> Some (st, XColon ms s) | _ \<Rightarrow> None)
     | XColon ms s \<Rightarrow> if k = TColon then Some (FObj ms s # st, XValue) else None
     | XDone v \<Rightarrow> (case st of
           FArr vs # st' \<Rightarrow>
             if k = TComma then Some (FArr (vs @ [v]) # st', XValue)
             else if k = TCloseArr then Some (st', XDone (JArr (vs @ [v]))) else None
         | FObj ms s # st' \<Rightarrow>
             if k = TComma then Some (st', XKey (ms @ [(s, v)]))
             else if k = TCloseObj then Some (st', XDone (JObj (ms @ [(s, v)]))) else None
         | [] \<Rightarrow> None))"

definition json_result :: "jframe list \<Rightarrow> jexpect \<Rightarrow> json option" where
  "json_result st q = (case q of XDone v \<Rightarrow> if st = [] then Some v else None | _ \<Rightarrow> None)"

function json_run :: "jframe list \<Rightarrow> jexpect \<Rightarrow> string \<Rightarrow> (json \<times> string) option" where
  "json_run st q s = (case json_result st q of
       Some v \<Rightarrow> Some (v, s)
     | None \<Rightarrow> (case json_tok s of
         None \<Rightarrow> None
       | Some (k, r) \<Rightarrow> (case json_step st q k of
           None \<Rightarrow> None
         | Some (st', q') \<Rightarrow> json_run st' q' r)))"
  by pat_completeness auto
termination
  by (relation "measure (\<lambda>(st, q, s). length s)") (auto dest: json_tok_shorter)

declare json_run.simps [simp del]

text \<open>\<open>Decoder.Decode\<close>: the next value of the stream, and what is left of it.\<close>

definition json_decode :: "string \<Rightarrow> (json \<times> string) option" where
  "json_decode s = json_run [] XValue s"

section \<open>A string read back\<close>

lemma base64_digits:
  assumes "v < 64" "w < 64" "z < (64::nat)"
  shows "(u * 64 + v) div 64 = u" "(u * 64 + v) mod 64 = v"
    "(u * 4096 + v * 64 + w) div 4096 = u" "(u * 4096 + v * 64 + w) div 64 mod 64 = v" "(u * 4096 + v * 64 + w) mod 64 = w"
    "(u * 262144 + v * 4096 + w * 64 + z) div 262144 = u" "(u * 262144 + v * 4096 + w * 64 + z) div 4096 mod 64 = v"
    "(u * 262144 + v * 4096 + w * 64 + z) div 64 mod 64 = w" "(u * 262144 + v * 4096 + w * 64 + z) mod 64 = z"
proof -
  have one: "(m * 64 + k) div 64 = m \<and> (m * 64 + k) mod 64 = k" if "k < 64" for m k :: nat
    using that by simp
  have d: "m div 4096 = m div 64 div 64" "m div 262144 = m div 64 div 64 div 64" for m :: nat
    by (simp_all add: div_mult2_eq [symmetric])
  have s2: "u * 4096 + v * 64 + w = (u * 64 + v) * 64 + w" by simp
  have s3: "u * 262144 + v * 4096 + w * 64 + z = ((u * 64 + v) * 64 + w) * 64 + z" by simp
  show "(u * 64 + v) div 64 = u" "(u * 64 + v) mod 64 = v" using one assms by blast+
  show "(u * 4096 + v * 64 + w) div 4096 = u" "(u * 4096 + v * 64 + w) div 64 mod 64 = v" "(u * 4096 + v * 64 + w) mod 64 = w"
    unfolding s2 d using one [OF assms(1)] one [OF assms(2)] by (simp_all only:)
  show "(u * 262144 + v * 4096 + w * 64 + z) div 262144 = u" "(u * 262144 + v * 4096 + w * 64 + z) div 4096 mod 64 = v"
    "(u * 262144 + v * 4096 + w * 64 + z) div 64 mod 64 = w" "(u * 262144 + v * 4096 + w * 64 + z) mod 64 = z"
    unfolding s3 d using one [OF assms(1)] one [OF assms(2)] one [OF assms(3)] by (simp_all only:)
qed

lemma encode_rune_2:
  assumes "0xC2 \<le> b" "b < 0xE0" "0x80 \<le> x" "x \<le> 0xBF"
  shows "encode_rune ((b - 0xC0) * 64 + (x - 0x80)) = [char_of b, char_of x]" and "0x80 \<le> (b - 0xC0) * 64 + (x - 0x80)"
proof -
  define u v where "u = b - 0xC0" and "v = x - 0x80"
  have uv: "b = 0xC0 + u" "x = 0x80 + v" "2 \<le> u" "u < 32" "v < 64" using assms by (simp_all add: u_def v_def)
  define r where "r = u * 64 + v"
  have "r div 64 = u" "r mod 64 = v" "0x80 \<le> r" "r < 0x800"
    using base64_digits uv by (simp_all add: r_def)
  then show "encode_rune ((b - 0xC0) * 64 + (x - 0x80)) = [char_of b, char_of x]" "0x80 \<le> (b - 0xC0) * 64 + (x - 0x80)"
    unfolding u_def [symmetric] v_def [symmetric] r_def [symmetric] by (simp_all add: encode_rune_def Let_def uv)
qed

lemma encode_rune_3:
  assumes "0xE0 \<le> b" "b < 0xF0" "0x80 \<le> x" "x \<le> 0xBF" "b = 0xE0 \<longrightarrow> 0xA0 \<le> x" "b = 0xED \<longrightarrow> x \<le> 0x9F" "0x80 \<le> y" "y \<le> 0xBF"
  shows "encode_rune ((b - 0xE0) * 4096 + (x - 0x80) * 64 + (y - 0x80)) = [char_of b, char_of x, char_of y]"
    and "0x80 \<le> (b - 0xE0) * 4096 + (x - 0x80) * 64 + (y - 0x80)"
proof -
  define u v w where "u = b - 0xE0" and "v = x - 0x80" and "w = y - 0x80"
  have uv: "b = 0xE0 + u" "x = 0x80 + v" "y = 0x80 + w" "u < 16" "v < 64" "w < 64" "u = 0 \<longrightarrow> 32 \<le> v" "u = 13 \<longrightarrow> v < 32"
    using assms by (auto simp: u_def v_def w_def)
  define r where "r = u * 4096 + v * 64 + w"
  have "r div 4096 = u" "r div 64 mod 64 = v" "r mod 64 = w" using base64_digits uv by (simp_all add: r_def)
  moreover have "0x800 \<le> r" "r < 0x10000" "\<not> (0xD800 \<le> r \<and> r \<le> 0xDFFF)"
    using uv by (cases "u = 0"; cases "u = 13"; simp add: r_def; linarith)+
  ultimately show "encode_rune ((b - 0xE0) * 4096 + (x - 0x80) * 64 + (y - 0x80)) = [char_of b, char_of x, char_of y]"
    "0x80 \<le> (b - 0xE0) * 4096 + (x - 0x80) * 64 + (y - 0x80)"
    unfolding u_def [symmetric] v_def [symmetric] w_def [symmetric] r_def [symmetric] by (auto simp add: encode_rune_def Let_def uv)
qed

lemma encode_rune_4:
  assumes "0xF0 \<le> b" "b \<le> 0xF4" "0x80 \<le> x" "x \<le> 0xBF" "b = 0xF0 \<longrightarrow> 0x90 \<le> x" "b = 0xF4 \<longrightarrow> x \<le> 0x8F" "0x80 \<le> y" "y \<le> 0xBF"
    "0x80 \<le> z" "z \<le> 0xBF"
  shows "encode_rune ((b - 0xF0) * 262144 + (x - 0x80) * 4096 + (y - 0x80) * 64 + (z - 0x80)) = [char_of b, char_of x, char_of y, char_of z]"
    and "0x80 \<le> (b - 0xF0) * 262144 + (x - 0x80) * 4096 + (y - 0x80) * 64 + (z - 0x80)"
proof -
  define u v w k where "u = b - 0xF0" and "v = x - 0x80" and "w = y - 0x80" and "k = z - 0x80"
  have uv: "b = 0xF0 + u" "x = 0x80 + v" "y = 0x80 + w" "z = 0x80 + k" "u \<le> 4" "v < 64" "w < 64" "k < 64"
    "u = 0 \<longrightarrow> 16 \<le> v" "u = 4 \<longrightarrow> v < 16"
    using assms by (auto simp: u_def v_def w_def k_def)
  define r where "r = u * 262144 + v * 4096 + w * 64 + k"
  have "r div 262144 = u" "r div 4096 mod 64 = v" "r div 64 mod 64 = w" "r mod 64 = k" using base64_digits uv by (simp_all add: r_def)
  moreover have "0x10000 \<le> r" "r \<le> 0x10FFFF"
    using uv by (cases "u = 0"; cases "u = 4"; simp add: r_def; linarith)+
  ultimately show "encode_rune ((b - 0xF0) * 262144 + (x - 0x80) * 4096 + (y - 0x80) * 64 + (z - 0x80)) = [char_of b, char_of x, char_of y, char_of z]"
    "0x80 \<le> (b - 0xF0) * 262144 + (x - 0x80) * 4096 + (y - 0x80) * 64 + (z - 0x80)"
    unfolding u_def [symmetric] v_def [symmetric] w_def [symmetric] k_def [symmetric] r_def [symmetric]
    by (auto simp add: encode_rune_def Let_def uv)
qed

lemma decode_rune_wide:
  assumes "decode_rune (c # cs) = (r, w)" and "0x80 \<le> byte c" and "w \<noteq> 1"
  shows "take w (c # cs) = encode_rune r \<and> w = length (encode_rune r) \<and> 0x80 \<le> r
    \<and> decode_rune (encode_rune r @ t) = (r, w)"
proof -
  obtain lo hi where lh: "second_range (byte c) = (lo, hi)" by fastforce
  have b: "0xC2 \<le> byte c" "byte c \<le> 0xF4"
    using assms by (auto simp: Let_def split: if_splits prod.splits)
  obtain c1 cs1 where cs: "cs = c1 # cs1" and c1: "cont_in lo hi c1"
    using assms b lh by (auto simp: Let_def split: if_splits list.splits)
  have x: "0x80 \<le> byte c1" "byte c1 \<le> 0xBF" "byte c = 0xE0 \<longrightarrow> 0xA0 \<le> byte c1" "byte c = 0xED \<longrightarrow> byte c1 \<le> 0x9F"
    "byte c = 0xF0 \<longrightarrow> 0x90 \<le> byte c1" "byte c = 0xF4 \<longrightarrow> byte c1 \<le> 0x8F"
    using lh c1 by (auto simp: second_range_def cont_in_def split: if_splits)
  consider (two) "byte c < 0xE0" | (three) "0xE0 \<le> byte c" "byte c < 0xF0" | (four) "0xF0 \<le> byte c" by linarith
  then show ?thesis
  proof cases
    case two
    then have r: "r = (byte c - 0xC0) * 64 + (byte c1 - 0x80)" "w = 2"
      using assms b lh c1 unfolding cs by (auto simp: Let_def)
    have e: "encode_rune r = [c, c1]" "0x80 \<le> r"
      using encode_rune_2 [OF b(1) two x(1,2)] r by simp_all
    show ?thesis unfolding e(1) using e(2) r two b c1 lh by (simp add: cs Let_def)
  next
    case three
    obtain c2 cs2 where cs1: "cs1 = c2 # cs2" and c2: "cont c2"
      using assms b lh c1 three unfolding cs by (auto simp: Let_def split: if_splits list.splits)
    have y: "0x80 \<le> byte c2" "byte c2 \<le> 0xBF" using c2 by (simp_all add: cont_in_def)
    have r: "r = (byte c - 0xE0) * 4096 + (byte c1 - 0x80) * 64 + (byte c2 - 0x80)" "w = 3"
      using assms b lh c1 c2 three unfolding cs cs1 by (auto simp: Let_def)
    have e: "encode_rune r = [c, c1, c2]" "0x80 \<le> r"
      using encode_rune_3 [OF three x(1-4) y] r by simp_all
    show ?thesis unfolding e(1) using e(2) r three b c1 c2 lh by (simp add: cs cs1 Let_def)
  next
    case four
    obtain c2 cs2 where cs1: "cs1 = c2 # cs2" and c2: "cont c2"
      using assms b lh c1 four unfolding cs by (auto simp: Let_def split: if_splits list.splits)
    obtain c3 cs3 where cs2: "cs2 = c3 # cs3" and c3: "cont c3"
      using assms b lh c1 c2 four unfolding cs cs1 by (auto simp: Let_def split: if_splits list.splits)
    have y: "0x80 \<le> byte c2" "byte c2 \<le> 0xBF" "0x80 \<le> byte c3" "byte c3 \<le> 0xBF" using c2 c3 by (simp_all add: cont_in_def)
    have r: "r = (byte c - 0xF0) * 262144 + (byte c1 - 0x80) * 4096 + (byte c2 - 0x80) * 64 + (byte c3 - 0x80)" "w = 4"
      using assms b lh c1 c2 c3 four unfolding cs cs1 cs2 by (auto simp: Let_def)
    have e: "encode_rune r = [c, c1, c2, c3]" "0x80 \<le> r"
      using encode_rune_4 [OF four b(2) x(1,2,5,6) y] r by simp_all
    show ?thesis unfolding e(1) using e(2) r four b c1 c2 c3 lh by (simp add: cs cs1 cs2 Let_def)
  qed
qed

lemma hex_digit_char: "k < 16 \<Longrightarrow> hex_digit (hex_char k) = Some k"
  by (auto simp: hex_digit_def hex_char_def dec_digit_def Let_def)

lemma hex4_hex_pad: "n < 0x10000 \<Longrightarrow> hex4 (hex_pad 4 n @ r) = Some (n, r)"
proof -
  assume n: "n < 0x10000"
  have four: "(4::nat) = Suc (Suc (Suc (Suc 0)))" by simp
  have h: "hex_pad 4 n = [hex_char (n div 16 div 16 div 16 mod 16), hex_char (n div 16 div 16 mod 16),
      hex_char (n div 16 mod 16), hex_char (n mod 16)]"
    unfolding four by simp
  have "n div 16 div 16 div 16 mod 16 = n div 16 div 16 div 16"
    using n by (intro mod_less) (simp add: div_mult2_eq [symmetric] less_mult_imp_div_less)
  then have "((n div 16 div 16 div 16 mod 16 * 16 + n div 16 div 16 mod 16) * 16 + n div 16 mod 16) * 16 + n mod 16 = n"
    by (metis div_mult_mod_eq)
  then show ?thesis by (simp add: h hex_digit_char)
qed

lemma json_str_escape:
  "json_escape e = Some (b, r) \<Longrightarrow> json_str (CHR 0x5C # e) = map_option (\<lambda>(s, t). (b @ s, t)) (json_str r)"
  by (simp add: json_str.simps(2))

lemma json_str_unicode:
  "n < 0x10000 \<Longrightarrow> \<not> is_surrogate n \<Longrightarrow>
     json_str ([CHR 0x5C, CHR ''u''] @ hex_pad 4 n @ r) = map_option (\<lambda>(s, t). (encode_rune n @ s, t)) (json_str r)"
  using json_str_escape [of "CHR ''u'' # hex_pad 4 n @ r" "encode_rune n" r]
  by (simp add: json_escape_def hex4_hex_pad)

lemma byte_char: "byte c = n \<Longrightarrow> c = char_of n"
  by (metis char_of_char)

lemma json_str_ascii:
  assumes "byte c < 0x80"
  shows "json_str (json_ascii c @ r) = map_option (\<lambda>(s, t). (c # s, t)) (json_str r)"
proof -
  consider (q) "c = CHR 0x22 \<or> c = CHR 0x5C" | (b) "byte c = 8" | (f) "byte c = 12" | (n) "byte c = 10" | (r) "byte c = 13"
    | (t) "byte c = 9"
    | (u) "byte c < 0x20 \<or> c = CHR ''<'' \<or> c = CHR ''>'' \<or> c = CHR ''&''" "\<not> (c = CHR 0x22 \<or> c = CHR 0x5C)"
      "byte c \<noteq> 8" "byte c \<noteq> 12" "byte c \<noteq> 10" "byte c \<noteq> 13" "byte c \<noteq> 9"
    | (p) "\<not> (byte c < 0x20 \<or> c = CHR ''<'' \<or> c = CHR ''>'' \<or> c = CHR ''&'')" "\<not> (c = CHR 0x22 \<or> c = CHR 0x5C)"
      "byte c \<noteq> 8" "byte c \<noteq> 12" "byte c \<noteq> 10" "byte c \<noteq> 13" "byte c \<noteq> 9"
    by blast
  then show ?thesis
  proof cases
    case q
    then show ?thesis by (auto simp: json_ascii_def json_escape_def json_str_escape)
  next
    case u
    then have "json_ascii c = [CHR 0x5C, CHR ''u''] @ hex_pad 4 (byte c)" by (simp only: json_ascii_def if_True if_False)
    then show ?thesis using json_str_unicode [of "byte c" r] assms by (simp add: is_surrogate_def)
  next
    case p
    then have "json_ascii c = [c]" by (simp only: json_ascii_def if_False)
    then show ?thesis using assms p(1,2) by (simp add: json_str.simps(2))
  next
    case b
    then have c: "c = CHR 8" using byte_char [of c 8] by (simp add: char_of_def bit_0)
    show ?thesis unfolding c by (simp add: json_ascii_def json_escape_def json_str_escape)
  next
    case f
    then have c: "c = CHR 12" using byte_char [of c 12] by (simp add: char_of_def bit_0)
    show ?thesis unfolding c by (simp add: json_ascii_def json_escape_def json_str_escape)
  next
    case n
    then have c: "c = CHR 10" using byte_char [of c 10] by (simp add: char_of_def bit_0)
    show ?thesis unfolding c by (simp add: json_ascii_def json_escape_def json_str_escape)
  next
    case r
    then have c: "c = CHR 13" using byte_char [of c 13] by (simp add: char_of_def bit_0)
    show ?thesis unfolding c by (simp add: json_ascii_def json_escape_def json_str_escape)
  next
    case t
    then have c: "c = CHR 9" using byte_char [of c 9] by (simp add: char_of_def bit_0)
    show ?thesis unfolding c by (simp add: json_ascii_def json_escape_def json_str_escape)
  qed
qed

lemma json_str_body: "json_str (json_body s @ CHR 0x22 # t) = Some (to_valid s, t)"
proof (induction s rule: json_body.induct)
  case 1
  then show ?case by (simp add: json_str.simps to_valid_def)
next
  case (2 c cs)
  obtain r w where rw: "decode_rune (c # cs) = (r, w)" by fastforce
  have IH: "json_str (json_body (drop (w - 1) cs) @ CHR 0x22 # t) = Some (to_valid (drop (w - 1) cs), t)"
    using 2 [OF rw [symmetric]] .
  have v: "to_valid (c # cs) = encode_rune r @ to_valid (drop (w - 1) cs)"
    by (simp add: to_valid_def rw del: decode_rune.simps)
  show ?case
  proof (cases "byte c < 0x80")
    case True
    then have "encode_rune r = [c]" "w = 1" using rw byte_char [of c r] by auto
    then show ?thesis using IH True rw v by (simp add: json_str_ascii)
  next
    case False
    note hi = decode_rune_non_ascii [OF rw]
    show ?thesis
    proof (cases "w = 1")
      case True
      then have "r = rune_error" using rw False
        by (auto simp: Let_def split: if_splits list.splits prod.splits)
      then show ?thesis
        using json_str_unicode [of rune_error "json_body cs @ CHR 0x22 # t"] IH True False rw v
        by (simp add: rune_error_def is_surrogate_def del: decode_rune.simps)
    next
      case w: False
      note wide = decode_rune_wide [OF rw _ w]
      show ?thesis
      proof (cases "r = 0x2028 \<or> r = 0x2029")
        case True
        then show ?thesis
          using json_str_unicode [of r "json_body (drop (w - 1) cs) @ CHR 0x22 # t"] IH w False rw v
          by (auto simp: is_surrogate_def simp del: decode_rune.simps)
      next
        case plain: False
        have wd: "take w (c # cs) = encode_rune r" "w = length (encode_rune r)" "decode_rune (encode_rune r @ k) = (r, w)" for k
          using decode_rune_wide [OF rw _ w] False by auto
        obtain es where es: "encode_rune r = c # es" "length es = w - 1"
        proof -
          obtain k where k: "w = Suc k" using hi(1) False by (cases w) auto
          with wd(1) have "encode_rune r = c # take k cs" by simp
          with that [of "take k cs"] wd(2) k show thesis by simp
        qed
        have "json_body (c # cs) = encode_rune r @ json_body (drop (w - 1) cs)"
          using rw False w plain wd(1) by (simp del: decode_rune.simps)
        moreover have "c \<noteq> CHR 0x22" "c \<noteq> CHR 0x5C" using False by auto
        ultimately show ?thesis
          using wd(3) [of "json_body (drop (w - 1) cs) @ CHR 0x22 # t"] IH False v
          by (simp add: es json_str.simps(2) del: decode_rune.simps)
      qed
    qed
  qed
qed

function valid_utf8 :: "string \<Rightarrow> bool" where
  "valid_utf8 [] = True"
| "valid_utf8 (c # cs) = (case decode_rune (c # cs) of (r, w) \<Rightarrow>
     \<not> (w = 1 \<and> 0x80 \<le> byte c) \<and> valid_utf8 (drop (w - 1) cs))"
  by pat_completeness auto
termination
  by (relation "measure length") auto

lemma to_valid_id: "valid_utf8 s \<Longrightarrow> to_valid s = s"
proof (induction s rule: valid_utf8.induct)
  case (2 c cs)
  obtain r w where rw: "decode_rune (c # cs) = (r, w)" by fastforce
  with 2 have IH: "to_valid (drop (w - 1) cs) = drop (w - 1) cs" and ok: "w = 1 \<longrightarrow> byte c < 0x80" by (auto simp del: decode_rune.simps)
  have e: "to_valid (c # cs) = encode_rune r @ drop (w - 1) cs"
    using IH rw by (simp add: to_valid_def del: decode_rune.simps)
  show ?case
  proof (cases "byte c < 0x80")
    case True
    then show ?thesis using e rw byte_char [of c r] by auto
  next
    case False
    with ok have w: "w \<noteq> 1" "1 \<le> w" using decode_rune_non_ascii(1) [OF rw] by auto
    then obtain k where k: "w = Suc k" by (cases w) auto
    have "take w (c # cs) = encode_rune r" using decode_rune_wide [OF rw _ w(1)] False by (meson not_less)
    then have "encode_rune r = c # take (w - 1) cs" unfolding k by simp
    then show ?thesis using e by simp
  qed
qed (simp add: to_valid_def)

lemma valid_utf8_ascii: "\<forall>c \<in> set s. byte c < 0x80 \<Longrightarrow> valid_utf8 s"
  by (induction s) auto

section \<open>An object of scalars read back\<close>

lemma nat_dec_head:
  "nat_dec n = [CHR ''0''] \<or> (hd (nat_dec n) \<noteq> CHR ''0'')"
proof (induction n rule: nat_dec.induct)
  case (1 n)
  show ?case
  proof (cases "n < 10")
    case True
    then show ?thesis
      by (cases "n = 0") (auto simp: nat_dec.simps [of n] nat_dec.simps [of 0] digit_char_def char_of_def bit_0
          dest!: arg_cong [of _ _ byte])
  next
    case False
    have "nat_dec (n div 10) \<noteq> [CHR ''0'']"
    proof
      assume "nat_dec (n div 10) = [CHR ''0'']"
      then have "dec_val (nat_dec (n div 10)) = dec_val [CHR ''0'']" by simp
      then have "n div 10 = dec_val [CHR ''0'']" by (simp only: dec_val_nat_dec)
      then have "n div 10 = 0" by (simp add: dec_val_def digit_val_def)
      with False show False by simp
    qed
    with 1 [OF False] False show ?thesis by (simp add: nat_dec.simps [of n])
  qed
qed

definition num_end :: "char \<Rightarrow> bool" where
  "num_end c = (\<not> is_dec c \<and> c \<noteq> CHR ''.'' \<and> c \<noteq> CHR ''e'' \<and> c \<noteq> CHR ''E'')"

lemma json_int_part_dec: "num_end c \<Longrightarrow> json_int_part (nat_dec n @ c # r) = Some (nat_dec n, c # r)"
proof -
  assume c: "num_end c"
  have d: "\<forall>x \<in> set (nat_dec n). is_dec x" using nat_dec_digits by (auto simp: is_dec_def)
  have "digits1 (nat_dec n @ c # r) = Some (nat_dec n, c # r)"
    using takeWhile_append_stop [OF d, of c r] dropWhile_append_stop [OF d, of c r] c by (simp add: digits1_def num_end_def)
  moreover obtain x xs where x: "nat_dec n = x # xs" by (cases "nat_dec n") auto
  ultimately show ?thesis using nat_dec_head [of n] by (auto simp: json_int_part_def)
qed

lemma json_number_dec: "num_end c \<Longrightarrow> json_number (int_dec i @ c # r) = Some (int_dec i, c # r)"
proof -
  assume c: "num_end c"
  have f: "json_frac (c # r) = Some ([], c # r)" "json_exp (c # r) = Some ([], c # r)"
    using c by (auto simp: json_frac_def json_exp_def num_end_def)
  have h: "hd (nat_dec n) \<noteq> CHR ''-''" for n
    using nat_dec_digits [of "hd (nat_dec n)" n] by (auto simp: dec_digit_def)
  show ?thesis
    by (simp add: json_number_def int_dec_def Let_def h json_int_part_dec [OF c] f)
qed

definition scalar_text :: "string \<Rightarrow> json \<Rightarrow> bool" where
  "scalar_text v j = (\<forall>r. json_tok (v @ CHR '','' # r) = Some (TScalar j, CHR '','' # r)
     \<and> json_tok (v @ CHR ''}'' # r) = Some (TScalar j, CHR ''}'' # r))"

lemma json_tok_quote: "json_tok (json_quote s @ t) = Some (TScalar (JStr (to_valid s)), t)"
  by (simp add: json_tok_def json_quote_def json_space_def json_str_body)

lemma scalar_string: "scalar_text (json_quote s) (JStr (to_valid s))"
  by (simp add: scalar_text_def json_tok_quote)

lemma json_tok_int:
  assumes "num_end c" shows "json_tok (int_dec i @ c # r) = Some (TScalar (JNum (int_dec i)), c # r)"
proof -
  obtain x xs where x: "int_dec i = x # xs" by (cases "int_dec i") (auto simp: int_dec_def split: if_splits)
  have "is_dec x \<or> x = CHR ''-''"
    using x nat_dec_digits by (auto simp: int_dec_def is_dec_def split: if_splits) (metis list.set_intros(1))
  then have nx: "\<not> json_space x" "x \<noteq> CHR ''{''" "x \<noteq> CHR ''}''" "x \<noteq> CHR ''[''" "x \<noteq> CHR '']''" "x \<noteq> CHR '',''" "x \<noteq> CHR '':''"
    "x \<noteq> CHR 0x22" "x \<noteq> CHR ''t''" "x \<noteq> CHR ''f''" "x \<noteq> CHR ''n''"
    by (auto simp: is_dec_def dec_digit_def json_space_def)
  then show ?thesis
    using json_number_dec [OF assms, of i r] by (simp add: json_tok_def x)
qed

lemma scalar_int: "scalar_text (int_dec i) (JNum (int_dec i))"
  by (simp add: scalar_text_def json_tok_int num_end_def is_dec_def dec_digit_def)

definition json_bool :: "bool \<Rightarrow> string" where
  "json_bool b = (if b then ''true'' else ''false'')"

lemma scalar_bool: "scalar_text (json_bool b) (JBool b)"
  by (simp add: scalar_text_def json_bool_def json_tok_def json_space_def json_word_def)

text \<open>The encoder of a struct: its members, in order.\<close>

definition json_member :: "string \<times> string \<Rightarrow> string" where
  "json_member m = json_quote (fst m) @ '':'' @ snd m"

definition json_object :: "(string \<times> string) list \<Rightarrow> string" where
  "json_object ms = ''{'' @ join_with '','' (map json_member ms) @ ''}''"

lemma json_run_step:
  "json_result st q = None \<Longrightarrow> json_tok s = Some (k, r) \<Longrightarrow> json_step st q k = Some (st', q') \<Longrightarrow>
   json_run st q s = json_run st' q' r"
  by (subst json_run.simps) simp

lemma json_run_member:
  assumes "scalar_text v j" and "c = CHR '','' \<or> c = CHR ''}''" and "q = XKey acc \<or> q = XFirstKey \<and> acc = []"
  shows "json_run [] q (json_member (k, v) @ c # r) = json_run [FObj acc (to_valid k)] (XDone j) (c # r)"
proof -
  have "json_run [] q (json_quote k @ CHR '':'' # v @ c # r) = json_run [] (XColon acc (to_valid k)) (CHR '':'' # v @ c # r)"
    using assms(3) by (intro json_run_step [OF _ json_tok_quote]) (auto simp: json_result_def json_step_def)
  also have "\<dots> = json_run [FObj acc (to_valid k)] XValue (v @ c # r)"
    by (rule json_run_step) (auto simp: json_result_def json_step_def json_tok_def json_space_def)
  also have "\<dots> = json_run [FObj acc (to_valid k)] (XDone j) (c # r)"
    using assms(1,2) by (intro json_run_step [of _ _ _ "TScalar j"])
      (auto simp: json_result_def json_step_def start_value_def scalar_text_def)
  finally show ?thesis by (simp add: json_member_def)
qed

lemma json_run_members:
  "list_all2 (\<lambda>m j. scalar_text (snd m) j) ms js \<Longrightarrow> ms \<noteq> [] \<Longrightarrow> q = XKey acc \<or> q = XFirstKey \<and> acc = [] \<Longrightarrow>
   json_run [] q (join_with '','' (map json_member ms) @ ''}'' @ t)
     = Some (JObj (acc @ zip (map (\<lambda>m. to_valid (fst m)) ms) js), t)"
proof (induction ms arbitrary: js q acc)
  case (Cons m ms)
  note IH = Cons.IH and prems = Cons.prems
  obtain k v where m: "m = (k, v)" by fastforce
  obtain j js' where js: "js = j # js'" and v: "scalar_text v j" and rest: "list_all2 (\<lambda>m j. scalar_text (snd m) j) ms js'"
    using prems(1) m by (auto simp: list_all2_Cons1)
  show ?case
  proof (cases ms)
    case Nil
    have "json_run [FObj acc (to_valid k)] (XDone j) (CHR ''}'' # t) = json_run [] (XDone (JObj (acc @ [(to_valid k, j)]))) t"
      by (rule json_run_step) (auto simp: json_result_def json_step_def json_tok_def json_space_def)
    also have "\<dots> = Some (JObj (acc @ [(to_valid k, j)]), t)"
      by (subst json_run.simps) (simp add: json_result_def)
    finally show ?thesis
      using json_run_member [OF v _ prems(3), of "CHR ''}''" k t] Nil rest m js by simp
  next
    case (Cons m' ms')
    have "json_run [FObj acc (to_valid k)] (XDone j) (CHR '','' # s) = json_run [] (XKey (acc @ [(to_valid k, j)])) s" for s
      by (rule json_run_step) (auto simp: json_result_def json_step_def json_tok_def json_space_def)
    then show ?thesis
      using json_run_member [OF v _ prems(3), of "CHR '',''" k] IH [OF rest, of "XKey (acc @ [(to_valid k, j)])"]
      by (simp add: Cons m js)
  qed
qed simp

lemma json_decode_object:
  "list_all2 (\<lambda>m j. scalar_text (snd m) j) ms js \<Longrightarrow> ms \<noteq> [] \<Longrightarrow>
   json_decode (json_object ms @ t) = Some (JObj (zip (map (\<lambda>m. to_valid (fst m)) ms) js), t)"
proof -
  assume a: "list_all2 (\<lambda>m j. scalar_text (snd m) j) ms js" "ms \<noteq> []"
  have "json_run [] XValue (CHR ''{'' # s) = json_run [] XFirstKey s" for s
    by (rule json_run_step)
      (auto simp: json_result_def json_step_def start_value_def json_tok_def json_space_def maxNestingDepth_def)
  then show ?thesis
    using json_run_members [OF a, of XFirstKey "[]" t] by (simp add: json_decode_def json_object_def)
qed

end
