(* ===== verification/Guest_Proto.thy ===== *)
theory Guest_Proto
  imports Go_Json
begin

text \<open>
  Package \<open>internal/guestproto\<close>: the contract between the host and the agent in the guest,
  one JSON value in each direction over a stream. The bytes are those of \<open>encoding/json\<close>
  (theory \<open>Go_Json\<close>): members are matched by name ignoring case, unknown members are ignored,
  null leaves a field as it is, and a member of the wrong type fails the whole read.
\<close>

section \<open>Messages\<close>

definition DefaultPort :: nat where
  "DefaultPort = 52"

definition MaxOutputBytes :: nat where
  "MaxOutputBytes = 2 ^ 20"

record guest_request =
  gq_Code :: string
  gq_Runtime :: string
  gq_TimeoutS :: int
  gq_MemoryBytes :: int
  gq_PIDsMax :: int

record guest_response =
  gp_Stdout :: string
  gp_Stderr :: string
  gp_ExitCode :: int
  gp_TimedOut :: bool

definition zero_greq :: guest_request where
  "zero_greq = \<lparr>gq_Code = [], gq_Runtime = [], gq_TimeoutS = 0, gq_MemoryBytes = 0, gq_PIDsMax = 0\<rparr>"

definition zero_gresp :: guest_response where
  "zero_gresp = \<lparr>gp_Stdout = [], gp_Stderr = [], gp_ExitCode = 0, gp_TimedOut = False\<rparr>"

section \<open>Decoding into a struct\<close>

text \<open>
  A setter takes the value of a member and returns the updated struct, or \<open>None\<close> on a type
  error. \<open>decode_struct\<close> stores every member and fails if any of them failed.
\<close>

definition into_string :: "(string \<Rightarrow> 'a \<Rightarrow> 'a) \<Rightarrow> json \<Rightarrow> 'a \<Rightarrow> 'a option" where
  "into_string f j x = (case j of JStr s \<Rightarrow> Some (f s x) | JNull \<Rightarrow> Some x | _ \<Rightarrow> None)"

definition into_int :: "(int \<Rightarrow> 'a \<Rightarrow> 'a) \<Rightarrow> json \<Rightarrow> 'a \<Rightarrow> 'a option" where
  "into_int f j x = (case j of
       JNum l \<Rightarrow> map_option (\<lambda>i. f i x) (atoi l)
     | JNull \<Rightarrow> Some x
     | _ \<Rightarrow> None)"

definition into_bool :: "(bool \<Rightarrow> 'a \<Rightarrow> 'a) \<Rightarrow> json \<Rightarrow> 'a \<Rightarrow> 'a option" where
  "into_bool f j x = (case j of JBool b \<Rightarrow> Some (f b x) | JNull \<Rightarrow> Some x | _ \<Rightarrow> None)"

type_synonym 'a setters = "(string \<times> (json \<Rightarrow> 'a \<Rightarrow> 'a option)) list"

definition find_setter :: "'a setters \<Rightarrow> string \<Rightarrow> (json \<Rightarrow> 'a \<Rightarrow> 'a option) option" where
  "find_setter fs k = map_option snd (find (\<lambda>p. equal_fold_ascii k (fst p)) fs)"

fun decode_members :: "'a setters \<Rightarrow> (string \<times> json) list \<Rightarrow> 'a \<Rightarrow> 'a option" where
  "decode_members fs [] x = Some x"
| "decode_members fs ((k, j) # ms) x = (case find_setter fs k of
       None \<Rightarrow> decode_members fs ms x
     | Some f \<Rightarrow> (case f j x of
         None \<Rightarrow> None
       | Some y \<Rightarrow> decode_members fs ms y))"

definition decode_struct :: "'a setters \<Rightarrow> 'a \<Rightarrow> json \<Rightarrow> 'a option" where
  "decode_struct fs x j = (case j of
       JObj ms \<Rightarrow> decode_members fs ms x
     | JNull \<Rightarrow> Some x
     | _ \<Rightarrow> None)"

definition request_setters :: "guest_request setters" where
  "request_setters =
     [(''code'', into_string (\<lambda>v q. q\<lparr>gq_Code := v\<rparr>)),
      (''runtime'', into_string (\<lambda>v q. q\<lparr>gq_Runtime := v\<rparr>)),
      (''timeout_s'', into_int (\<lambda>v q. q\<lparr>gq_TimeoutS := v\<rparr>)),
      (''memory_bytes'', into_int (\<lambda>v q. q\<lparr>gq_MemoryBytes := v\<rparr>)),
      (''pids_max'', into_int (\<lambda>v q. q\<lparr>gq_PIDsMax := v\<rparr>))]"

definition response_setters :: "guest_response setters" where
  "response_setters =
     [(''stdout'', into_string (\<lambda>v q. q\<lparr>gp_Stdout := v\<rparr>)),
      (''stderr'', into_string (\<lambda>v q. q\<lparr>gp_Stderr := v\<rparr>)),
      (''exit_code'', into_int (\<lambda>v q. q\<lparr>gp_ExitCode := v\<rparr>)),
      (''timed_out'', into_bool (\<lambda>v q. q\<lparr>gp_TimedOut := v\<rparr>))]"

section \<open>Reading and writing\<close>

definition omitempty :: "string \<Rightarrow> int \<Rightarrow> (string \<times> string) list" where
  "omitempty k i = (if i = 0 then [] else [(k, int_dec i)])"

definition request_members :: "guest_request \<Rightarrow> (string \<times> string) list" where
  "request_members q =
     [(''code'', json_quote (gq_Code q)), (''runtime'', json_quote (gq_Runtime q)),
      (''timeout_s'', int_dec (gq_TimeoutS q))]
     @ omitempty ''memory_bytes'' (gq_MemoryBytes q) @ omitempty ''pids_max'' (gq_PIDsMax q)"

definition response_members :: "guest_response \<Rightarrow> (string \<times> string) list" where
  "response_members p =
     [(''stdout'', json_quote (gp_Stdout p)), (''stderr'', json_quote (gp_Stderr p)),
      (''exit_code'', int_dec (gp_ExitCode p)), (''timed_out'', json_bool (gp_TimedOut p))]"

text \<open>The writer \<open>w\<close> either takes all bytes (\<open>None\<close>) or fails.\<close>

definition WriteRequest :: "gerr option \<Rightarrow> guest_request \<Rightarrow> string res" where
  "WriteRequest w q = (case w of
       Some e \<Rightarrow> Inl (Wrapf ''guestproto write request: %w'' [] e)
     | None \<Rightarrow> Inr (json_object (request_members q) @ [CHR 0x0A]))"

definition WriteResponse :: "gerr option \<Rightarrow> guest_response \<Rightarrow> string res" where
  "WriteResponse w p = (case w of
       Some e \<Rightarrow> Inl (Wrapf ''guestproto write response: %w'' [] e)
     | None \<Rightarrow> Inr (json_object (response_members p) @ [CHR 0x0A]))"

text \<open>A reader is the bytes it delivers before it fails or ends with \<open>e\<close>.\<close>

definition read_struct :: "string \<Rightarrow> 'a setters \<Rightarrow> 'a \<Rightarrow> gerr \<Rightarrow> string \<Rightarrow> 'a res" where
  "read_struct fmt fs z e s = (case json_decode s of
       None \<Rightarrow> Inl (Wrapf fmt [] e)
     | Some (j, _) \<Rightarrow> (case decode_struct fs z j of
         None \<Rightarrow> Inl (Wrapf fmt [] (Errorf ''json: cannot unmarshal'' []))
       | Some x \<Rightarrow> Inr x))"

definition ReadRequest :: "gerr \<Rightarrow> string \<Rightarrow> guest_request res" where
  "ReadRequest e s = read_struct ''guestproto read request: %w'' request_setters zero_greq e s"

definition ReadResponse :: "gerr \<Rightarrow> string \<Rightarrow> guest_response res" where
  "ReadResponse e s = read_struct ''guestproto read response: %w'' response_setters zero_gresp e s"

section \<open>What is written is what is read\<close>

definition fits64 :: "int \<Rightarrow> bool" where
  "fits64 i = (- (2 ^ 63) \<le> i \<and> i < 2 ^ 63)"

lemma atoi_int_dec: "fits64 i \<Longrightarrow> atoi (int_dec i) = Some i"
proof (cases "i < 0")
  case True
  assume "fits64 i"
  with True show ?thesis by (simp add: atoi_def int_dec_def fits64_def Let_def)
next
  case False
  assume "fits64 i"
  with False show ?thesis using atoi_nat_dec [of "nat i"] by (simp add: int_dec_def fits64_def)
qed

lemma equal_fold_self: "\<forall>c \<in> set s. byte c < 0x80 \<Longrightarrow> equal_fold_ascii s t \<longleftrightarrow> list_all2 fold_eq (map byte s) (map byte t)"
  by (simp add: equal_fold_ascii_def runes_ascii)

lemma field_names:
  "list_all (\<lambda>k. to_valid k = k) [''code'', ''runtime'', ''timeout_s'', ''memory_bytes'', ''pids_max'', ''stdout'', ''stderr'', ''exit_code'', ''timed_out'']"
  by (simp add: to_valid_id valid_utf8_ascii del: valid_utf8.simps)

lemma request_setter:
  "find_setter request_setters ''code'' = Some (into_string (\<lambda>v q. q\<lparr>gq_Code := v\<rparr>))"
  "find_setter request_setters ''runtime'' = Some (into_string (\<lambda>v q. q\<lparr>gq_Runtime := v\<rparr>))"
  "find_setter request_setters ''timeout_s'' = Some (into_int (\<lambda>v q. q\<lparr>gq_TimeoutS := v\<rparr>))"
  "find_setter request_setters ''memory_bytes'' = Some (into_int (\<lambda>v q. q\<lparr>gq_MemoryBytes := v\<rparr>))"
  "find_setter request_setters ''pids_max'' = Some (into_int (\<lambda>v q. q\<lparr>gq_PIDsMax := v\<rparr>))"
  by (simp_all add: find_setter_def request_setters_def equal_fold_self fold_eq_def)

lemma response_setter:
  "find_setter response_setters ''stdout'' = Some (into_string (\<lambda>v q. q\<lparr>gp_Stdout := v\<rparr>))"
  "find_setter response_setters ''stderr'' = Some (into_string (\<lambda>v q. q\<lparr>gp_Stderr := v\<rparr>))"
  "find_setter response_setters ''exit_code'' = Some (into_int (\<lambda>v q. q\<lparr>gp_ExitCode := v\<rparr>))"
  "find_setter response_setters ''timed_out'' = Some (into_bool (\<lambda>v q. q\<lparr>gp_TimedOut := v\<rparr>))"
  by (simp_all add: find_setter_def response_setters_def equal_fold_self fold_eq_def)

text \<open>What a request and a response become on the other side: the strings made valid UTF-8.\<close>

definition received_request :: "guest_request \<Rightarrow> guest_request" where
  "received_request q = q\<lparr>gq_Code := to_valid (gq_Code q), gq_Runtime := to_valid (gq_Runtime q)\<rparr>"

definition received_response :: "guest_response \<Rightarrow> guest_response" where
  "received_response p = p\<lparr>gp_Stdout := to_valid (gp_Stdout p), gp_Stderr := to_valid (gp_Stderr p)\<rparr>"

definition request_json :: "guest_request \<Rightarrow> json list" where
  "request_json q =
     [JStr (to_valid (gq_Code q)), JStr (to_valid (gq_Runtime q)), JNum (int_dec (gq_TimeoutS q))]
     @ map (\<lambda>m. JNum (snd m)) (omitempty ''memory_bytes'' (gq_MemoryBytes q) @ omitempty ''pids_max'' (gq_PIDsMax q))"

lemma decode_request:
  "json_decode (json_object (request_members q) @ t)
     = Some (JObj (zip (map (\<lambda>m. to_valid (fst m)) (request_members q)) (request_json q)), t)"
  by (rule json_decode_object)
    (auto simp: request_members_def request_json_def omitempty_def scalar_string scalar_int)

lemma decode_response:
  "json_decode (json_object (response_members p) @ t) = Some (JObj (zip (map (\<lambda>m. to_valid (fst m)) (response_members p))
     [JStr (to_valid (gp_Stdout p)), JStr (to_valid (gp_Stderr p)), JNum (int_dec (gp_ExitCode p)), JBool (gp_TimedOut p)]), t)"
  by (rule json_decode_object) (auto simp: response_members_def scalar_string scalar_int scalar_bool)

lemma request_received:
  assumes "fits64 (gq_TimeoutS q)" and "fits64 (gq_MemoryBytes q)" and "fits64 (gq_PIDsMax q)"
    and "WriteRequest None q = Inr out"
  shows "ReadRequest e (out @ t) = Inr (received_request q)"
proof -
  have out: "out @ t = json_object (request_members q) @ (CHR 0x0A # t)"
    using assms(4) by (auto simp: WriteRequest_def)
  have n: "to_valid ''code'' = ''code''" "to_valid ''runtime'' = ''runtime''" "to_valid ''timeout_s'' = ''timeout_s''"
    "to_valid ''memory_bytes'' = ''memory_bytes''" "to_valid ''pids_max'' = ''pids_max''"
    using field_names by simp_all
  show "ReadRequest e (out @ t) = Inr (received_request q)"
    unfolding ReadRequest_def read_struct_def out decode_request
    using assms(1-3)
    by (simp add: decode_struct_def request_members_def request_json_def n omitempty_def request_setter
        into_string_def into_int_def atoi_int_dec zero_greq_def received_request_def)
qed

text \<open>
  What the host writes is what the agent reads, whatever follows on the stream: code with
  any quotes, control characters and newlines arrives byte for byte when it is UTF-8 (bytes
  that are not become U+FFFD), and so do the numbers.
\<close>

theorem request_roundtrip:
  assumes "fits64 (gq_TimeoutS q)" and "fits64 (gq_MemoryBytes q)" and "fits64 (gq_PIDsMax q)"
    and "WriteRequest None q = Inr out"
  shows "ReadRequest e (out @ t) = Inr (received_request q)
    \<and> (valid_utf8 (gq_Code q) \<and> valid_utf8 (gq_Runtime q) \<longrightarrow> received_request q = q)"
  using request_received [OF assms] by (simp add: received_request_def to_valid_id)

definition sample_greq :: guest_request where
  "sample_greq = \<lparr>gq_Code = ''print('' @ [CHR 0x22] @ ''<a>'' @ [CHR 0x22, CHR '')'', CHR 0x0A], gq_Runtime = ''python'',
     gq_TimeoutS = 30, gq_MemoryBytes = 134217728, gq_PIDsMax = 0\<rparr>"

theorem request_roundtrip_witness:
  "\<exists>out. WriteRequest None sample_greq = Inr out \<and> ReadRequest (Sentinel ''io.EOF'') (out @ ''x'') = Inr sample_greq"
proof -
  obtain out where w: "WriteRequest None sample_greq = Inr out" by (auto simp: WriteRequest_def)
  have f: "fits64 (gq_TimeoutS sample_greq)" "fits64 (gq_MemoryBytes sample_greq)" "fits64 (gq_PIDsMax sample_greq)"
    by (simp_all add: sample_greq_def fits64_def)
  have "valid_utf8 (gq_Code sample_greq)" "valid_utf8 (gq_Runtime sample_greq)"
    by (rule valid_utf8_ascii, simp add: sample_greq_def)+
  with request_roundtrip [OF f w, of "Sentinel ''io.EOF''" "''x''"] w show ?thesis by simp
qed

lemma response_roundtrip:
  assumes "fits64 (gp_ExitCode p)" and "WriteResponse None p = Inr out"
  shows "ReadResponse e (out @ t) = Inr (received_response p)"
proof -
  have out: "out @ t = json_object (response_members p) @ (CHR 0x0A # t)"
    using assms(2) by (auto simp: WriteResponse_def)
  have n: "to_valid ''stdout'' = ''stdout''" "to_valid ''stderr'' = ''stderr''" "to_valid ''exit_code'' = ''exit_code''"
    "to_valid ''timed_out'' = ''timed_out''"
    using field_names by simp_all
  show ?thesis
    unfolding ReadResponse_def read_struct_def out decode_response
    using assms(1)
    by (simp add: decode_struct_def response_members_def n response_setter
        into_string_def into_int_def into_bool_def atoi_int_dec zero_gresp_def received_response_def)
qed

end
