(* ===== verification/Go_Path.thy ===== *)
theory Go_Path
  imports Go_Strings
begin

text \<open>
  The lexical functions of Go's \<open>path/filepath\<close> on Unix: \<open>Clean\<close>, \<open>Join\<close>, \<open>Base\<close>,
  \<open>Dir\<close> and \<open>IsAbs\<close>. A path is read as a rooted flag and its components; \<open>Clean\<close> drops empty
  and dot components and resolves dot-dot against the component before it. The lemmas say
  how a path below a directory is spelled, which the session store and the jail rely on.
\<close>

section \<open>Definitions\<close>

definition is_abs :: "string \<Rightarrow> bool" where
  "is_abs s = (s \<noteq> [] \<and> hd s = CHR ''/'')"

fun clean_comps :: "bool \<Rightarrow> string list \<Rightarrow> string list \<Rightarrow> string list" where
  "clean_comps rooted acc [] = rev acc"
| "clean_comps rooted acc (c # cs) =
     (if c = [] \<or> c = ''.'' then clean_comps rooted acc cs
      else if c = ''..'' then
        (if acc \<noteq> [] \<and> hd acc \<noteq> ''..'' then clean_comps rooted (tl acc) cs
         else if rooted then clean_comps rooted acc cs
         else clean_comps rooted (c # acc) cs)
      else clean_comps rooted (c # acc) cs)"

definition path_parts :: "string \<Rightarrow> bool \<times> string list" where
  "path_parts s = (is_abs s, clean_comps (is_abs s) [] (split_on CHR ''/'' s))"

fun render_path :: "bool \<times> string list \<Rightarrow> string" where
  "render_path (rooted, cs) =
     (if rooted then CHR ''/'' # join_with ''/'' cs
      else if cs = [] then ''.'' else join_with ''/'' cs)"

definition path_clean :: "string \<Rightarrow> string" where
  "path_clean s = render_path (path_parts s)"

definition path_join :: "string list \<Rightarrow> string" where
  "path_join es = (case dropWhile (\<lambda>e. e = []) es of
       [] \<Rightarrow> []
     | es' \<Rightarrow> path_clean (join_with ''/'' es'))"

definition path_base :: "string \<Rightarrow> string" where
  "path_base s =
     (if s = [] then ''.''
      else let b = rev (takeWhile (\<lambda>c. c \<noteq> CHR ''/'') (dropWhile (\<lambda>c. c = CHR ''/'') (rev s)))
           in if b = [] then ''/'' else b)"

definition path_dir :: "string \<Rightarrow> string" where
  "path_dir s = path_clean (rev (dropWhile (\<lambda>c. c \<noteq> CHR ''/'') (rev s)))"

section \<open>Names and normal paths\<close>

text \<open>A name is one proper path component.\<close>

definition path_name :: "string \<Rightarrow> bool" where
  "path_name n = (n \<noteq> [] \<and> n \<noteq> ''.'' \<and> n \<noteq> ''..'' \<and> CHR ''/'' \<notin> set n)"

text \<open>Normal components: names, after a run of dot-dot in an unrooted path.\<close>

definition normal_parts :: "bool \<times> string list \<Rightarrow> bool" where
  "normal_parts p = (\<exists>k ns. snd p = replicate k ''..'' @ ns \<and> list_all path_name ns
     \<and> (fst p \<longrightarrow> k = 0))"

lemma split_on_append_gen: "split_on d (x @ d # s) = split_on d x @ split_on d s"
proof (induction x)
  case Nil
  then show ?case by simp
next
  case (Cons c x)
  then show ?case by (cases "split_on d x") auto
qed

lemma split_on_join:
  "cs \<noteq> [] \<Longrightarrow> \<forall>c \<in> set cs. d \<notin> set c \<Longrightarrow> split_on d (join_with [d] cs) = cs"
proof (induction cs rule: list_nonempty_induct)
  case (single x)
  then show ?case by (simp add: split_on_single)
next
  case (cons x xs)
  then show ?case by (cases xs) (simp_all add: split_on_append)
qed

lemma clean_comps_snoc_name:
  "path_name n \<Longrightarrow> clean_comps r acc (cs @ [n]) = clean_comps r acc cs @ [n]"
  by (induction r acc cs rule: clean_comps.induct) (auto simp: path_name_def)

lemma clean_comps_names:
  "list_all path_name ns \<Longrightarrow> clean_comps r acc ns = rev acc @ ns"
  by (induction ns arbitrary: acc) (auto simp: path_name_def)

lemma clean_comps_dots:
  "clean_comps False (replicate j ''..'') (replicate k ''..'' @ cs)
     = clean_comps False (replicate (k + j) ''..'') cs"
proof (induction k arbitrary: j)
  case 0
  then show ?case by simp
next
  case (Suc k)
  have "clean_comps False (replicate j ''..'') (replicate (Suc k) ''..'' @ cs)
      = clean_comps False (replicate (Suc j) ''..'') (replicate k ''..'' @ cs)"
    by (cases j) simp_all
  also have "\<dots> = clean_comps False (replicate (k + Suc j) ''..'') cs"
    by (rule Suc)
  finally show ?case by simp
qed

lemma clean_comps_normal:
  "normal_parts (r, cs) \<Longrightarrow> clean_comps r [] cs = cs"
proof -
  assume "normal_parts (r, cs)"
  then obtain k ns where cs: "cs = replicate k ''..'' @ ns" and ns: "list_all path_name ns"
    and r: "r \<longrightarrow> k = 0"
    by (auto simp: normal_parts_def)
  show ?thesis
  proof (cases r)
    case True
    with cs ns r show ?thesis by (simp add: clean_comps_names)
  next
    case False
    with cs ns show ?thesis
      using clean_comps_dots [of 0 k ns] by (simp add: clean_comps_names)
  qed
qed

text \<open>The stack of \<open>clean_comps\<close> stays normal, so a cleaned path is normal.\<close>

definition normal_stack :: "bool \<Rightarrow> string list \<Rightarrow> bool" where
  "normal_stack r acc = (\<exists>k ns. acc = rev ns @ replicate k ''..'' \<and> list_all path_name ns
     \<and> (r \<longrightarrow> k = 0))"

lemma normal_stack_push: "normal_stack r acc \<Longrightarrow> path_name c \<Longrightarrow> normal_stack r (c # acc)"
proof -
  assume "normal_stack r acc" and c: "path_name c"
  then obtain k ns where "acc = rev ns @ replicate k ''..''" "list_all path_name ns" "r \<longrightarrow> k = 0"
    by (auto simp: normal_stack_def)
  with c have "c # acc = rev (ns @ [c]) @ replicate k ''..''" and "list_all path_name (ns @ [c])"
    by simp_all
  with \<open>r \<longrightarrow> k = 0\<close> show ?thesis unfolding normal_stack_def by blast
qed

lemma normal_stack_pop: "normal_stack r acc \<Longrightarrow> acc \<noteq> [] \<Longrightarrow> hd acc \<noteq> ''..'' \<Longrightarrow> normal_stack r (tl acc)"
proof -
  assume "normal_stack r acc" and ne: "acc \<noteq> []" "hd acc \<noteq> ''..''"
  then obtain k ns where acc: "acc = rev ns @ replicate k ''..''" and ns: "list_all path_name ns"
    and k: "r \<longrightarrow> k = 0"
    by (auto simp: normal_stack_def)
  show ?thesis
  proof (cases ns rule: rev_cases)
    case Nil
    with acc ne show ?thesis by (cases k) auto
  next
    case (snoc ms m)
    with acc ns k show ?thesis unfolding normal_stack_def
      by (intro exI [of _ k] exI [of _ ms]) simp
  qed
qed

lemma normal_stack_dots:
  "normal_stack False acc \<Longrightarrow> acc = [] \<or> hd acc = ''..'' \<Longrightarrow> normal_stack False (''..'' # acc)"
proof -
  assume "normal_stack False acc" and top: "acc = [] \<or> hd acc = ''..''"
  then obtain k ns where acc: "acc = rev ns @ replicate k ''..''" and ns: "list_all path_name ns"
    by (auto simp: normal_stack_def)
  have "ns = []"
    using acc ns top by (cases ns rule: rev_cases) (auto simp: path_name_def)
  with acc show ?thesis unfolding normal_stack_def
    by (intro exI [of _ "Suc k"] exI [of _ "[]"]) simp
qed

lemma clean_comps_normal_result:
  "normal_stack r acc \<Longrightarrow> \<forall>c \<in> set cs. CHR ''/'' \<notin> set c \<Longrightarrow> normal_parts (r, clean_comps r acc cs)"
proof (induction r acc cs rule: clean_comps.induct)
  case (1 rooted acc)
  then obtain k ns where "acc = rev ns @ replicate k ''..''" "list_all path_name ns" "rooted \<longrightarrow> k = 0"
    by (auto simp: normal_stack_def)
  then show ?case by (auto simp: normal_parts_def)
next
  case (2 rooted acc c cs)
  have name: "path_name c" if "c \<noteq> []" "c \<noteq> ''.''" "c \<noteq> ''..''"
    using that "2.prems"(2) by (simp add: path_name_def)
  consider "c = [] \<or> c = ''.''" | "c = ''..''" "acc \<noteq> []" "hd acc \<noteq> ''..''"
    | "c = ''..''" "acc = [] \<or> hd acc = ''..''" rooted
    | "c = ''..''" "acc = [] \<or> hd acc = ''..''" "\<not> rooted"
    | "c \<noteq> []" "c \<noteq> ''.''" "c \<noteq> ''..''"
    by blast
  then show ?case
  proof cases
    case 1
    with 2 show ?thesis by auto
  next
    case 2
    with "2.prems" "2.IH"(2) normal_stack_pop show ?thesis by simp
  next
    case 3
    with "2.prems" "2.IH"(3) show ?thesis by auto
  next
    case 4
    with "2.prems" "2.IH"(4) normal_stack_dots show ?thesis by auto
  next
    case 5
    with "2.prems" "2.IH"(5) normal_stack_push name show ?thesis by simp
  qed
qed

lemma path_parts_normal: "normal_parts (path_parts s)"
proof -
  have "normal_stack r []" for r
    unfolding normal_stack_def by (intro exI [of _ 0] exI [of _ "[]"]) simp
  then show ?thesis
    unfolding path_parts_def
    by (intro clean_comps_normal_result) (auto dest: split_on_no_sep)
qed

section \<open>Paths below a directory\<close>

lemma normal_parts_no_sep: "normal_parts p \<Longrightarrow> c \<in> set (snd p) \<Longrightarrow> c \<noteq> [] \<and> CHR ''/'' \<notin> set c"
proof -
  assume "normal_parts p" and c: "c \<in> set (snd p)"
  then obtain k ns where p: "snd p = replicate k ''..'' @ ns" and ns: "list_all path_name ns"
    unfolding normal_parts_def by blast
  have "c \<in> set (replicate k ''..'') \<or> c \<in> set ns"
    using c unfolding p by simp
  then consider "c = ''..''" | "path_name c"
    using ns by (auto simp: list_all_iff)
  then show ?thesis by cases (simp_all add: path_name_def)
qed

lemma is_abs_join: "cs \<noteq> [] \<Longrightarrow> hd cs \<noteq> [] \<Longrightarrow> is_abs (join_with ''/'' cs) = is_abs (hd cs)"
  by (induction "''/''" cs rule: join_with.induct) (auto simp: is_abs_def)

lemma path_parts_render: "normal_parts p \<Longrightarrow> path_parts (render_path p) = p"
proof -
  assume n: "normal_parts p"
  obtain r cs where p: "p = (r, cs)" by fastforce
  have nosep: "\<forall>c \<in> set cs. CHR ''/'' \<notin> set c" and ne: "\<forall>c \<in> set cs. c \<noteq> []"
    using normal_parts_no_sep [OF n] p by auto
  have clean: "clean_comps r [] cs = cs"
    using n p by (simp add: clean_comps_normal)
  show ?thesis
  proof (cases "cs = []")
    case True
    with p show ?thesis by (cases r) (simp_all add: path_parts_def is_abs_def)
  next
    case False
    have split: "split_on CHR ''/'' (join_with ''/'' cs) = cs"
      using False nosep by (rule split_on_join)
    show ?thesis
    proof (cases r)
      case True
      with p split clean show ?thesis by (simp add: path_parts_def is_abs_def)
    next
      case r: False
      have "hd cs \<noteq> []" and "CHR ''/'' \<notin> set (hd cs)"
        using ne nosep False by auto
      then have "\<not> is_abs (join_with ''/'' cs)"
        using False by (auto simp: is_abs_join) (auto simp: is_abs_def dest: hd_in_set)
      with p r False split clean show ?thesis by (simp add: path_parts_def)
    qed
  qed
qed

lemma path_parts_below:
  "s \<noteq> [] \<Longrightarrow> path_name n \<Longrightarrow> path_parts (s @ CHR ''/'' # n) = (fst (path_parts s), snd (path_parts s) @ [n])"
proof -
  assume s: "s \<noteq> []" and n: "path_name n"
  have "split_on CHR ''/'' n = [n]"
    using n by (simp add: path_name_def split_on_single)
  moreover have "is_abs (s @ CHR ''/'' # n) = is_abs s"
    using s by (simp add: is_abs_def)
  ultimately show ?thesis
    using n by (simp add: path_parts_def split_on_append_gen clean_comps_snoc_name)
qed

lemma path_join_below: "s \<noteq> [] \<Longrightarrow> path_name n \<Longrightarrow> path_join [s, n] = path_clean (s @ CHR ''/'' # n)"
  by (simp add: path_join_def)

lemma join_with_snoc: "cs \<noteq> [] \<Longrightarrow> join_with sep (cs @ [n]) = join_with sep cs @ sep @ n"
proof (induction cs rule: list_nonempty_induct)
  case (single x)
  then show ?case by simp
next
  case (cons x xs)
  then show ?case by (cases xs) simp_all
qed

text \<open>The last component of \<open>Join(root, name)\<close> is the name.\<close>

lemma path_base_after_sep: "CHR ''/'' \<notin> set n \<Longrightarrow> n \<noteq> [] \<Longrightarrow> path_base (s @ CHR ''/'' # n) = n"
proof -
  assume n: "CHR ''/'' \<notin> set n" "n \<noteq> []"
  then have "dropWhile (\<lambda>c. c = CHR ''/'') (rev n @ CHR ''/'' # rev s) = rev n @ CHR ''/'' # rev s"
    by (cases "rev n") auto
  moreover have "takeWhile (\<lambda>c. c \<noteq> CHR ''/'') (rev n @ CHR ''/'' # rev s) = rev n"
    using n by (intro takeWhile_append_stop) auto
  ultimately show ?thesis using n by (simp add: path_base_def Let_def)
qed

lemma path_base_name: "path_name n \<Longrightarrow> path_base n = n"
proof -
  assume n: "path_name n"
  then have d: "dropWhile (\<lambda>c. c = CHR ''/'') (rev n) = rev n"
    by (cases "rev n") (auto simp: path_name_def)
  have "takeWhile (\<lambda>c. c \<noteq> CHR ''/'') (rev n) = rev n"
    unfolding takeWhile_eq_all_conv using n by (auto simp: path_name_def)
  with d n show ?thesis by (simp only: path_base_def path_name_def Let_def) simp
qed

lemma path_base_join:
  assumes "s \<noteq> []" and "path_name n"
  shows "path_base (path_join [s, n]) = n"
proof -
  have n: "CHR ''/'' \<notin> set n" "n \<noteq> []" using assms by (simp_all add: path_name_def)
  obtain r cs where p: "path_parts s = (r, cs)" by fastforce
  have j: "path_join [s, n] = render_path (r, cs @ [n])"
    using assms p by (simp add: path_join_below path_clean_def path_parts_below)
  show ?thesis
  proof (cases "cs = []")
    case True
    have "path_base (CHR ''/'' # n) = n"
      using path_base_after_sep [OF n, of "[]"] by simp
    with True j assms(2) show ?thesis by (simp add: path_base_name)
  next
    case False
    have "path_base (join_with ''/'' cs @ CHR ''/'' # n) = n"
      and "path_base ((CHR ''/'' # join_with ''/'' cs) @ CHR ''/'' # n) = n"
      using path_base_after_sep [OF n] by blast+
    with False j show ?thesis by (simp add: join_with_snoc)
  qed
qed

lemma path_join_inject:
  assumes "s \<noteq> []" and "path_name m" and "path_name n"
  shows "path_join [s, m] = path_join [s, n] \<longleftrightarrow> m = n"
  using assms path_base_join by metis

text \<open>Two levels below a directory: the inner join only appends.\<close>

lemma path_join_nonempty: "s \<noteq> [] \<Longrightarrow> path_name n \<Longrightarrow> path_join [s, n] \<noteq> []"
proof -
  assume a: "s \<noteq> []" "path_name n"
  then have "path_base (path_join [s, n]) = n" by (rule path_base_join)
  with a show ?thesis by (auto simp: path_base_def path_name_def)
qed

lemma path_join_two:
  assumes "s \<noteq> []" and "path_name n" and "path_name m"
  shows "path_join [path_join [s, n], m] = path_join [s, n] @ CHR ''/'' # m"
proof -
  obtain r cs where p: "path_parts s = (r, cs)" by fastforce
  let ?d = "render_path (r, cs @ [n])"
  have d: "path_join [s, n] = ?d"
    using assms p by (simp add: path_join_below path_clean_def path_parts_below)
  have norm: "normal_parts (r, cs @ [n])"
  proof -
    have "path_parts (s @ CHR ''/'' # n) = (r, cs @ [n])"
      using assms p by (simp add: path_parts_below)
    then show ?thesis using path_parts_normal by metis
  qed
  have "?d \<noteq> []" using path_join_nonempty [OF assms(1,2)] d by simp
  then have "path_join [?d, m] = render_path (r, (cs @ [n]) @ [m])"
    using assms(3) path_parts_render [OF norm]
    by (simp add: path_join_below path_clean_def path_parts_below del: render_path.simps)
  also have "\<dots> = ?d @ CHR ''/'' # m"
    using join_with_snoc [of "cs @ [n]" "''/''" m] by simp
  finally show ?thesis using d by simp
qed

text \<open>Files of different directories below the same root differ.\<close>

lemma path_join_two_inject:
  assumes "s \<noteq> []" and "path_name n" "path_name n'" and "path_name m" "path_name m'"
  shows "path_join [path_join [s, n], m] = path_join [path_join [s, n'], m'] \<longleftrightarrow> n = n' \<and> m = m'"
proof
  assume eq: "path_join [path_join [s, n], m] = path_join [path_join [s, n'], m']"
  then have "path_base (path_join [path_join [s, n], m]) = path_base (path_join [path_join [s, n'], m'])"
    by simp
  then have m: "m = m'"
    using assms path_base_join path_join_nonempty by metis
  from eq have "path_join [s, n] @ CHR ''/'' # m = path_join [s, n'] @ CHR ''/'' # m'"
    using assms by (simp add: path_join_two)
  with m have "path_join [s, n] = path_join [s, n']" by simp
  with m show "n = n' \<and> m = m'"
    using assms by (simp add: path_join_inject)
qed simp

end
