(* ===== verification/Go_FS.thy ===== *)
theory Go_FS
  imports Go_Path
begin

text \<open>
  The operations of package \<open>os\<close> on files that the program uses, on a tree of nodes keyed by
  clean path. Every operation may fail for a reason of its own: the \<open>n\<close>-th operation consults
  \<open>fs_fault n\<close>, which gives the error and, for a write, how many bytes reached the file first; \<open>fs_gone n\<close>
  tells which paths a failing \<open>RemoveAll\<close> had removed before it failed.
  Symbolic links, permissions and ownership are not modelled.
\<close>

section \<open>The tree\<close>

datatype node = Dir | File string

record fs =
  fs_tree :: "string \<Rightarrow> node option"
  fs_fault :: "nat \<Rightarrow> (gerr \<times> nat) option"
  fs_count :: nat
  fs_gone :: "nat \<Rightarrow> string \<Rightarrow> bool"

abbreviation ErrNotExist :: gerr where
  "ErrNotExist \<equiv> Sentinel ''fs.ErrNotExist''"

abbreviation ErrExist :: gerr where
  "ErrExist \<equiv> Sentinel ''fs.ErrExist''"

definition IsNotExist :: "gerr \<Rightarrow> bool" where
  "IsNotExist e = errors_is e ''fs.ErrNotExist''"

definition IsExist :: "gerr \<Rightarrow> bool" where
  "IsExist e = errors_is e ''fs.ErrExist''"

definition tick :: "fs \<Rightarrow> fs" where
  "tick s = s\<lparr>fs_count := Suc (fs_count s)\<rparr>"

definition fault_now :: "fs \<Rightarrow> (gerr \<times> nat) option" where
  "fault_now s = fs_fault s (fs_count s)"

definition put :: "string \<Rightarrow> node \<Rightarrow> fs \<Rightarrow> fs" where
  "put p n s = s\<lparr>fs_tree := (fs_tree s)(p \<mapsto> n)\<rparr>"

text \<open>A path and everything below it.\<close>

definition below :: "string \<Rightarrow> string \<Rightarrow> bool" where
  "below p q = (q = p \<or> prefix (p @ ''/'') q)"

definition ancestors :: "string \<Rightarrow> string list" where
  "ancestors p = (case path_parts p of (r, cs) \<Rightarrow> map (\<lambda>k. render_path (r, take k cs)) [0..<Suc (length cs)])"

section \<open>Operations\<close>

definition os_Stat :: "string \<Rightarrow> fs \<Rightarrow> fs \<times> node res" where
  "os_Stat p s = (tick s, case fault_now s of
       Some (e, _) \<Rightarrow> Inl e
     | None \<Rightarrow> (case fs_tree s (path_clean p) of None \<Rightarrow> Inl ErrNotExist | Some n \<Rightarrow> Inr n))"

definition os_ReadFile :: "string \<Rightarrow> fs \<Rightarrow> fs \<times> string res" where
  "os_ReadFile p s = (tick s, case fault_now s of
       Some (e, _) \<Rightarrow> Inl e
     | None \<Rightarrow> (case fs_tree s (path_clean p) of
           None \<Rightarrow> Inl ErrNotExist
         | Some Dir \<Rightarrow> Inl (Errorf ''is a directory'' [])
         | Some (File d) \<Rightarrow> Inr d))"

definition parent_ok :: "string \<Rightarrow> fs \<Rightarrow> bool" where
  "parent_ok p s = (fs_tree s (path_dir (path_clean p)) = Some Dir)"

definition os_WriteFile :: "string \<Rightarrow> string \<Rightarrow> fs \<Rightarrow> fs \<times> gerr option" where
  "os_WriteFile p d s =
     (if \<not> parent_ok p s then (tick s, Some ErrNotExist)
      else if fs_tree s (path_clean p) = Some Dir then (tick s, Some (Errorf ''is a directory'' []))
      else case fault_now s of
          Some (e, n) \<Rightarrow> (put (path_clean p) (File (take n d)) (tick s), Some e)
        | None \<Rightarrow> (put (path_clean p) (File d) (tick s), None))"

definition os_MkdirAll :: "string \<Rightarrow> fs \<Rightarrow> fs \<times> gerr option" where
  "os_MkdirAll p s = (case fault_now s of
       Some (e, _) \<Rightarrow> (tick s, Some e)
     | None \<Rightarrow>
         if list_ex (\<lambda>q. fs_tree s q \<noteq> None \<and> fs_tree s q \<noteq> Some Dir) (ancestors p)
         then (tick s, Some (Errorf ''not a directory'' []))
         else ((tick s)\<lparr>fs_tree := (\<lambda>q. if q \<in> set (ancestors p) then Some Dir else fs_tree s q)\<rparr>, None))"

definition os_Mkdir :: "string \<Rightarrow> fs \<Rightarrow> fs \<times> gerr option" where
  "os_Mkdir p s = (case fault_now s of
       Some (e, _) \<Rightarrow> (tick s, Some e)
     | None \<Rightarrow>
         if fs_tree s (path_clean p) \<noteq> None then (tick s, Some ErrExist)
         else if \<not> parent_ok p s then (tick s, Some ErrNotExist)
         else (put (path_clean p) Dir (tick s), None))"

text \<open>\<open>os.Rename\<close> of a file; the program renames nothing else.\<close>

definition os_Rename :: "string \<Rightarrow> string \<Rightarrow> fs \<Rightarrow> fs \<times> gerr option" where
  "os_Rename p q s = (case fault_now s of
       Some (e, _) \<Rightarrow> (tick s, Some e)
     | None \<Rightarrow> (case fs_tree s (path_clean p) of
         Some (File d) \<Rightarrow>
           if \<not> parent_ok q s then (tick s, Some ErrNotExist)
           else if fs_tree s (path_clean q) = Some Dir then (tick s, Some ErrExist)
           else ((tick s)\<lparr>fs_tree := (fs_tree s)(path_clean p := None, path_clean q \<mapsto> File d)\<rparr>, None)
       | _ \<Rightarrow> (tick s, Some ErrNotExist)))"

definition os_RemoveAll :: "string \<Rightarrow> fs \<Rightarrow> fs \<times> gerr option" where
  "os_RemoveAll p s = (case fault_now s of
       Some (e, _) \<Rightarrow>
         ((tick s)\<lparr>fs_tree := (\<lambda>q. if below (path_clean p) q \<and> fs_gone s (fs_count s) q then None else fs_tree s q)\<rparr>, Some e)
     | None \<Rightarrow> ((tick s)\<lparr>fs_tree := (\<lambda>q. if below (path_clean p) q then None else fs_tree s q)\<rparr>, None))"

section \<open>Facts\<close>

lemma fs_tree_tick [simp]: "fs_tree (tick s) = fs_tree s"
  by (simp add: tick_def)

lemma fs_tree_put [simp]: "fs_tree (put p n s) = (fs_tree s)(p \<mapsto> n)"
  by (simp add: put_def)

lemma fs_tree_reads [simp]:
  "fs_tree (fst (os_Stat p s)) = fs_tree s" "fs_tree (fst (os_ReadFile p s)) = fs_tree s"
  by (simp_all add: os_Stat_def os_ReadFile_def)

lemma os_Stat_ok: "os_Stat p s = (s', Inr n) \<Longrightarrow> fs_tree s (path_clean p) = Some n \<and> fs_tree s' = fs_tree s"
  by (auto simp: os_Stat_def split: option.splits)

lemma os_Stat_tree: "os_Stat p s = (s', r) \<Longrightarrow> fs_tree s' = fs_tree s"
  by (auto simp: os_Stat_def)

lemma os_ReadFile_tree: "os_ReadFile p s = (s', r) \<Longrightarrow> fs_tree s' = fs_tree s"
  by (auto simp: os_ReadFile_def)

lemma os_WriteFile_ok:
  "os_WriteFile p d s = (s', None) \<Longrightarrow> fs_tree s' = (fs_tree s)(path_clean p \<mapsto> File d) \<and> parent_ok p s"
  by (auto simp: os_WriteFile_def split: if_splits option.splits)

text \<open>Whatever happens, a write touches no other path.\<close>

lemma os_WriteFile_frame: "os_WriteFile p d s = (s', r) \<Longrightarrow> q \<noteq> path_clean p \<Longrightarrow> fs_tree s' q = fs_tree s q"
  by (auto simp: os_WriteFile_def split: if_splits option.splits)

lemma os_Rename_ok:
  "os_Rename p q s = (s', None) \<Longrightarrow> \<exists>d. fs_tree s (path_clean p) = Some (File d)
     \<and> fs_tree s' = (fs_tree s)(path_clean p := None, path_clean q \<mapsto> File d)"
  by (auto simp: os_Rename_def split: if_splits option.splits node.splits)

lemma os_Rename_err: "os_Rename p q s = (s', Some e) \<Longrightarrow> fs_tree s' = fs_tree s"
  by (auto simp: os_Rename_def split: if_splits option.splits node.splits)

lemma os_MkdirAll_file:
  "os_MkdirAll p s = (s', r) \<Longrightarrow> fs_tree s q = Some (File d) \<Longrightarrow> fs_tree s' q = Some (File d)"
  by (fastforce simp: os_MkdirAll_def list_ex_iff split: if_splits option.splits)

lemma os_MkdirAll_file_rev:
  "os_MkdirAll p s = (s', r) \<Longrightarrow> fs_tree s' q = Some (File d) \<Longrightarrow> fs_tree s q = Some (File d)"
  by (auto simp: os_MkdirAll_def split: if_splits option.splits)

lemma os_RemoveAll_frame: "os_RemoveAll p s = (s', r) \<Longrightarrow> \<not> below (path_clean p) q \<Longrightarrow> fs_tree s' q = fs_tree s q"
  by (auto simp: os_RemoveAll_def split: option.splits)

lemma os_RemoveAll_ok: "os_RemoveAll p s = (s', None) \<Longrightarrow> below (path_clean p) q \<Longrightarrow> fs_tree s' q = None"
  by (auto simp: os_RemoveAll_def split: option.splits)

lemma path_clean_idem [simp]: "path_clean (path_clean p) = path_clean p"
  unfolding path_clean_def by (simp only: path_parts_render path_parts_normal)

lemma path_clean_join:
  assumes "s \<noteq> []" and "path_name n"
  shows "path_clean (path_join [s, n]) = path_join [s, n]"
  using path_join_below [OF assms] by simp

text \<open>The directories below a root share everything but their last component.\<close>

lemma path_join_base:
  assumes "s \<noteq> []"
  shows "\<exists>b. \<forall>n. path_name n \<longrightarrow> path_join [s, n] = b @ n"
proof -
  obtain r cs where p: "path_parts s = (r, cs)" by fastforce
  have "path_join [s, n] = render_path (r, cs @ [n])" if "path_name n" for n
    using assms that p by (simp add: path_join_below path_clean_def path_parts_below)
  moreover have "\<exists>b. \<forall>n. render_path (r, cs @ [n]) = b @ n"
  proof (cases "cs = []")
    case True
    then show ?thesis by (intro exI [of _ "if r then ''/'' else []"]) simp
  next
    case False
    then show ?thesis
      by (intro exI [of _ "(if r then ''/'' else []) @ join_with ''/'' cs @ ''/''"]) (simp add: join_with_snoc)
  qed
  ultimately show ?thesis by metis
qed

lemma not_below_sibling:
  assumes "s \<noteq> []" and "path_name n" and "path_name n'" and "n \<noteq> n'" and "path_name m"
  shows "\<not> below (path_join [s, n]) (path_join [path_join [s, n'], m])"
proof
  assume b: "below (path_join [s, n]) (path_join [path_join [s, n'], m])"
  obtain base where base: "path_join [s, n] = base @ n" "path_join [s, n'] = base @ n'"
    using path_join_base [OF assms(1)] assms(2,3) by blast
  have two: "path_join [path_join [s, n'], m] = base @ n' @ CHR ''/'' # m"
    using path_join_two [OF assms(1,3,5)] base by simp
  have sl: "CHR ''/'' \<notin> set n" "CHR ''/'' \<notin> set n'" using assms(2,3) by (auto simp: path_name_def)
  from b two base consider "n = n' @ CHR ''/'' # m" | z where "n' @ CHR ''/'' # m = n @ CHR ''/'' # z"
    by (auto simp: below_def prefix_def)
  then show False
  proof cases
    case 1
    with sl show False by auto
  next
    case 2
    then have "takeWhile (\<lambda>c. c \<noteq> CHR ''/'') (n' @ CHR ''/'' # m) = takeWhile (\<lambda>c. c \<noteq> CHR ''/'') (n @ CHR ''/'' # z)"
      by simp
    moreover have "takeWhile (\<lambda>c. c \<noteq> CHR ''/'') (n' @ CHR ''/'' # m) = n'" "takeWhile (\<lambda>c. c \<noteq> CHR ''/'') (n @ CHR ''/'' # z) = n"
      using sl by (auto intro!: takeWhile_append_stop)
    ultimately show False using assms(4) by simp
  qed
qed

lemma below_file: "s \<noteq> [] \<Longrightarrow> path_name n \<Longrightarrow> path_name m \<Longrightarrow> below (path_join [s, n]) (path_join [path_join [s, n], m])"
  by (simp add: path_join_two below_def)

end
