(* ===== verification/Disk_Pool.thy ===== *)
theory Disk_Pool
  imports Go_FS
begin

text \<open>
  Files \<open>clone.go\<close> and \<open>pool.go\<close> of \<open>internal/runtime\<close>: private copies of the golden root
  file system, and the pool that prepares them ahead of time. The program \<open>cp\<close> is a parameter
  with the contract \<open>file_cloner\<close>: it changes nothing but the destination, and when it reports
  success the destination holds what the source held. The pool is a transition system: the
  background clones interleave with \<open>Acquire\<close> and with what the guests do to their disks.
\<close>

section \<open>Copies\<close>

definition copyFile :: "string \<Rightarrow> string \<Rightarrow> fs \<Rightarrow> fs \<times> gerr option" where
  "copyFile src dst s = (case os_Stat src s of
       (s1, Inl e) \<Rightarrow> (s1, Some e)
     | (s1, Inr _) \<Rightarrow> (case os_WriteFile dst [] s1 of
         (s2, Some e) \<Rightarrow> (s2, Some e)
       | (s2, None) \<Rightarrow> (case os_ReadFile src s2 of
           (s3, Inl e) \<Rightarrow> (s3, Some (Wrapf ''copy %s to %s: %w'' [src, dst] e))
         | (s3, Inr d) \<Rightarrow> (case os_WriteFile dst d s3 of
             (s4, Some e) \<Rightarrow> (s4, Some (Wrapf ''copy %s to %s: %w'' [src, dst] e))
           | (s4, None) \<Rightarrow> (tick s4, map_option fst (fault_now s4))))))"

definition cloneFile :: "(string \<Rightarrow> string \<Rightarrow> fs \<Rightarrow> fs \<times> gerr option) \<Rightarrow> string \<Rightarrow> string \<Rightarrow> fs \<Rightarrow> fs \<times> gerr option" where
  "cloneFile cp src dst s = (case cp src dst s of
       (s1, None) \<Rightarrow> (s1, None)
     | (s1, Some _) \<Rightarrow> copyFile src dst s1)"

text \<open>
  \<open>os.Link\<close>: the new name shares the file of the old one. The program links only the kernel
  image, which nothing writes to, so the model gives the new name the same contents.
\<close>

definition os_Link :: "string \<Rightarrow> string \<Rightarrow> fs \<Rightarrow> fs \<times> gerr option" where
  "os_Link p q s = (case fault_now s of
       Some (e, _) \<Rightarrow> (tick s, Some e)
     | None \<Rightarrow> (case fs_tree s (path_clean p) of
         Some (File d) \<Rightarrow>
           if fs_tree s (path_clean q) \<noteq> None then (tick s, Some ErrExist)
           else if \<not> parent_ok q s then (tick s, Some ErrNotExist)
           else (put (path_clean q) (File d) (tick s), None)
       | _ \<Rightarrow> (tick s, Some ErrNotExist)))"

definition linkOrCopy :: "(string \<Rightarrow> string \<Rightarrow> fs \<Rightarrow> fs \<times> gerr option) \<Rightarrow> string \<Rightarrow> string \<Rightarrow> fs \<Rightarrow> fs \<times> gerr option" where
  "linkOrCopy cp src dst s = (case os_Link src dst s of
       (s1, None) \<Rightarrow> (s1, None)
     | (s1, Some _) \<Rightarrow> cloneFile cp src dst s1)"

section \<open>The contract of a copy\<close>

definition holds :: "fs \<Rightarrow> string \<Rightarrow> string \<Rightarrow> bool" where
  "holds s p d = (fs_tree s (path_clean p) = Some (File d))"

locale file_cloner =
  fixes cp :: "string \<Rightarrow> string \<Rightarrow> fs \<Rightarrow> fs \<times> gerr option"
  assumes copies: "path_clean src \<noteq> path_clean dst \<Longrightarrow> cp src dst s = (s', None) \<Longrightarrow> holds s src d \<Longrightarrow> holds s' dst d"
    and only_dst: "q \<noteq> path_clean dst \<Longrightarrow> fs_tree (fst (cp src dst s)) q = fs_tree s q"

lemma copyFile_frame: "q \<noteq> path_clean dst \<Longrightarrow> fs_tree (fst (copyFile src dst s)) q = fs_tree s q"
proof -
  assume q: "q \<noteq> path_clean dst"
  obtain s1 r1 where a: "os_Stat src s = (s1, r1)" by fastforce
  obtain s2 r2 where b: "os_WriteFile dst [] s1 = (s2, r2)" by fastforce
  obtain s3 r3 where c: "os_ReadFile src s2 = (s3, r3)" by fastforce
  have t: "fs_tree s1 q = fs_tree s q" "fs_tree s2 q = fs_tree s1 q" "fs_tree s3 q = fs_tree s2 q"
    using os_Stat_tree [OF a] os_WriteFile_frame [OF b q] os_ReadFile_tree [OF c] by simp_all
  have w: "fs_tree s4 q = fs_tree s3 q" if "os_WriteFile dst d s3 = (s4, r4)" for d s4 r4
    using os_WriteFile_frame [OF that q] .
  show ?thesis
    using t w by (auto simp: copyFile_def a b c split: sum.split option.split prod.split)
qed

lemma copyFile_copies:
  assumes "path_clean src \<noteq> path_clean dst" and "copyFile src dst s = (s', None)" and "holds s src d"
  shows "holds s' dst d"
proof -
  obtain s1 n where a: "os_Stat src s = (s1, Inr n)"
    using assms(2) by (auto simp: copyFile_def split: prod.splits sum.splits)
  obtain s2 where b: "os_WriteFile dst [] s1 = (s2, None)"
    using assms(2) by (auto simp: copyFile_def a split: prod.splits option.splits)
  obtain s3 d' where c: "os_ReadFile src s2 = (s3, Inr d')"
    using assms(2) by (auto simp: copyFile_def a b split: prod.splits sum.splits)
  obtain s4 where w: "os_WriteFile dst d' s3 = (s4, None)" and s': "s' = tick s4"
    using assms(2) by (auto simp: copyFile_def a b c split: prod.splits option.splits)
  have "fs_tree s2 (path_clean src) = Some (File d)"
    using assms(1,3) os_Stat_tree [OF a] os_WriteFile_frame [OF b assms(1)] by (simp add: holds_def)
  then have "d' = d" using c by (auto simp: os_ReadFile_def split: option.splits)
  then show ?thesis using os_WriteFile_ok [OF w] by (simp add: holds_def s')
qed

interpretation user_copy: file_cloner copyFile
  using copyFile_copies copyFile_frame by unfold_locales

context file_cloner
begin

lemma clone_frame: "q \<noteq> path_clean dst \<Longrightarrow> fs_tree (fst (cloneFile cp src dst s)) q = fs_tree s q"
  using only_dst [of q dst src s] copyFile_frame [of q dst src]
  by (auto simp: cloneFile_def split: prod.split option.split)

lemma clone_copies:
  assumes "path_clean src \<noteq> path_clean dst" and "cloneFile cp src dst s = (s', None)" and "holds s src d"
  shows "holds s' dst d"
proof -
  obtain s1 r where c: "cp src dst s = (s1, r)" by fastforce
  show ?thesis
  proof (cases r)
    case None
    then show ?thesis using copies [OF assms(1) _ assms(3)] c assms(2) by (simp add: cloneFile_def)
  next
    case (Some e)
    have "holds s1 src d" using only_dst [OF assms(1), of src s] c assms(3) by (simp add: holds_def)
    then show ?thesis using copyFile_copies [OF assms(1)] c Some assms(2) by (simp add: cloneFile_def)
  qed
qed

lemma link_copies:
  assumes "path_clean src \<noteq> path_clean dst" and "linkOrCopy cp src dst s = (s', None)" and "holds s src d"
  shows "holds s' dst d"
proof -
  obtain s1 r where c: "os_Link src dst s = (s1, r)" by fastforce
  have t: "r = None \<longrightarrow> holds s1 dst d" "r \<noteq> None \<longrightarrow> holds s1 src d"
    using c assms(3) by (auto simp: os_Link_def holds_def split: option.splits if_splits)
  then show ?thesis using clone_copies [OF assms(1), of s1 s' d] c assms(2) by (cases r) (auto simp: linkOrCopy_def)
qed

end

section \<open>The pool\<close>

record file_pool =
  fp_Golden :: string
  fp_Dir :: string
  fp_Size :: int
  fp_seq :: nat
  fp_ready :: "string list"

text \<open>The pool, and how many background clones its construction starts.\<close>

definition NewFilePool :: "string \<Rightarrow> string \<Rightarrow> int \<Rightarrow> fs \<Rightarrow> fs \<times> file_pool option \<times> nat" where
  "NewFilePool golden dir sz s =
     (if sz < 1 \<or> golden = [] \<or> dir = [] then (s, None, 0)
      else (fst (os_MkdirAll dir s),
            Some \<lparr>fp_Golden = golden, fp_Dir = dir, fp_Size = sz, fp_seq = 0, fp_ready = []\<rparr>, nat sz))"

definition Available :: "file_pool option \<Rightarrow> nat" where
  "Available p = (case p of None \<Rightarrow> 0 | Some q \<Rightarrow> length (fp_ready q))"

text \<open>
  \<open>Acquire\<close> returns the updated pool and whether it started a background clone.
\<close>

definition Acquire :: "(string \<Rightarrow> string \<Rightarrow> fs \<Rightarrow> fs \<times> gerr option) \<Rightarrow> string \<Rightarrow> file_pool option \<Rightarrow> fs
    \<Rightarrow> fs \<times> file_pool option \<times> bool \<times> gerr option" where
  "Acquire cp dst po s = (case po of
       None \<Rightarrow> (s, None, False, Some (Errorf ''rootfs pool is nil'' []))
     | Some p \<Rightarrow> (case os_MkdirAll (path_dir dst) s of
         (s1, Some e) \<Rightarrow> (s1, Some p, False, Some e)
       | (s1, None) \<Rightarrow> (case fp_ready p of
           src # rest \<Rightarrow>
             (case os_Rename src dst s1 of
                (s2, None) \<Rightarrow> (s2, Some (p\<lparr>fp_ready := rest\<rparr>), True, None)
              | (s2, Some _) \<Rightarrow> (case cloneFile cp (fp_Golden p) dst s2 of
                  (s3, r) \<Rightarrow> (s3, Some (p\<lparr>fp_ready := rest\<rparr>), True, r)))
         | [] \<Rightarrow> (case cloneFile cp (fp_Golden p) dst s1 of (s2, r) \<Rightarrow> (s2, Some p, False, r)))))"

text \<open>
  \<open>fill\<close> runs concurrently, so its three parts are separate: taking a number, cloning, and
  offering the clone to the channel, which drops it when the channel is full.
\<close>

definition ready_name :: "nat \<Rightarrow> string" where
  "ready_name n = ''ready-'' @ nat_dec n @ ''.ext4''"

definition ready_path :: "file_pool \<Rightarrow> nat \<Rightarrow> string" where
  "ready_path p n = path_join [fp_Dir p, ready_name n]"

definition fill_take :: "file_pool \<Rightarrow> file_pool \<times> nat" where
  "fill_take p = (p\<lparr>fp_seq := Suc (fp_seq p)\<rparr>, Suc (fp_seq p))"

definition fill_clone :: "(string \<Rightarrow> string \<Rightarrow> fs \<Rightarrow> fs \<times> gerr option) \<Rightarrow> file_pool \<Rightarrow> nat \<Rightarrow> fs \<Rightarrow> fs \<times> gerr option" where
  "fill_clone cp p n s = cloneFile cp (fp_Golden p) (ready_path p n) s"

text \<open>\<open>os.Remove\<close> of a file.\<close>

definition os_RemoveFile :: "string \<Rightarrow> fs \<Rightarrow> fs \<times> gerr option" where
  "os_RemoveFile p s = (case fault_now s of
       Some (e, _) \<Rightarrow> (tick s, Some e)
     | None \<Rightarrow> (case fs_tree s (path_clean p) of
         Some (File d) \<Rightarrow> ((tick s)\<lparr>fs_tree := (fs_tree s)(path_clean p := None)\<rparr>, None)
       | _ \<Rightarrow> (tick s, Some ErrNotExist)))"

definition fill_send :: "file_pool \<Rightarrow> nat \<Rightarrow> fs \<Rightarrow> fs \<times> file_pool" where
  "fill_send p n s =
     (if int (length (fp_ready p)) < fp_Size p then (s, p\<lparr>fp_ready := fp_ready p @ [ready_path p n]\<rparr>)
      else (fst (os_RemoveFile (ready_path p n) s), p))"

definition fill :: "(string \<Rightarrow> string \<Rightarrow> fs \<Rightarrow> fs \<times> gerr option) \<Rightarrow> file_pool \<Rightarrow> fs \<Rightarrow> fs \<times> file_pool" where
  "fill cp p s = (case fill_take p of (p1, n) \<Rightarrow> (case fill_clone cp p1 n s of
       (s1, Some _) \<Rightarrow> (s1, p1)
     | (s1, None) \<Rightarrow> fill_send p1 n s1))"

section \<open>The pool among its goroutines and guests\<close>

record pool_sys =
  ps_pool :: file_pool
  ps_fs :: fs
  ps_spawned :: nat
  ps_cloning :: "nat list"
  ps_cloned :: "nat list"

text \<open>
  A path that is neither the golden image nor a name of the pool: where jobs keep their disks.
\<close>

definition job_path :: "file_pool \<Rightarrow> string \<Rightarrow> bool" where
  "job_path p q = (path_clean q \<noteq> path_clean (fp_Golden p) \<and> (\<forall>n. path_clean q \<noteq> path_clean (ready_path p n)))"

inductive pool_step :: "(string \<Rightarrow> string \<Rightarrow> fs \<Rightarrow> fs \<times> gerr option) \<Rightarrow> pool_sys \<Rightarrow> pool_sys \<Rightarrow> bool" for cp where
  Take: "ps_spawned y = Suc k \<Longrightarrow> fill_take (ps_pool y) = (p, n) \<Longrightarrow>
     pool_step cp y (y\<lparr>ps_pool := p, ps_spawned := k, ps_cloning := n # ps_cloning y\<rparr>)"
| Cloned: "n \<in> set (ps_cloning y) \<Longrightarrow> fill_clone cp (ps_pool y) n (ps_fs y) = (s, None) \<Longrightarrow>
     pool_step cp y (y\<lparr>ps_fs := s, ps_cloning := remove1 n (ps_cloning y), ps_cloned := n # ps_cloned y\<rparr>)"
| Failed: "n \<in> set (ps_cloning y) \<Longrightarrow> fill_clone cp (ps_pool y) n (ps_fs y) = (s, Some e) \<Longrightarrow>
     pool_step cp y (y\<lparr>ps_fs := s, ps_cloning := remove1 n (ps_cloning y)\<rparr>)"
| Send: "n \<in> set (ps_cloned y) \<Longrightarrow> fill_send (ps_pool y) n (ps_fs y) = (s, p) \<Longrightarrow>
     pool_step cp y (y\<lparr>ps_fs := s, ps_pool := p, ps_cloned := remove1 n (ps_cloned y)\<rparr>)"
| Acquired: "job_path (ps_pool y) dst \<Longrightarrow> Acquire cp dst (Some (ps_pool y)) (ps_fs y) = (s, Some p, spawned, r) \<Longrightarrow>
     pool_step cp y (y\<lparr>ps_fs := s, ps_pool := p, ps_spawned := ps_spawned y + of_bool spawned\<rparr>)"
| Guest: "job_path (ps_pool y) q \<Longrightarrow> fs_tree s = (fs_tree (ps_fs y))(path_clean q := x) \<Longrightarrow>
     pool_step cp y (y\<lparr>ps_fs := s\<rparr>)"

inductive_cases pool_stepE: "pool_step cp y y'"

definition pool_start :: "string \<Rightarrow> string \<Rightarrow> int \<Rightarrow> fs \<Rightarrow> pool_sys option" where
  "pool_start golden dir sz s = (case NewFilePool golden dir sz s of
       (s1, Some p, k) \<Rightarrow> Some \<lparr>ps_pool = p, ps_fs = s1, ps_spawned = k, ps_cloning = [], ps_cloned = []\<rparr>
     | _ \<Rightarrow> None)"

text \<open>
  The invariant: the golden image is what it was, the numbers in use are distinct and were
  handed out, and every finished clone, in the channel or on its way there, is the golden image.
\<close>

definition pool_inv :: "string \<Rightarrow> string \<Rightarrow> string \<Rightarrow> pool_sys \<Rightarrow> bool" where
  "pool_inv golden dir d y = (\<exists>ns.
     fp_Golden (ps_pool y) = golden \<and> fp_Dir (ps_pool y) = dir
     \<and> fp_ready (ps_pool y) = map (ready_path (ps_pool y)) ns
     \<and> distinct (ns @ ps_cloned y @ ps_cloning y)
     \<and> (\<forall>n \<in> set (ns @ ps_cloned y @ ps_cloning y). n \<le> fp_seq (ps_pool y))
     \<and> holds (ps_fs y) golden d
     \<and> (\<forall>n \<in> set (ns @ ps_cloned y). holds (ps_fs y) (ready_path (ps_pool y) n) d))"

lemma ready_name_ok: "path_name (ready_name n)"
proof -
  have "CHR ''/'' \<notin> set (nat_dec n)" using nat_dec_digits [of "CHR ''/''" n] by (auto simp: dec_digit_def)
  then show ?thesis by (simp add: path_name_def ready_name_def)
qed

lemma ready_path_inject:
  "fp_Dir p \<noteq> [] \<Longrightarrow> path_clean (ready_path p m) = path_clean (ready_path p n) \<longleftrightarrow> m = n"
  using path_clean_join [OF _ ready_name_ok] path_join_inject [OF _ ready_name_ok ready_name_ok]
  by (auto simp: ready_path_def) (auto simp: ready_name_def)

lemma ready_path_upd [simp]:
  "ready_path (p\<lparr>fp_seq := x\<rparr>) n = ready_path p n" "ready_path (p\<lparr>fp_ready := xs\<rparr>) n = ready_path p n"
  by (simp_all add: ready_path_def)

lemma holds_cong: "fs_tree s' (path_clean p) = fs_tree s (path_clean p) \<Longrightarrow> holds s' p d = holds s p d"
  by (simp add: holds_def)

definition golden_apart :: "string \<Rightarrow> string \<Rightarrow> bool" where
  "golden_apart golden dir = (\<forall>n. path_clean golden \<noteq> path_clean (path_join [dir, ready_name n]))"

lemma golden_apart_ready: "golden_apart golden (fp_Dir p) \<Longrightarrow> path_clean (ready_path p n) \<noteq> path_clean golden"
  by (metis golden_apart_def ready_path_def)

text \<open>Unpacking and packing the invariant, with the numbers of the channel made explicit.\<close>

definition pool_disks :: "string \<Rightarrow> file_pool \<Rightarrow> nat list \<Rightarrow> nat list \<Rightarrow> nat list \<Rightarrow> string \<Rightarrow> fs \<Rightarrow> bool" where
  "pool_disks golden p ns cloned cloning d s \<longleftrightarrow>
     fp_Golden p = golden \<and> fp_ready p = map (ready_path p) ns \<and> distinct (ns @ cloned @ cloning)
     \<and> (\<forall>n \<in> set (ns @ cloned @ cloning). n \<le> fp_seq p) \<and> holds s golden d
     \<and> (\<forall>n \<in> set (ns @ cloned). holds s (ready_path p n) d)"

lemma pool_inv_iff:
  "pool_inv golden dir d y \<longleftrightarrow> fp_Dir (ps_pool y) = dir
     \<and> (\<exists>ns. pool_disks golden (ps_pool y) ns (ps_cloned y) (ps_cloning y) d (ps_fs y))"
  by (auto simp: pool_inv_def pool_disks_def)

lemma disks_frame:
  assumes "fp_Dir p \<noteq> []" and "golden_apart golden (fp_Dir p)"
    and "\<And>q. q \<noteq> path_clean (ready_path p n) \<Longrightarrow> fs_tree s' q = fs_tree s q"
  shows "holds s' golden d = holds s golden d" and "m \<noteq> n \<Longrightarrow> holds s' (ready_path p m) d = holds s (ready_path p m) d"
  using assms golden_apart_ready [OF assms(2), of n] ready_path_inject [OF assms(1), of m n]
  by (metis holds_cong)+

lemma step_take:
  assumes "pool_disks golden p ns cloned cloning d s" and "fill_take p = (p', n)"
  shows "pool_disks golden p' ns cloned (n # cloning) d s"
proof -
  have p: "p' = p\<lparr>fp_seq := Suc (fp_seq p)\<rparr>" "n = Suc (fp_seq p)" using assms(2) by (auto simp: fill_take_def)
  have "ready_path p' = ready_path p" by (rule ext) (simp add: p(1))
  moreover have "n \<notin> set (ns @ cloned @ cloning)" using assms(1) p(2) unfolding pool_disks_def by (metis Suc_n_not_le_n)
  ultimately show ?thesis using assms(1) p by (auto simp: pool_disks_def intro: le_SucI)
qed

lemma step_send:
  assumes "pool_disks golden p ns cloned cloning d s" and "n \<in> set cloned" and "fill_send p n s = (s', p')"
    and "fp_Dir p \<noteq> []" and "golden_apart golden (fp_Dir p)"
  shows "\<exists>ns'. pool_disks golden p' ns' (remove1 n cloned) cloning d s'"
proof (cases "int (length (fp_ready p)) < fp_Size p")
  case True
  then have p: "s' = s" "p' = p\<lparr>fp_ready := fp_ready p @ [ready_path p n]\<rparr>" using assms(3) by (auto simp: fill_send_def)
  have "ready_path p' = ready_path p" by (rule ext) (simp add: p)
  with assms(1,2) p show ?thesis
    by (intro exI [of _ "ns @ [n]"]) (auto simp: pool_disks_def set_remove1_eq)
next
  case False
  then have p: "s' = fst (os_RemoveFile (ready_path p n) s)" "p' = p" using assms(3) by (auto simp: fill_send_def)
  have fr: "fs_tree s' q = fs_tree s q" if "q \<noteq> path_clean (ready_path p n)" for q
    using that by (auto simp: p os_RemoveFile_def split: option.split node.split)
  have df: "holds s' golden x = holds s golden x" "m \<noteq> n \<Longrightarrow> holds s' (ready_path p m) x = holds s (ready_path p m) x" for m x
    using disks_frame [OF assms(4,5), of n s' s] fr by blast+
  from assms(1,2) show ?thesis
    unfolding p(2) using df by (intro exI [of _ ns]) (fastforce simp: pool_disks_def set_remove1_eq)
qed

context file_cloner
begin

text \<open>What \<open>Acquire\<close> does to the disks: it takes the head of the channel, if any.\<close>

lemma acquire_disks:
  assumes "job_path p dst" and "Acquire cp dst (Some p) s = (s', Some p', spawned, r)"
    and "holds s (fp_Golden p) d" and "fp_ready p = map (ready_path p) ns"
    and "\<forall>n \<in> set ns. holds s (ready_path p n) d" and "distinct ns"
  shows "(r = None \<longrightarrow> holds s' dst d)
    \<and> (\<exists>ns'. p' = p\<lparr>fp_ready := map (ready_path p) ns'\<rparr> \<and> suffix ns' ns
      \<and> (\<forall>q x. holds s q x \<longrightarrow> path_clean q \<noteq> path_clean dst \<longrightarrow>
           (\<forall>n \<in> set ns - set ns'. path_clean q \<noteq> path_clean (ready_path p n)) \<longrightarrow> holds s' q x))"
proof -
  obtain s1 r1 where mk: "os_MkdirAll (path_dir dst) s = (s1, r1)" by fastforce
  have k: "holds s q x \<Longrightarrow> holds s1 q x" for q x
    using os_MkdirAll_file [OF mk] by (simp add: holds_def)
  have g: "path_clean (fp_Golden p) \<noteq> path_clean dst" using assms(1) by (auto simp: job_path_def)
  have clone: "(r' = None \<longrightarrow> holds s3 dst d) \<and> (\<forall>q x. holds s2 q x \<longrightarrow> path_clean q \<noteq> path_clean dst \<longrightarrow> holds s3 q x)"
    if "cloneFile cp (fp_Golden p) dst s2 = (s3, r')" and "holds s2 (fp_Golden p) d" for s2 s3 r'
    using clone_copies [OF g, of s2 s3 d] clone_frame [of _ dst "fp_Golden p" s2] that by (auto simp: holds_def)
  have same: "p = p\<lparr>fp_ready := map (ready_path p) ns\<rparr>" using assms(4) by (metis file_pool.unfold_congs(5) file_pool.surjective file_pool.update_convs(5))
  consider (dir) e where "r1 = Some e" | (empty) "r1 = None" "ns = []" | (ready) n ns' where "r1 = None" "ns = n # ns'"
    by (cases r1; cases ns) auto
  then show ?thesis
  proof cases
    case dir
    then have "s' = s1" "p' = p" "r = Some e" using assms(2) mk by (simp_all add: Acquire_def)
    then show ?thesis using k same by (intro conjI exI [of _ ns]) auto
  next
    case empty
    obtain s2 r2 where c: "cloneFile cp (fp_Golden p) dst s1 = (s2, r2)" by fastforce
    with empty have res: "s' = s2" "p' = p" "r = r2" using assms(2,4) mk by (auto simp: Acquire_def)
    with empty clone [OF c k [OF assms(3)]] k same show ?thesis by (intro conjI exI [of _ ns]) auto
  next
    case ready
    obtain s2 r2 where ren: "os_Rename (ready_path p n) dst s1 = (s2, r2)" by fastforce
    have n: "n \<notin> set ns'" "holds s1 (ready_path p n) d" using assms(5,6) ready k by auto
    show ?thesis
    proof (cases r2)
      case None
      then have res: "s' = s2" "p' = p\<lparr>fp_ready := map (ready_path p) ns'\<rparr>" "r = None"
        using assms(2,4) mk ren ready by (auto simp: Acquire_def)
      have "fs_tree s2 = (fs_tree s1)(path_clean (ready_path p n) := None, path_clean dst \<mapsto> File d)"
        using os_Rename_ok [OF ren [unfolded None]] n(2) by (auto simp: holds_def)
      then show ?thesis
        using res k n(1) ready by (intro conjI exI [of _ ns']) (auto simp: holds_def suffix_ConsI)
    next
      case (Some e)
      obtain s3 r3 where c: "cloneFile cp (fp_Golden p) dst s2 = (s3, r3)" by fastforce
      then have res: "s' = s3" "p' = p\<lparr>fp_ready := map (ready_path p) ns'\<rparr>" "r = r3"
        using assms(2,4) mk ren ready Some by (auto simp: Acquire_def)
      have t: "holds s2 q x = holds s1 q x" for q x
        using os_Rename_err [OF ren [unfolded Some]] by (simp add: holds_def)
      show ?thesis
        using clone [OF c] t k assms(3) res ready by (intro conjI exI [of _ ns']) (auto simp: suffix_ConsI)
    qed
  qed
qed

lemma step_clone:
  assumes "pool_disks golden p ns cloned cloning d s" and "n \<in> set cloning" and "fill_clone cp p n s = (s', r)"
    and "fp_Dir p \<noteq> []" and "golden_apart golden (fp_Dir p)"
  shows "pool_disks golden p ns (if r = None then n # cloned else cloned) (remove1 n cloning) d s'"
proof -
  have fr: "fs_tree s' q = fs_tree s q" if "q \<noteq> path_clean (ready_path p n)" for q
    using clone_frame [OF that, of "fp_Golden p" s] assms(3) by (simp add: fill_clone_def)
  have df: "holds s' golden x = holds s golden x" "m \<noteq> n \<Longrightarrow> holds s' (ready_path p m) x = holds s (ready_path p m) x" for m x
    using disks_frame [OF assms(4,5), of n s' s] fr by blast+
  have c: "holds s' (ready_path p n) d" if "r = None"
    using clone_copies [of "fp_Golden p" "ready_path p n" s s' d] golden_apart_ready [OF assms(5), of n] assms(1,3) that
    by (auto simp: fill_clone_def pool_disks_def)
  have keep: "holds s' (ready_path p m) d" if "m \<in> set (ns @ cloned)" for m
    using that df assms(1,2) by (auto simp: pool_disks_def) (metis Un_iff disjoint_iff)+
  from assms(1,2) c df(1) keep show ?thesis by (auto simp: pool_disks_def set_remove1_eq)
qed

lemma step_acquire:
  assumes "pool_disks golden p ns cloned cloning d s" and "job_path p dst"
    and "Acquire cp dst (Some p) s = (s', Some p', spawned, r)"
    and "fp_Dir p \<noteq> []" and "golden_apart golden (fp_Dir p)"
  shows "fp_Dir p' = fp_Dir p \<and> (\<exists>ns'. pool_disks golden p' ns' cloned cloning d s')" and "r = None \<longrightarrow> holds s' dst d"
proof -
  have i: "holds s (fp_Golden p) d" "fp_ready p = map (ready_path p) ns" "\<forall>n \<in> set ns. holds s (ready_path p n) d" "distinct ns"
    using assms(1) by (auto simp: pool_disks_def)
  note a = acquire_disks [OF assms(2,3) i]
  from a show "r = None \<longrightarrow> holds s' dst d" by blast
  from a obtain ns' where p': "p' = p\<lparr>fp_ready := map (ready_path p) ns'\<rparr>" and suf: "suffix ns' ns"
    and keep: "\<And>q x. holds s q x \<Longrightarrow> path_clean q \<noteq> path_clean dst \<Longrightarrow>
      (\<forall>n \<in> set ns - set ns'. path_clean q \<noteq> path_clean (ready_path p n)) \<Longrightarrow> holds s' q x" by blast
  have jp: "path_clean golden \<noteq> path_clean dst" "path_clean (ready_path p n) \<noteq> path_clean dst" for n
    using assms(1,2) unfolding job_path_def pool_disks_def by metis+
  have sub: "set ns' \<subseteq> set ns" "distinct ns'" using suf i(4) by (auto simp: suffix_def)
  have rp: "ready_path p' = ready_path p" by (rule ext) (simp add: p')
  have "holds s' golden d"
    using assms(1) jp(1) golden_apart_ready [OF assms(5)] by (intro keep) (simp_all add: pool_disks_def, metis)
  moreover have "holds s' (ready_path p n) d" if "n \<in> set (ns' @ cloned)" for n
    using assms(1) jp that sub ready_path_inject [OF assms(4)] by (intro keep) (auto simp: pool_disks_def)
  ultimately show "fp_Dir p' = fp_Dir p \<and> (\<exists>ns'. pool_disks golden p' ns' cloned cloning d s')"
    using assms(1) sub rp p' by (intro conjI exI [of _ ns']) (auto simp: pool_disks_def)
qed

lemma step_inv:
  assumes "pool_step cp y y'" and "pool_inv golden dir d y" and "dir \<noteq> []" and "golden_apart golden dir"
  shows "pool_inv golden dir d y'"
proof -
  obtain ns where dir: "fp_Dir (ps_pool y) = dir" and i: "pool_disks golden (ps_pool y) ns (ps_cloned y) (ps_cloning y) d (ps_fs y)"
    using assms(2) pool_inv_iff by blast
  have sep: "fp_Dir (ps_pool y) \<noteq> []" "golden_apart golden (fp_Dir (ps_pool y))" using dir assms(3,4) by simp_all
  from assms(1) show ?thesis
  proof cases
    case (Take k p n)
    with step_take [OF i Take(3)] dir show ?thesis by (auto simp: pool_inv_iff fill_take_def)
  next
    case (Cloned n s)
    with step_clone [OF i Cloned(2,3) sep] dir show ?thesis by (auto simp: pool_inv_iff)
  next
    case (Failed n s e)
    with step_clone [OF i Failed(2,3) sep] dir show ?thesis by (auto simp: pool_inv_iff)
  next
    case (Send n s p)
    have "fp_Dir p = dir" using Send(3) dir by (auto simp: fill_send_def split: if_splits)
    with step_send [OF i Send(2,3) sep] Send(1) show ?thesis by (auto simp: pool_inv_iff)
  next
    case (Acquired dst s p spawned r)
    with step_acquire(1) [OF i Acquired(2,3) sep] dir show ?thesis by (auto simp: pool_inv_iff)
  next
    case (Guest q s x)
    then have "path_clean golden \<noteq> path_clean q" "path_clean (ready_path (ps_pool y) n) \<noteq> path_clean q" for n
      using i unfolding job_path_def pool_disks_def by metis+
    then have "holds s golden d" "\<forall>n \<in> set (ns @ ps_cloned y). holds s (ready_path (ps_pool y) n) d"
      using i Guest(3) by (simp_all add: pool_disks_def holds_def)
    with i dir Guest(1) show ?thesis by (auto simp: pool_inv_iff pool_disks_def)
  qed
qed

lemma reach_inv:
  assumes "(pool_step cp)\<^sup>*\<^sup>* y y'" and "pool_inv golden dir d y" and "dir \<noteq> []" and "golden_apart golden dir"
  shows "pool_inv golden dir d y'"
  using assms by (induction rule: rtranclp_induct) (auto intro: step_inv)

end

text \<open>
  C21. A disk that the pool hands out is the golden image: in every state the pool reaches from
  its construction, however the background clones, other acquisitions and the guests' writes to
  their own disks interleave, a successful \<open>Acquire\<close> leaves at the destination exactly what the
  golden image held at the start, and a disk is never in the pool again once a guest had it.
\<close>

theorem pool_hands_out_golden:
  assumes "file_cloner cp" and "pool_start golden dir sz s = Some y0" and "golden_apart golden dir" and "holds s golden d"
    and "(pool_step cp)\<^sup>*\<^sup>* y0 y" and "job_path (ps_pool y) dst"
    and "Acquire cp dst (Some (ps_pool y)) (ps_fs y) = (s', p', spawned, None)"
  shows "holds s' dst d \<and> (\<forall>q \<in> set (fp_ready (ps_pool y)). path_clean dst \<noteq> path_clean q \<and> holds (ps_fs y) q d)"
proof -
  obtain s1 where y0: "y0 = \<lparr>ps_pool = \<lparr>fp_Golden = golden, fp_Dir = dir, fp_Size = sz, fp_seq = 0, fp_ready = []\<rparr>, ps_fs = s1,
      ps_spawned = nat sz, ps_cloning = [], ps_cloned = []\<rparr>" and s1: "s1 = fst (os_MkdirAll dir s)" and dir: "dir \<noteq> []"
    using assms(2) by (auto simp: pool_start_def NewFilePool_def split: if_splits)
  have "holds s1 golden d"
    using os_MkdirAll_file [OF surjective_pairing] assms(4) by (simp add: holds_def s1)
  then have "pool_inv golden dir d y0" by (simp add: y0 pool_inv_def)
  then have "pool_inv golden dir d y" by (rule file_cloner.reach_inv [OF assms(1,5) _ dir assms(3)])
  then obtain ns where pd: "fp_Dir (ps_pool y) = dir" "pool_disks golden (ps_pool y) ns (ps_cloned y) (ps_cloning y) d (ps_fs y)"
    using pool_inv_iff by blast
  obtain p where p: "p' = Some p" using assms(7) by (auto simp: Acquire_def split: prod.splits option.splits list.splits)
  have "holds s' dst d"
    using file_cloner.step_acquire(2) [OF assms(1) pd(2) assms(6) assms(7) [unfolded p]] pd(1) dir assms(3) by simp
  with pd assms(6) show ?thesis by (auto simp: pool_disks_def job_path_def)
qed


definition pool_fs :: fs where
  "pool_fs = \<lparr>fs_tree = [''/g'' \<mapsto> File ''G''], fs_fault = \<lambda>_. None, fs_count = 0, fs_gone = \<lambda>_ _. False\<rparr>"

lemma not_ready_path: "dir \<noteq> [] \<Longrightarrow> path_base q \<noteq> ready_name n \<Longrightarrow> path_clean q = q \<Longrightarrow> q \<noteq> path_clean (path_join [dir, ready_name n])"
  using path_base_join [OF _ ready_name_ok] path_clean_join [OF _ ready_name_ok] by metis

lemma pool_paths:
  "path_clean ''/g'' = ''/g''" "path_clean ''/j/d'' = ''/j/d''" "path_dir ''/j/d'' = ''/j''" "path_base ''/g'' = ''g''"
  "path_base ''/j/d'' = ''d''" "ancestors ''/j'' = [''/'', ''/j'']" "ancestors ''/p'' = [''/'', ''/p'']"
  by code_simp+

lemma pool_sample_apart: "golden_apart ''/g'' ''/p''" "fp_Golden p = ''/g'' \<Longrightarrow> fp_Dir p = ''/p'' \<Longrightarrow> job_path p ''/j/d''"
proof -
  have n: "''g'' \<noteq> ready_name n" "''d'' \<noteq> ready_name n" for n by (simp_all add: ready_name_def)
  show "golden_apart ''/g'' ''/p''"
    using not_ready_path [of "''/p''" "''/g''"] n pool_paths by (simp add: golden_apart_def)
  show "fp_Golden p = ''/g'' \<Longrightarrow> fp_Dir p = ''/p'' \<Longrightarrow> job_path p ''/j/d''"
    using not_ready_path [of "''/p''" "''/j/d''"] n pool_paths by (simp add: job_path_def ready_path_def)
qed

lemma copy_sample:
  "fs_tree s ''/g'' = Some (File ''G'') \<Longrightarrow> fs_tree s ''/j'' = Some Dir \<Longrightarrow> fs_tree s ''/j/d'' = None \<Longrightarrow> (\<And>n. fs_fault s n = None) \<Longrightarrow>
     snd (copyFile ''/g'' ''/j/d'' s) = None"
  by (simp add: copyFile_def os_Stat_def os_WriteFile_def os_ReadFile_def fault_now_def tick_def put_def parent_ok_def pool_paths)

theorem pool_hands_out_golden_witness:
  "\<exists>y0 s'. pool_start ''/g'' ''/p'' 2 pool_fs = Some y0
     \<and> fst (Acquire copyFile ''/j/d'' (Some (ps_pool y0)) (ps_fs y0)) = s' \<and> holds s' ''/j/d'' ''G''"
proof -
  define s1 where "s1 = fst (os_MkdirAll ''/p'' pool_fs)"
  define y0 where "y0 = \<lparr>ps_pool = \<lparr>fp_Golden = ''/g'', fp_Dir = ''/p'', fp_Size = 2, fp_seq = 0, fp_ready = []\<rparr>, ps_fs = s1,
      ps_spawned = 2, ps_cloning = [], ps_cloned = []\<rparr>"
  have st: "pool_start ''/g'' ''/p'' 2 pool_fs = Some y0"
    by (simp add: pool_start_def NewFilePool_def y0_def s1_def)
  have s1: "fs_tree s1 ''/g'' = Some (File ''G'')" "fs_tree s1 ''/j'' = None" "fs_tree s1 ''/'' = Some Dir" "fs_tree s1 ''/j/d'' = None" "fs_fault s1 n = None" for n
    by (simp_all add: s1_def pool_fs_def os_MkdirAll_def fault_now_def pool_paths tick_def)
  obtain s2 where mk: "os_MkdirAll ''/j'' s1 = (s2, None)"
    and s2: "fs_tree s2 ''/g'' = Some (File ''G'')" "fs_tree s2 ''/j'' = Some Dir" "fs_tree s2 ''/j/d'' = None" "fs_fault s2 n = None" for n
    by (simp add: os_MkdirAll_def fault_now_def pool_paths tick_def s1)
  obtain s3 where cl: "cloneFile copyFile ''/g'' ''/j/d'' s2 = (s3, None)"
    using copy_sample [OF s2] by (cases "copyFile ''/g'' ''/j/d'' s2") (simp add: cloneFile_def)
  have ac: "Acquire copyFile ''/j/d'' (Some (ps_pool y0)) (ps_fs y0) = (s3, Some (ps_pool y0), False, None)"
    by (simp add: Acquire_def y0_def pool_paths mk cl)
  have "holds s3 ''/j/d'' ''G''"
    using pool_hands_out_golden [OF user_copy.file_cloner_axioms st pool_sample_apart(1) _ rtranclp.rtrancl_refl _ ac, of "''G''"]
      pool_sample_apart(2) [of "ps_pool y0"] by (simp add: holds_def pool_fs_def pool_paths y0_def)
  with st ac show ?thesis by (intro exI [of _ y0] exI [of _ s3]) simp
qed

end
