(* ===== verification/Resources.thy ===== *)
theory Resources
  imports Warden_Prelude
begin

text \<open>
  Package \<open>internal/resources\<close>, files \<open>profile.go\<close> and \<open>apply.go\<close>: the cgroup budget of a
  sandbox, the seccomp profile, their validation, the loaders and the two limiters. The
  interface \<open>resources.Limiter\<close> that the API calls before it boots anything is the locale
  \<open>limiter\<close>; both implementations are interpretations of it, and only \<open>ProfileLimiter\<close> is
  one of the stricter \<open>strict_limiter\<close>.
\<close>

section \<open>Profiles\<close>

record profile =
  CPUQuotaUs :: int
  CPUPeriodUs :: int
  MemoryBytes :: int
  PIDsMax :: int
  DiskBytes :: int

record seccomp_syscall =
  sc_Action :: string
  sc_Names :: "string list"

record seccomp_profile =
  DefaultAction :: string
  Architectures :: "string list"
  Syscalls :: "seccomp_syscall list"

definition DefaultProfile :: profile where
  "DefaultProfile = \<lparr>CPUQuotaUs = 100000, CPUPeriodUs = 100000, MemoryBytes = 256 * 2 ^ 20,
     PIDsMax = 64, DiskBytes = 2 ^ 30\<rparr>"

definition Profile_Validate :: "profile \<Rightarrow> gerr option" where
  "Profile_Validate p =
     (if CPUQuotaUs p \<le> 0 \<or> CPUPeriodUs p \<le> 0 then
        Some (Errorf ''cpu quota and period must be > 0'' [])
      else if MemoryBytes p < 16 * 2 ^ 20 then
        Some (Errorf ''memory_bytes must be at least 16MiB'' [])
      else if PIDsMax p < 1 then Some (Errorf ''pids_max must be at least 1'' [])
      else if DiskBytes p < 2 ^ 20 then Some (Errorf ''disk_bytes must be at least 1MiB'' [])
      else None)"

definition Seccomp_Validate :: "seccomp_profile \<Rightarrow> gerr option" where
  "Seccomp_Validate s =
     (if DefaultAction s = [] then Some (Errorf ''default_action is required'' [])
      else if DefaultAction s \<noteq> ''SCMP_ACT_ERRNO'' \<and> DefaultAction s \<noteq> ''SCMP_ACT_KILL''
          \<and> DefaultAction s \<noteq> ''SCMP_ACT_KILL_PROCESS'' then
        Some (Errorf ''default_action %q is not fail-closed'' [DefaultAction s])
      else if Syscalls s = [] then Some (Errorf ''at least one syscall rule is required'' [])
      else None)"

text \<open>
  \<open>decodeJSONFile\<close> reads a file and unmarshals it into a destination that already holds
  defaults: a member the document lacks keeps its default. The file and the JSON text enter
  as what reading and parsing them gives.
\<close>

datatype 'd json_file = ReadError gerr | ParseError gerr | Document 'd

record profile_doc =
  doc_cpu_quota_us :: "int option"
  doc_cpu_period_us :: "int option"
  doc_memory_bytes :: "int option"
  doc_pids_max :: "int option"
  doc_disk_bytes :: "int option"

definition or_default :: "'a option \<Rightarrow> 'a \<Rightarrow> 'a" where
  "or_default v d = (case v of None \<Rightarrow> d | Some x \<Rightarrow> x)"

definition decodeJSONFile :: "string \<Rightarrow> 'd json_file \<Rightarrow> ('d \<Rightarrow> 'a) \<Rightarrow> 'a res" where
  "decodeJSONFile path f overlay = (case f of
       ReadError e \<Rightarrow> Inl (Wrapf ''read %s: %w'' [path] e)
     | ParseError e \<Rightarrow> Inl (Wrapf ''parse %s: %w'' [path] e)
     | Document d \<Rightarrow> Inr (overlay d))"

definition overlay_profile :: "profile \<Rightarrow> profile_doc \<Rightarrow> profile" where
  "overlay_profile p d =
     \<lparr>CPUQuotaUs = or_default (doc_cpu_quota_us d) (CPUQuotaUs p),
      CPUPeriodUs = or_default (doc_cpu_period_us d) (CPUPeriodUs p),
      MemoryBytes = or_default (doc_memory_bytes d) (MemoryBytes p),
      PIDsMax = or_default (doc_pids_max d) (PIDsMax p),
      DiskBytes = or_default (doc_disk_bytes d) (DiskBytes p)\<rparr>"

definition LoadProfile :: "string \<Rightarrow> profile_doc json_file \<Rightarrow> profile res" where
  "LoadProfile path f = (case decodeJSONFile path f (overlay_profile DefaultProfile) of
       Inl e \<Rightarrow> Inl e
     | Inr p \<Rightarrow> (case Profile_Validate p of
           Some e \<Rightarrow> Inl (Wrapf ''invalid cgroups profile %s: %w'' [path] e)
         | None \<Rightarrow> Inr p))"

definition LoadSeccomp :: "string \<Rightarrow> seccomp_profile json_file \<Rightarrow> seccomp_profile res" where
  "LoadSeccomp path f = (case decodeJSONFile path f id of
       Inl e \<Rightarrow> Inl e
     | Inr s \<Rightarrow> (case Seccomp_Validate s of
           Some e \<Rightarrow> Inl (Wrapf ''seccomp profile %s: %w'' [path] e)
         | None \<Rightarrow> Inr s))"

section \<open>Limiters\<close>

definition ProfileLimiter_Apply :: "string \<Rightarrow> profile \<Rightarrow> seccomp_profile \<Rightarrow> gerr option" where
  "ProfileLimiter_Apply target p s = (case Profile_Validate p of
       Some e \<Rightarrow> Some (Wrapf ''apply limits to %s: %w'' [target] e)
     | None \<Rightarrow> (case Seccomp_Validate s of
           Some e \<Rightarrow> Some (Wrapf ''apply seccomp for %s: %w'' [target] e)
         | None \<Rightarrow> None))"

definition NoopLimiter_Apply :: "string \<Rightarrow> profile \<Rightarrow> seccomp_profile \<Rightarrow> gerr option" where
  "NoopLimiter_Apply target p s = (case Profile_Validate p of
       Some e \<Rightarrow> Some (Wrapf ''apply limits to %s: %w'' [target] e)
     | None \<Rightarrow> None)"

section \<open>What validation guarantees\<close>

definition fail_closed_actions :: "string set" where
  "fail_closed_actions = {''SCMP_ACT_ERRNO'', ''SCMP_ACT_KILL'', ''SCMP_ACT_KILL_PROCESS''}"

definition enforceable :: "profile \<Rightarrow> bool" where
  "enforceable p = (0 < CPUQuotaUs p \<and> 0 < CPUPeriodUs p \<and> 16 * 2 ^ 20 \<le> MemoryBytes p
     \<and> 1 \<le> PIDsMax p \<and> 2 ^ 20 \<le> DiskBytes p)"

definition denies_by_default :: "seccomp_profile \<Rightarrow> bool" where
  "denies_by_default s = (DefaultAction s \<in> fail_closed_actions \<and> Syscalls s \<noteq> [])"

lemma Profile_Validate_None: "Profile_Validate p = None \<longleftrightarrow> enforceable p"
  by (auto simp: Profile_Validate_def enforceable_def)

lemma Seccomp_Validate_None: "Seccomp_Validate s = None \<longleftrightarrow> denies_by_default s"
  by (auto simp: Seccomp_Validate_def denies_by_default_def fail_closed_actions_def)

lemmas validate_iff = Profile_Validate_None Seccomp_Validate_None

section \<open>The limiter interface\<close>

locale limiter =
  fixes apply_limits :: "string \<Rightarrow> profile \<Rightarrow> seccomp_profile \<Rightarrow> gerr option"
  assumes refuses_bad_profile: "apply_limits t p s = None \<Longrightarrow> enforceable p"
begin

lemma accepted_memory: "apply_limits t p s = None \<Longrightarrow> 16 * 2 ^ 20 \<le> MemoryBytes p"
  using refuses_bad_profile by (auto simp: enforceable_def)

lemma refuses: "\<not> enforceable p \<Longrightarrow> \<exists>e. apply_limits t p s = Some e"
  using refuses_bad_profile by (cases "apply_limits t p s") auto

end

locale strict_limiter = limiter +
  assumes refuses_open_seccomp: "apply_limits t p s = None \<Longrightarrow> denies_by_default s"
begin

lemma accepted_iff:
  assumes complete: "\<And>t p s. enforceable p \<Longrightarrow> denies_by_default s \<Longrightarrow> apply_limits t p s = None"
  shows "apply_limits t p s = None \<longleftrightarrow> enforceable p \<and> denies_by_default s"
  using refuses_bad_profile refuses_open_seccomp complete by blast

end

interpretation noop: limiter NoopLimiter_Apply
  by unfold_locales (auto simp: NoopLimiter_Apply_def validate_iff split: option.splits)

interpretation profile_limiter: strict_limiter ProfileLimiter_Apply
  by unfold_locales (auto simp: ProfileLimiter_Apply_def validate_iff split: option.splits)

lemma ProfileLimiter_accepts:
  "enforceable p \<Longrightarrow> denies_by_default s \<Longrightarrow> ProfileLimiter_Apply t p s = None"
  by (simp add: ProfileLimiter_Apply_def validate_iff [THEN iffD2])

text \<open>What the loaders return is validated, so the process never starts on an open profile.\<close>

lemma LoadProfile_enforceable: "LoadProfile path f = Inr p \<Longrightarrow> enforceable p"
  by (auto simp: LoadProfile_def validate_iff split: sum.splits option.splits)

lemma LoadSeccomp_denies: "LoadSeccomp path f = Inr s \<Longrightarrow> denies_by_default s"
  by (auto simp: LoadSeccomp_def validate_iff split: sum.splits option.splits)

lemma enforceable_DefaultProfile: "enforceable DefaultProfile"
  by (simp add: enforceable_def DefaultProfile_def)

end
