(* ===== verification/Net_Policy.thy ===== *)
theory Net_Policy
  imports Go_Net Resources
begin

text \<open>
  Package \<open>internal/network\<close>, file \<open>policy.go\<close>: the egress policy, its validation and
  the in-process filter. The interface \<open>network.Filter\<close> is the locale \<open>egress_filter\<close>,
  which \<open>StaticFilter\<close> implements.
\<close>

section \<open>The policy\<close>

definition PolicyDeny :: string where "PolicyDeny = ''deny''"
definition PolicyAllow :: string where "PolicyAllow = ''allow''"

record policy =
  DefaultPolicy :: string
  Allowlist :: "string list"

definition Default :: policy where
  "Default = \<lparr>DefaultPolicy = PolicyDeny, Allowlist = []\<rparr>"

text \<open>The loop over the allowlist; \<open>i\<close> is the index of the head.\<close>

fun empty_entry :: "nat \<Rightarrow> string list \<Rightarrow> gerr option" where
  "empty_entry i [] = None"
| "empty_entry i (entry # es) =
     (if trim_space entry = [] then Some (Errorf ''allowlist[%d] is empty'' [nat_dec i])
      else empty_entry (Suc i) es)"

definition Policy_Validate :: "policy \<Rightarrow> gerr option" where
  "Policy_Validate p =
     (if DefaultPolicy p = PolicyDeny then empty_entry 0 (Allowlist p)
      else if DefaultPolicy p = PolicyAllow then
        Some (Errorf ''default_policy %q is not allowed; Warden is fail-closed'' [DefaultPolicy p])
      else Some (Errorf ''default_policy %q is unknown'' [DefaultPolicy p]))"

record policy_doc =
  doc_default_policy :: "string option"
  doc_allowlist :: "string list option"

definition overlay_policy :: "policy \<Rightarrow> policy_doc \<Rightarrow> policy" where
  "overlay_policy p d =
     \<lparr>DefaultPolicy = or_default (doc_default_policy d) (DefaultPolicy p),
      Allowlist = or_default (doc_allowlist d) (Allowlist p)\<rparr>"

definition Load :: "string \<Rightarrow> policy_doc json_file \<Rightarrow> policy res" where
  "Load path f = (case f of
       ReadError e \<Rightarrow> Inl (Wrapf ''read egress policy %s: %w'' [path] e)
     | ParseError e \<Rightarrow> Inl (Wrapf ''parse egress policy %s: %w'' [path] e)
     | Document d \<Rightarrow>
         (let p = overlay_policy Default d in
          case Policy_Validate p of
            Some e \<Rightarrow> Inl (Wrapf ''invalid egress policy %s: %w'' [path] e)
          | None \<Rightarrow> Inr p))"

section \<open>The static filter\<close>

record static_filter = sf_policy :: policy

definition NewStaticFilter :: "policy \<Rightarrow> static_filter res" where
  "NewStaticFilter p = (case Policy_Validate p of
       Some e \<Rightarrow> Inl e
     | None \<Rightarrow> Inr \<lparr>sf_policy = p\<rparr>)"

definition StaticFilter_Policy :: "static_filter \<Rightarrow> policy" where
  "StaticFilter_Policy f = sf_policy f"

definition Allows :: "unicode_tables \<Rightarrow> static_filter \<Rightarrow> string \<Rightarrow> bool" where
  "Allows u f hostport0 =
     (let hostport = trim_space (to_lower u hostport0) in
      if hostport = [] then False
      else let host = (case split_host_port hostport of None \<Rightarrow> hostport | Some (h, _) \<Rightarrow> h) in
        list_ex (\<lambda>raw.
          let entry = trim_space (to_lower u raw) in
          entry = hostport \<or> entry = host
          \<or> (case split_host_port entry of
               None \<Rightarrow> False
             | Some (entryHost, _) \<Rightarrow> entryHost = host \<or> entry = hostport))
          (Allowlist (sf_policy f)))"

section \<open>Facts\<close>

lemma empty_entry_None: "empty_entry i es = None \<longleftrightarrow> (\<forall>e \<in> set es. trim_space e \<noteq> [])"
  by (induction i es rule: empty_entry.induct) auto

lemma Policy_Validate_None:
  "Policy_Validate p = None \<longleftrightarrow>
     DefaultPolicy p = PolicyDeny \<and> (\<forall>e \<in> set (Allowlist p). trim_space e \<noteq> [])"
  by (auto simp: Policy_Validate_def empty_entry_None)

lemma Policy_Validate_Default [simp]: "Policy_Validate Default = None"
  by (simp add: Policy_Validate_def Default_def)

lemma NewStaticFilter_Inr:
  "NewStaticFilter p = Inr f \<longleftrightarrow> Policy_Validate p = None \<and> f = \<lparr>sf_policy = p\<rparr>"
  by (auto simp: NewStaticFilter_def split: option.splits)

lemma Load_validated: "Load path f = Inr p \<Longrightarrow> Policy_Validate p = None"
  by (auto simp: Load_def Let_def split: json_file.splits option.splits)

text \<open>
  The host part that \<open>Allows\<close> compares. Ports play no part in the comparison: an entry that
  names a port admits the host on every port.
\<close>

definition norm_dest :: "unicode_tables \<Rightarrow> string \<Rightarrow> string" where
  "norm_dest u s = trim_space (to_lower u s)"

definition host_part :: "string \<Rightarrow> string" where
  "host_part s = (case split_host_port s of None \<Rightarrow> s | Some (h, _) \<Rightarrow> h)"

lemma Allows_host:
  "Allows u f hp \<longleftrightarrow> norm_dest u hp \<noteq> [] \<and>
     (\<exists>raw \<in> set (Allowlist (sf_policy f)).
        norm_dest u raw = host_part (norm_dest u hp)
        \<or> host_part (norm_dest u raw) = host_part (norm_dest u hp))"
proof -
  have entry: "(e = d \<or> e = host_part d \<or> (case split_host_port e of None \<Rightarrow> False
        | Some (eh, _) \<Rightarrow> eh = host_part d \<or> e = d))
      \<longleftrightarrow> e = host_part d \<or> host_part e = host_part d" for e d
    by (cases "split_host_port e") (auto simp: host_part_def)
  have "Allows u f hp \<longleftrightarrow> norm_dest u hp \<noteq> [] \<and>
     (\<exists>raw \<in> set (Allowlist (sf_policy f)).
       norm_dest u raw = norm_dest u hp \<or> norm_dest u raw = host_part (norm_dest u hp)
       \<or> (case split_host_port (norm_dest u raw) of None \<Rightarrow> False
          | Some (eh, _) \<Rightarrow> eh = host_part (norm_dest u hp) \<or> norm_dest u raw = norm_dest u hp))"
    unfolding Allows_def Let_def norm_dest_def host_part_def list_ex_iff by simp
  then show ?thesis by (simp only: entry)
qed

section \<open>The filter interface\<close>

locale egress_filter =
  fixes policy_of :: "'f \<Rightarrow> policy"
    and allows :: "unicode_tables \<Rightarrow> 'f \<Rightarrow> string \<Rightarrow> bool"
    and valid :: "'f \<Rightarrow> bool"
  assumes closed: "valid f \<Longrightarrow> Policy_Validate (policy_of f) = None"
    and listed_only: "valid f \<Longrightarrow> allows u f h \<Longrightarrow>
      \<exists>raw \<in> set (Allowlist (policy_of f)).
        host_part (norm_dest u h) \<in> {norm_dest u raw, host_part (norm_dest u raw)}"
begin

lemma empty_denies: "valid f \<Longrightarrow> Allowlist (policy_of f) = [] \<Longrightarrow> \<not> allows u f h"
  using listed_only by fastforce

lemma deny_default: "valid f \<Longrightarrow> DefaultPolicy (policy_of f) = PolicyDeny"
  using closed by (simp add: Policy_Validate_None)

end

interpretation static: egress_filter StaticFilter_Policy Allows
    "\<lambda>f. NewStaticFilter (sf_policy f) = Inr f"
proof unfold_locales
  fix f :: static_filter
  assume "NewStaticFilter (sf_policy f) = Inr f"
  then show "Policy_Validate (StaticFilter_Policy f) = None"
    by (simp add: NewStaticFilter_Inr StaticFilter_Policy_def)
next
  fix u f h
  assume "Allows u f h"
  then show "\<exists>raw \<in> set (Allowlist (StaticFilter_Policy f)).
      host_part (norm_dest u h) \<in> {norm_dest u raw, host_part (norm_dest u raw)}"
    unfolding Allows_host StaticFilter_Policy_def by (metis insertCI)
qed

end
