(* ===== verification/Runtime_Iface.thy ===== *)
theory Runtime_Iface
  imports Net_Policy
begin

text \<open>
  Package \<open>internal/runtime\<close>, file \<open>runtime.go\<close>: the isolation boundary. A runtime is a
  record of operations on its state; an instance is a handle. The locale \<open>vm_runtime\<close> states
  what the API relies on: which instances are live after each operation. A Go call that may
  panic returns \<open>Panic\<close>. A context is its deadline, in nanoseconds of the runtime's clock.
\<close>

section \<open>Types\<close>

definition LangPython :: string where "LangPython = ''python''"
definition LangNode :: string where "LangNode = ''node''"

record spec =
  sp_Language :: string
  sp_SessionID :: string
  sp_Limits :: profile
  sp_Seccomp :: seccomp_profile
  sp_Network :: policy

record exec_request =
  xr_Code :: string
  xr_Timeout :: int

record exec_result =
  rs_Stdout :: string
  rs_Stderr :: string
  rs_ExitCode :: int
  rs_VMID :: string
  rs_TimedOut :: bool

definition zero_result :: exec_result where
  "zero_result = \<lparr>rs_Stdout = [], rs_Stderr = [], rs_ExitCode = 0, rs_VMID = [], rs_TimedOut = False\<rparr>"

definition Supported :: "string \<Rightarrow> bool" where
  "Supported language = (language = LangPython \<or> language = LangNode)"

abbreviation ErrNotImplemented :: gerr where
  "ErrNotImplemented \<equiv> Sentinel ''runtime.ErrNotImplemented''"
abbreviation ErrMissingAssets :: gerr where
  "ErrMissingAssets \<equiv> Sentinel ''runtime.ErrMissingAssets''"
abbreviation ErrBusy :: gerr where
  "ErrBusy \<equiv> Sentinel ''runtime.ErrBusy''"
abbreviation DeadlineExceeded :: gerr where
  "DeadlineExceeded \<equiv> Sentinel ''context.DeadlineExceeded''"
abbreviation Canceled :: gerr where
  "Canceled \<equiv> Sentinel ''context.Canceled''"

text \<open>A context: its deadline, and whether its parent has been cancelled.\<close>

record context_t =
  cx_deadline :: "int option"
  cx_cancelled :: bool

definition Background :: context_t where
  "Background = \<lparr>cx_deadline = None, cx_cancelled = False\<rparr>"

definition with_timeout :: "int \<Rightarrow> int \<Rightarrow> context_t \<Rightarrow> context_t" where
  "with_timeout now d c = c\<lparr>cx_deadline := (case cx_deadline c of
       None \<Rightarrow> Some (now + d)
     | Some t \<Rightarrow> Some (min t (now + d)))\<rparr>"

definition ctx_err :: "int \<Rightarrow> context_t \<Rightarrow> gerr option" where
  "ctx_err now c =
     (if cx_cancelled c then Some Canceled
      else case cx_deadline c of
          None \<Rightarrow> None
        | Some t \<Rightarrow> if t \<le> now then Some DeadlineExceeded else None)"

datatype 'a call = Ret 'a | Panic string

text \<open>The operations of \<open>Runtime\<close> and \<open>Instance\<close>, with the clock.\<close>

record ('r, 'i) runtime_ops =
  rt_Name :: string
  rt_Boot :: "context_t \<Rightarrow> spec \<Rightarrow> 'r \<Rightarrow> 'r \<times> 'i res call"
  rt_ID :: "'i \<Rightarrow> 'r \<Rightarrow> string"
  rt_Execute :: "context_t \<Rightarrow> 'i \<Rightarrow> exec_request \<Rightarrow> 'r \<Rightarrow> 'r \<times> (exec_result \<times> gerr option) call"
  rt_Destroy :: "context_t \<Rightarrow> 'i \<Rightarrow> 'r \<Rightarrow> 'r \<times> gerr option"
  rt_Ready :: "('r \<Rightarrow> gerr option) option"
  rt_now :: "'r \<Rightarrow> int"

section \<open>The contract\<close>

text \<open>
  \<open>inv\<close> is the invariant of the runtime's state, \<open>known\<close> the instances it has ever handed
  out, \<open>live\<close> those that hold resources. Only a successful boot adds an instance, and a new
  one; only \<open>Destroy\<close> of it makes it dead.
\<close>

locale vm_runtime =
  fixes ops :: "('r, 'i) runtime_ops" and inv :: "'r \<Rightarrow> bool"
    and known :: "'r \<Rightarrow> 'i set" and live :: "'r \<Rightarrow> 'i set"
  assumes live_known: "inv r \<Longrightarrow> live r \<subseteq> known r"
    and boot_inv: "inv r \<Longrightarrow> inv (fst (rt_Boot ops c s r))"
    and boot_ok: "inv r \<Longrightarrow> rt_Boot ops c s r = (r', Ret (Inr i)) \<Longrightarrow>
      i \<notin> known r \<and> known r' = insert i (known r) \<and> live r' = insert i (live r)"
    and boot_fail: "inv r \<Longrightarrow> rt_Boot ops c s r = (r', x) \<Longrightarrow> (\<forall>i. x \<noteq> Ret (Inr i)) \<Longrightarrow>
      known r' = known r \<and> live r' = live r"
    and exec_inv: "inv r \<Longrightarrow> inv (fst (rt_Execute ops c i q r))"
    and exec_keeps: "inv r \<Longrightarrow> known (fst (rt_Execute ops c i q r)) = known r
      \<and> live (fst (rt_Execute ops c i q r)) = live r"
    and destroy_inv: "inv r \<Longrightarrow> inv (fst (rt_Destroy ops c i r))"
    and destroy_dead: "inv r \<Longrightarrow> known (fst (rt_Destroy ops c i r)) = known r
      \<and> live (fst (rt_Destroy ops c i r)) = live r - {i}"
begin

lemma boot_exec_destroy:
  assumes "inv r" and "rt_Boot ops c s r = (r1, Ret (Inr i))"
  shows "live (fst (rt_Destroy ops c'' i (fst (rt_Execute ops c' i q r1)))) = live r"
    and "inv (fst (rt_Destroy ops c'' i (fst (rt_Execute ops c' i q r1))))"
proof -
  have b: "inv r1" "live r1 = insert i (live r)" "i \<notin> live r"
    using boot_inv [OF assms(1), of c s] boot_ok [OF assms] assms live_known by auto
  have e: "inv (fst (rt_Execute ops c' i q r1))" "live (fst (rt_Execute ops c' i q r1)) = insert i (live r)"
    using exec_inv exec_keeps b by auto
  then show "live (fst (rt_Destroy ops c'' i (fst (rt_Execute ops c' i q r1)))) = live r"
    using destroy_dead b(3) by auto
  show "inv (fst (rt_Destroy ops c'' i (fst (rt_Execute ops c' i q r1))))"
    using destroy_inv e(1) by blast
qed

end

end
