(* ===== verification/FC_Config.thy ===== *)
theory FC_Config
  imports Guest_Proto Disk_Pool Runtime_Iface
begin

text \<open>
  Files \<open>config.go\<close> and \<open>jailer.go\<close> of \<open>internal/runtime\<close>: the settings of the Firecracker
  backend, read from a JSON file over the defaults and overlaid by the environment, and the
  chroot tree and command line of the jailer. The JSON text is parsed by \<open>Go_Json\<close>; the
  environment, the working directory, the current user and \<open>time.ParseDuration\<close> are
  parameters. The interface-valued fields of \<open>Config\<close> (\<open>Cgroup\<close>, \<open>Tap\<close>, \<open>Snapshots\<close>,
  \<open>Pool\<close>) are not part of this record: they belong to the backend.
\<close>

section \<open>Configuration\<close>

record fc_config =
  fc_Binary :: string
  fc_Kernel :: string
  fc_Rootfs :: string
  fc_WorkDir :: string
  fc_BootArgs :: string
  fc_AgentPort :: nat
  fc_BootTimeout :: int
  fc_VCPUCount :: int
  fc_Jailer :: string
  fc_JailerUID :: int
  fc_JailerGID :: int
  fc_JailerSudo :: bool
  fc_JailerCgroup :: bool
  fc_NewPIDNS :: bool
  fc_SnapshotDir :: string
  fc_RootfsPoolSize :: int

definition defaultBootArgs :: string where
  "defaultBootArgs = ''console=ttyS0 reboot=k panic=1 pci=off init=/usr/local/bin/guest-agent''"

definition DefaultConfig :: fc_config where
  "DefaultConfig =
     \<lparr>fc_Binary = ''assets/firecracker'', fc_Kernel = ''assets/vmlinux'', fc_Rootfs = ''assets/rootfs.ext4'',
      fc_WorkDir = ''data/vms'', fc_BootArgs = defaultBootArgs, fc_AgentPort = DefaultPort,
      fc_BootTimeout = 20000000000, fc_VCPUCount = 1, fc_Jailer = [], fc_JailerUID = 0, fc_JailerGID = 0,
      fc_JailerSudo = False, fc_JailerCgroup = False, fc_NewPIDNS = False, fc_SnapshotDir = ''data/snapshots'',
      fc_RootfsPoolSize = 0\<rparr>"

text \<open>
  \<open>json.Unmarshal\<close> into a \<open>uint32\<close>, and into a field of an interface type, which only null fits.
\<close>

definition into_uint32 :: "(nat \<Rightarrow> 'a \<Rightarrow> 'a) \<Rightarrow> json \<Rightarrow> 'a \<Rightarrow> 'a option" where
  "into_uint32 f j x = (case j of
       JNum l \<Rightarrow> if all_digits l \<and> dec_val l < 2 ^ 32 then Some (f (dec_val l) x) else None
     | JNull \<Rightarrow> Some x
     | _ \<Rightarrow> None)"

definition into_iface :: "json \<Rightarrow> 'a \<Rightarrow> 'a option" where
  "into_iface j x = (if j = JNull then Some x else None)"

definition config_setters :: "fc_config setters" where
  "config_setters =
     [(''binary'', into_string (\<lambda>v c. c\<lparr>fc_Binary := v\<rparr>)),
      (''kernel'', into_string (\<lambda>v c. c\<lparr>fc_Kernel := v\<rparr>)),
      (''rootfs'', into_string (\<lambda>v c. c\<lparr>fc_Rootfs := v\<rparr>)),
      (''work_dir'', into_string (\<lambda>v c. c\<lparr>fc_WorkDir := v\<rparr>)),
      (''boot_args'', into_string (\<lambda>v c. c\<lparr>fc_BootArgs := v\<rparr>)),
      (''agent_port'', into_uint32 (\<lambda>v c. c\<lparr>fc_AgentPort := v\<rparr>)),
      (''vcpu_count'', into_int (\<lambda>v c. c\<lparr>fc_VCPUCount := v\<rparr>)),
      (''jailer'', into_string (\<lambda>v c. c\<lparr>fc_Jailer := v\<rparr>)),
      (''jailer_uid'', into_int (\<lambda>v c. c\<lparr>fc_JailerUID := v\<rparr>)),
      (''jailer_gid'', into_int (\<lambda>v c. c\<lparr>fc_JailerGID := v\<rparr>)),
      (''jailer_sudo'', into_bool (\<lambda>v c. c\<lparr>fc_JailerSudo := v\<rparr>)),
      (''jailer_cgroup'', into_bool (\<lambda>v c. c\<lparr>fc_JailerCgroup := v\<rparr>)),
      (''new_pid_ns'', into_bool (\<lambda>v c. c\<lparr>fc_NewPIDNS := v\<rparr>)),
      (''snapshot_dir'', into_string (\<lambda>v c. c\<lparr>fc_SnapshotDir := v\<rparr>)),
      (''rootfs_pool_size'', into_int (\<lambda>v c. c\<lparr>fc_RootfsPoolSize := v\<rparr>)),
      (''Cgroup'', into_iface), (''Tap'', into_iface), (''Snapshots'', into_iface), (''Pool'', into_iface)]"

text \<open>\<open>json.Unmarshal\<close>: one value and nothing but blanks after it.\<close>

definition json_unmarshal :: "'a setters \<Rightarrow> string \<Rightarrow> 'a \<Rightarrow> 'a option" where
  "json_unmarshal fs s x = (case json_decode s of
       None \<Rightarrow> None
     | Some (j, r) \<Rightarrow> if list_all json_space r then decode_struct fs x j else None)"

text \<open>
  \<open>fmt.Sscanf(v, "%d", &x)\<close>: blanks other than a newline, an optional sign and digits; what
  follows is ignored, and \<open>x\<close> keeps its value when there are none or they do not fit.
\<close>

definition sscanf_d :: "string \<Rightarrow> int \<Rightarrow> int" where
  "sscanf_d v x =
     (let s = strip (filter (\<lambda>p. p \<noteq> [CHR 0x0A]) space_encodings) v;
          neg = (s \<noteq> [] \<and> hd s = CHR ''-'');
          t = (if s \<noteq> [] \<and> (hd s = CHR ''-'' \<or> hd s = CHR ''+'') then tl s else s);
          ds = takeWhile is_dec t;
          i = (if neg then - int (dec_val ds) else int (dec_val ds))
      in if ds \<noteq> [] \<and> fits64 i then i else x)"

record go_env =
  ge_Getenv :: "string \<Rightarrow> string"
  ge_ParseDuration :: "string \<Rightarrow> int option"
  ge_Getwd :: "string res"
  ge_User :: "(string \<times> string) res"

definition env_string :: "go_env \<Rightarrow> string \<Rightarrow> string \<Rightarrow> string" where
  "env_string g k x = (if ge_Getenv g k \<noteq> [] then ge_Getenv g k else x)"

definition env_int :: "go_env \<Rightarrow> string \<Rightarrow> int \<Rightarrow> int" where
  "env_int g k x = (if ge_Getenv g k \<noteq> [] then sscanf_d (ge_Getenv g k) x else x)"

definition env_flag :: "go_env \<Rightarrow> string \<Rightarrow> bool \<Rightarrow> bool" where
  "env_flag g k x = (ge_Getenv g k = ''1'' \<or> x)"

definition env_duration :: "go_env \<Rightarrow> string \<Rightarrow> int \<Rightarrow> int" where
  "env_duration g k x =
     (if ge_Getenv g k \<noteq> [] then (case ge_ParseDuration g (ge_Getenv g k) of Some d \<Rightarrow> d | None \<Rightarrow> x) else x)"

definition overlayEnv :: "go_env \<Rightarrow> fc_config \<Rightarrow> fc_config" where
  "overlayEnv g c = c
     \<lparr>fc_Binary := env_string g ''WARDEN_FC_BINARY'' (fc_Binary c),
      fc_Kernel := env_string g ''WARDEN_FC_KERNEL'' (fc_Kernel c),
      fc_Rootfs := env_string g ''WARDEN_FC_ROOTFS'' (fc_Rootfs c),
      fc_WorkDir := env_string g ''WARDEN_FC_WORKDIR'' (fc_WorkDir c),
      fc_BootTimeout := env_duration g ''WARDEN_BOOT_TIMEOUT'' (fc_BootTimeout c),
      fc_Jailer := env_string g ''WARDEN_JAILER'' (fc_Jailer c),
      fc_JailerUID := env_int g ''WARDEN_JAILER_UID'' (fc_JailerUID c),
      fc_JailerGID := env_int g ''WARDEN_JAILER_GID'' (fc_JailerGID c),
      fc_JailerSudo := env_flag g ''WARDEN_JAILER_SUDO'' (fc_JailerSudo c),
      fc_JailerCgroup := env_flag g ''WARDEN_JAILER_CGROUP'' (fc_JailerCgroup c),
      fc_NewPIDNS := env_flag g ''WARDEN_JAILER_NEWPID'' (fc_NewPIDNS c),
      fc_SnapshotDir := env_string g ''WARDEN_SNAPSHOT_DIR'' (fc_SnapshotDir c),
      fc_RootfsPoolSize := env_int g ''WARDEN_ROOTFS_POOL'' (fc_RootfsPoolSize c)\<rparr>"

definition fill_defaults :: "fc_config \<Rightarrow> fc_config" where
  "fill_defaults c = c
     \<lparr>fc_AgentPort := (if fc_AgentPort c = 0 then DefaultPort else fc_AgentPort c),
      fc_BootArgs := (if fc_BootArgs c = [] then defaultBootArgs else fc_BootArgs c),
      fc_VCPUCount := (if fc_VCPUCount c \<le> 0 then 1 else fc_VCPUCount c),
      fc_BootTimeout := (if fc_BootTimeout c \<le> 0 then 20000000000 else fc_BootTimeout c)\<rparr>"

definition default_workdir :: "fc_config \<Rightarrow> fc_config" where
  "default_workdir c = c\<lparr>fc_WorkDir := (if fc_WorkDir c = [] then ''data/vms'' else fc_WorkDir c)\<rparr>"

definition LoadConfig :: "go_env \<Rightarrow> string \<Rightarrow> fs \<Rightarrow> fs \<times> fc_config res" where
  "LoadConfig g path s =
     (let (s1, file) = (if path = [] then (s, Inl ErrNotExist) else os_ReadFile path s);
          finish = (\<lambda>c. Inr (default_workdir (fill_defaults (overlayEnv g c))))
      in (s1, case file of
           Inl e \<Rightarrow>
             if IsNotExist e then finish DefaultConfig
             else Inl (Wrapf ''read firecracker config %s: %w'' [path] e)
         | Inr data \<Rightarrow> (case json_unmarshal config_setters data DefaultConfig of
             None \<Rightarrow> Inl (Wrapf ''parse firecracker config %s: %w'' [path] (Errorf ''json'' []))
           | Some c \<Rightarrow> finish c)))"

fun check_assets :: "(string \<times> string) list \<Rightarrow> fs \<Rightarrow> fs \<times> gerr option" where
  "check_assets [] s = (s, None)"
| "check_assets ((name, path) # ps) s =
     (if path = [] then (s, Some (Wrapf ''%w: %s path is empty'' [name] ErrMissingAssets))
      else (case os_Stat path s of
          (s1, Inl e) \<Rightarrow> (s1, Some (Wrapf ''%w: %s %s: %v'' [name, path] ErrMissingAssets))
        | (s1, Inr Dir) \<Rightarrow> (s1, Some (Wrapf ''%w: %s %s is a directory'' [name, path] ErrMissingAssets))
        | (s1, Inr (File _)) \<Rightarrow> check_assets ps s1))"

definition Config_Validate :: "fc_config \<Rightarrow> fs \<Rightarrow> fs \<times> gerr option" where
  "Config_Validate c s =
     check_assets ([(''binary'', fc_Binary c), (''kernel'', fc_Kernel c), (''rootfs'', fc_Rootfs c)]
                   @ (if fc_Jailer c \<noteq> [] then [(''jailer'', fc_Jailer c)] else [])) s"

definition absPath :: "go_env \<Rightarrow> string \<Rightarrow> string" where
  "absPath g p =
     (if p = [] \<or> is_abs p then p
      else (case ge_Getwd g of Inl _ \<Rightarrow> p | Inr wd \<Rightarrow> path_join [wd, p]))"

section \<open>The jailer\<close>

record jailLayout =
  jl_ID :: string
  jl_ExecName :: string
  jl_ChrootBase :: string
  jl_JailDir :: string
  jl_Root :: string

definition validateJailerID :: "string \<Rightarrow> gerr option" where
  "validateJailerID jid =
     (if jid = [] \<or> length jid > 64 then Some (Errorf ''jailer id %q: must be 1-64 chars'' [jid])
      else if list_all (\<lambda>r. alnum r \<or> r = 45) (runes jid) then None
      else Some (Errorf ''jailer id %q: only letters, digits and - are allowed'' [jid]))"

definition newJailLayout :: "string \<Rightarrow> string \<Rightarrow> string \<Rightarrow> jailLayout res" where
  "newJailLayout chrootBase execFile jid = (case validateJailerID jid of
       Some e \<Rightarrow> Inl e
     | None \<Rightarrow>
         (let execName = path_base execFile in
          if execName = [] \<or> execName = ''.'' \<or> execName = ''/'' then
            Inl (Errorf ''jailer: invalid exec-file %q'' [execFile])
          else
            let base = (if chrootBase = [] then ''/srv/jailer'' else chrootBase);
                jail = path_join [base, execName, jid]
            in Inr \<lparr>jl_ID = jid, jl_ExecName = execName, jl_ChrootBase = base, jl_JailDir = jail,
                    jl_Root = path_join [jail, ''root'']\<rparr>))"

text \<open>
  \<open>prepareJail\<close> on any state \<open>'w\<close> that holds a file system: \<open>place\<close> may use more of the
  state (the disk pool). \<open>lift\<close> runs a file operation on it.
\<close>

definition prepareJail :: "((fs \<Rightarrow> fs \<times> gerr option) \<Rightarrow> 'w \<Rightarrow> 'w \<times> gerr option) \<Rightarrow>
    (string \<Rightarrow> string \<Rightarrow> fs \<Rightarrow> fs \<times> gerr option) \<Rightarrow> jailLayout \<Rightarrow> string \<Rightarrow> string \<Rightarrow>
    (string \<Rightarrow> string \<Rightarrow> 'w \<Rightarrow> 'w \<times> gerr option) \<Rightarrow> 'w \<Rightarrow> 'w \<times> gerr option" where
  "prepareJail lift cp layout kern rootfs place w = (case lift (os_MkdirAll (jl_Root layout)) w of
       (w1, Some e) \<Rightarrow> (w1, Some (Wrapf ''jailer mkdir %s: %w'' [jl_Root layout] e))
     | (w1, None) \<Rightarrow> (case lift (linkOrCopy cp kern (path_join [jl_Root layout, ''vmlinux''])) w1 of
         (w2, Some e) \<Rightarrow> (w2, Some (Wrapf ''jailer kernel: %w'' [] e))
       | (w2, None) \<Rightarrow> (case place rootfs (path_join [jl_Root layout, ''rootfs.ext4'']) w2 of
           (w3, Some e) \<Rightarrow> (w3, Some (Wrapf ''jailer rootfs: %w'' [] e))
         | (w3, None) \<Rightarrow> lift (os_WriteFile (path_join [jl_Root layout, ''firecracker.log'']) []) w3)))"

definition jailerCreds :: "go_env \<Rightarrow> fc_config \<Rightarrow> (int \<times> int) res" where
  "jailerCreds g c =
     (if fc_JailerUID c \<noteq> 0 \<or> fc_JailerGID c \<noteq> 0 then Inr (fc_JailerUID c, fc_JailerGID c)
      else (case ge_User g of
          Inl e \<Rightarrow> Inl (Wrapf ''jailer uid: %w'' [] e)
        | Inr (u, gr) \<Rightarrow> (case atoi u of
            None \<Rightarrow> Inl (Errorf ''strconv.Atoi'' [u])
          | Some uid \<Rightarrow> (case atoi gr of
              None \<Rightarrow> Inl (Errorf ''strconv.Atoi'' [gr])
            | Some gid \<Rightarrow>
                if uid = 0 then
                  Inl (Errorf ''jailer refuses to drop to uid 0; set WARDEN_JAILER_UID to an unprivileged user'' [])
                else Inr (uid, gid)))))"

definition jailer_args :: "fc_config \<Rightarrow> jailLayout \<Rightarrow> string \<Rightarrow> int \<Rightarrow> int \<Rightarrow> string list" where
  "jailer_args c layout netnsPath uid gid =
     [''--id'', jl_ID layout, ''--exec-file'', fc_Binary c, ''--uid'', int_dec uid, ''--gid'', int_dec gid,
      ''--chroot-base-dir'', jl_ChrootBase layout]
     @ (if fc_JailerCgroup c then [''--cgroup-version'', ''2''] else [])
     @ (if fc_NewPIDNS c then [''--new-pid-ns''] else [])
     @ (if netnsPath \<noteq> [] then [''--netns'', netnsPath] else [])
     @ [''--'', ''--api-sock'', ''/api.sock'']"

definition jailerCommand :: "go_env \<Rightarrow> fc_config \<Rightarrow> jailLayout \<Rightarrow> string \<Rightarrow> string list res" where
  "jailerCommand g c layout netnsPath =
     (if fc_Jailer c = [] then Inl (Errorf ''jailer binary is empty'' [])
      else (case jailerCreds g c of
          Inl e \<Rightarrow> Inl e
        | Inr (uid, gid) \<Rightarrow>
            (let args = jailer_args c layout netnsPath uid gid
             in Inr (if fc_JailerSudo c then [''sudo'', ''-n'', fc_Jailer c] @ args else fc_Jailer c # args))))"

section \<open>What is loaded and where it is jailed\<close>

lemma LoadConfig_fills:
  assumes "LoadConfig g path s = (s', Inr c)"
  shows "fc_AgentPort c \<noteq> 0" "fc_BootArgs c \<noteq> []" "1 \<le> fc_VCPUCount c" "0 < fc_BootTimeout c" "fc_WorkDir c \<noteq> []"
proof -
  obtain d where d: "c = default_workdir (fill_defaults d)"
    using assms by (auto simp: LoadConfig_def Let_def split: if_splits prod.splits sum.splits option.splits)
  show "fc_AgentPort c \<noteq> 0" "1 \<le> fc_VCPUCount c" "0 < fc_BootTimeout c" "fc_WorkDir c \<noteq> []" "fc_BootArgs c \<noteq> []"
    unfolding d by (simp_all add: default_workdir_def fill_defaults_def DefaultPort_def defaultBootArgs_def)
qed

lemma check_assets_tree: "fs_tree (fst (check_assets ps s)) = fs_tree s"
  by (induction ps s rule: check_assets.induct) (auto dest: os_Stat_tree split: prod.splits sum.splits node.splits)

lemma check_assets_ok:
  "check_assets ps s = (s', None) \<Longrightarrow> \<forall>(name, path) \<in> set ps. path \<noteq> [] \<and> (\<exists>d. fs_tree s (path_clean path) = Some (File d))"
proof (induction ps s rule: check_assets.induct)
  case (2 name path ps s)
  obtain s1 r where st: "os_Stat path s = (s1, r)" by fastforce
  with 2 obtain d where r: "path \<noteq> []" "r = Inr (File d)" "check_assets ps s1 = (s', None)"
    by (auto split: if_splits sum.splits node.splits)
  then show ?case using 2 st os_Stat_ok [of path s s1] by auto
qed simp

lemma check_assets_err:
  "check_assets ps s = (s', Some e) \<Longrightarrow> errors_is e ''runtime.ErrMissingAssets''"
  by (induction ps s rule: check_assets.induct) (auto split: if_splits prod.splits sum.splits node.splits)

text \<open>An id the jailer accepts is one path component, so the jail of a VM lies below the base.\<close>

lemma jailer_id_name: "validateJailerID jid = None \<Longrightarrow> path_name jid"
proof -
  assume a: "validateJailerID jid = None"
  then have ne: "jid \<noteq> []" and r: "list_all (\<lambda>r. alnum r \<or> r = 45) (runes jid)" by (auto simp: validateJailerID_def split: if_splits)
  have c: "c \<in> set jid \<Longrightarrow> byte c < 0x80 \<Longrightarrow> alnum (byte c) \<or> byte c = 45" for c
    using ascii_byte_in_runes r by (auto simp: list_all_iff)
  have "CHR ''/'' \<notin> set jid" "CHR ''.'' \<notin> set jid"
    using c [of "CHR ''/''"] c [of "CHR ''.''"] by (auto simp: char_class_defs)
  with ne show ?thesis by (auto simp: path_name_def)
qed

end
