(* ===== verification/FC_Api.thy ===== *)
theory FC_Api
  imports FC_Config
begin

text \<open>
  Files \<open>fcapi.go\<close> and \<open>fcvsock.go\<close> of \<open>internal/runtime\<close>: the client of the Firecracker API
  socket, the handshake with the guest over the vsock socket, and the two loops that wait for
  a socket and for the guest agent. The other end of a socket is a parameter: what the API
  answers to a call, and how a vsock connection behaves.
\<close>

section \<open>The API client\<close>

datatype api_body =
    fcMachineConfig int int bool bool
  | fcBootSource string string
  | fcDrive string string bool bool
  | fcVsock nat string
  | fcLogger string string bool bool
  | fcNetIface string string string
  | fcAction string
  | fcSnapshotCreate string string string
  | fcSnapshotLoad string string string bool bool
  | fcVMState string

type_synonym api_call = "string \<times> string \<times> api_body"

text \<open>What the API answers to a call: a transport error, or a status and a payload.\<close>

type_synonym api = "api_call \<Rightarrow> (int \<times> string) res"

definition fault_setters :: "string setters" where
  "fault_setters = [(''fault_message'', into_string (\<lambda>v _. v))]"

definition fault_text :: "string \<Rightarrow> string" where
  "fault_text payload =
     (let m = (case json_unmarshal fault_setters payload [] of Some v \<Rightarrow> v | None \<Rightarrow> [])
      in if m = [] then payload else m)"

definition api_do :: "api \<Rightarrow> api_call \<Rightarrow> gerr option" where
  "api_do srv call = (case call of (method, path, body) \<Rightarrow> (case srv call of
       Inl e \<Rightarrow> Some (Wrapf ''firecracker %s %s: %w'' [method, path] e)
     | Inr (status, payload) \<Rightarrow>
         if status \<noteq> 204 \<and> status \<noteq> 200 then
           Some (Errorf ''firecracker %s %s: %s (%d)'' [method, path, fault_text (take 8192 payload), int_dec status])
         else None))"

definition put_call :: "string \<Rightarrow> api_body \<Rightarrow> api_call" where
  "put_call path body = (''PUT'', path, body)"

definition patch_call :: "string \<Rightarrow> api_body \<Rightarrow> api_call" where
  "patch_call path body = (''PATCH'', path, body)"

definition pauseVM :: api_call where
  "pauseVM = patch_call ''/vm'' (fcVMState ''Paused'')"

definition createSnapshot :: "string \<Rightarrow> string \<Rightarrow> string \<Rightarrow> api_call" where
  "createSnapshot kind snapPath memPath =
     put_call ''/snapshot/create'' (fcSnapshotCreate (if kind = [] then ''Full'' else kind) snapPath memPath)"

definition loadSnapshot :: "string \<Rightarrow> string \<Rightarrow> api_call" where
  "loadSnapshot snapPath memPath = put_call ''/snapshot/load'' (fcSnapshotLoad snapPath ''File'' memPath True True)"

definition startInstance :: api_call where
  "startInstance = put_call ''/actions'' (fcAction ''InstanceStart'')"

definition sendCtrlAltDel :: api_call where
  "sendCtrlAltDel = put_call ''/actions'' (fcAction ''SendCtrlAltDel'')"

text \<open>The calls of \<open>configure\<close>, in the order of the code; the logger and the NIC are optional.\<close>

definition drive_id :: "api_body \<Rightarrow> string" where
  "drive_id d = (case d of fcDrive i _ _ _ \<Rightarrow> i | _ \<Rightarrow> [])"

definition iface_id :: "api_body \<Rightarrow> string" where
  "iface_id n = (case n of fcNetIface i _ _ \<Rightarrow> i | _ \<Rightarrow> [])"

definition configure :: "api_body \<Rightarrow> api_body \<Rightarrow> api_body \<Rightarrow> api_body \<Rightarrow> api_body option \<Rightarrow> api_body option \<Rightarrow> api_call list" where
  "configure machine boot drive vsock logger nic =
     (case logger of None \<Rightarrow> [] | Some l \<Rightarrow> [put_call ''/logger'' l])
     @ [put_call ''/machine-config'' machine, put_call ''/boot-source'' boot,
        put_call (''/drives/'' @ drive_id drive) drive, put_call ''/vsock'' vsock]
     @ (case nic of None \<Rightarrow> [] | Some n \<Rightarrow> [put_call (''/network-interfaces/'' @ iface_id n) n])"

text \<open>Calls in sequence up to the first error: the calls made, and the error.\<close>

fun api_seq :: "api \<Rightarrow> api_call list \<Rightarrow> api_call list \<times> gerr option" where
  "api_seq srv [] = ([], None)"
| "api_seq srv (c # cs) = (case api_do srv c of
       Some e \<Rightarrow> ([c], Some e)
     | None \<Rightarrow> (case api_seq srv cs of (done', r) \<Rightarrow> (c # done', r)))"

lemma api_seq_ok: "api_seq srv cs = (done', None) \<Longrightarrow> done' = cs \<and> list_all (\<lambda>c. api_do srv c = None) cs"
  by (induction cs arbitrary: done') (auto split: option.splits prod.splits)

lemma api_seq_prefix: "prefix (fst (api_seq srv cs)) cs"
  by (induction cs) (auto split: option.splits prod.splits)

section \<open>The vsock handshake\<close>

text \<open>
  A connection to the vsock socket: whether dialling and writing the \<open>CONNECT\<close> line fail, the
  bytes that arrive before the host sends anything else, what arrives after the host has
  written a request (\<open>Inl\<close> if the write fails), and how the stream ends.
\<close>

record vsock_conn =
  vc_dial :: "gerr option"
  vc_connect :: "string \<Rightarrow> gerr option"
  vc_greeting :: string
  vc_serve :: "string \<Rightarrow> string res"
  vc_end :: gerr

text \<open>The result is what the reader has already buffered of the guest's stream.\<close>

definition dialGuestVsock :: "vsock_conn \<Rightarrow> string \<Rightarrow> nat \<Rightarrow> string res" where
  "dialGuestVsock c uds port = (case vc_dial c of
       Some e \<Rightarrow> Inl (Wrapf ''vsock uds %s: %w'' [uds] e)
     | None \<Rightarrow> (case vc_connect c (''CONNECT '' @ nat_dec port @ [CHR 0x0A]) of
         Some e \<Rightarrow> Inl (Wrapf ''vsock CONNECT %d: %w'' [nat_dec port] e)
       | None \<Rightarrow> (case cut_first (CHR 0x0A) (vc_greeting c) of
           None \<Rightarrow> Inl (Wrapf ''vsock handshake read: %w'' [] (vc_end c))
         | Some (line0, rest) \<Rightarrow>
             (let line = trim_right_set [CHR 0x0D, CHR 0x0A] line0
              in if prefix ''OK '' line then Inr rest
                 else Inl (Errorf ''vsock handshake rejected: %q'' [line])))))"

lemma dial_keeps_stream:
  assumes "vc_dial c = None" and "\<And>l. vc_connect c l = None" and "vc_greeting c = ''OK '' @ n @ [CHR 0x0A] @ rest" and "all_digits n"
  shows "dialGuestVsock c uds port = Inr rest"
proof -
  have d: "c \<in> set n \<Longrightarrow> dec_digit (byte c)" for c using assms(4) by (auto simp: all_digits_def list_all_iff)
  have l: "CHR 0x0A \<notin> set (''OK '' @ n)" using d [of "CHR 0x0A"] by (auto simp: dec_digit_def)
  have "cut_first (CHR 0x0A) ((''OK '' @ n) @ CHR 0x0A # rest) = Some (''OK '' @ n, rest)"
    by (rule cut_first_append [OF l])
  then have c: "cut_first (CHR 0x0A) (vc_greeting c) = Some (''OK '' @ n, rest)" using assms(3) by simp
  have "n \<noteq> []" using assms(4) by (simp add: all_digits_def)
  then have "last n \<noteq> CHR 0x0D" "last n \<noteq> CHR 0x0A" using d [of "last n"] by (auto simp: dec_digit_def)
  with \<open>n \<noteq> []\<close> have "trim_right_set [CHR 0x0D, CHR 0x0A] (''OK '' @ n) = ''OK '' @ n"
    by (cases n rule: rev_cases) (auto simp: trim_right_set_def)
  with assms(1,2) c show ?thesis by (simp add: dialGuestVsock_def)
qed

section \<open>Waiting\<close>

text \<open>
  \<open>waitForSocket\<close>: \<open>ex t\<close> tells whether the path exists at time \<open>t\<close>. The loop looks, compares
  the time with its deadline, and sleeps for a tick of 20 ms unless the context ends first.
\<close>

definition socket_tick :: int where "socket_tick = 20000000"
definition agent_tick :: int where "agent_tick = 100000000"

function socket_loop :: "(int \<Rightarrow> bool) \<Rightarrow> context_t \<Rightarrow> string \<Rightarrow> int \<Rightarrow> int \<Rightarrow> int \<times> gerr option" where
  "socket_loop ex ctx path deadline t =
     (if ex t then (t, None)
      else if deadline < t then (t, Some (Errorf ''timed out waiting for %s'' [path]))
      else (case ctx_err (t + socket_tick) ctx of
          Some e \<Rightarrow> (t + socket_tick, Some e)
        | None \<Rightarrow> socket_loop ex ctx path deadline (t + socket_tick)))"
  by pat_completeness auto
termination
  by (relation "measure (\<lambda>(ex, ctx, path, deadline, t). nat (deadline + 1 - t))") (auto simp: socket_tick_def)

declare socket_loop.simps [simp del]

definition waitForSocket :: "(string \<Rightarrow> int \<Rightarrow> bool) \<Rightarrow> context_t \<Rightarrow> string \<Rightarrow> int \<Rightarrow> int \<Rightarrow> int \<times> gerr option" where
  "waitForSocket ex ctx path mx now =
     socket_loop (ex path) ctx path (now + (if mx \<le> 0 then 5000000000 else mx)) now"

text \<open>
  \<open>waitForGuestAgent\<close> tries the handshake every 100 ms until the context ends; \<open>conns k\<close> is the
  \<open>k\<close>-th connection. Its context always has a deadline, \<open>D\<close>: the backend makes it with a timeout.
\<close>

function agent_loop :: "(nat \<Rightarrow> vsock_conn) \<Rightarrow> context_t \<Rightarrow> int \<Rightarrow> string \<Rightarrow> nat \<Rightarrow> nat \<Rightarrow> int \<Rightarrow> int \<times> nat \<times> gerr option" where
  "agent_loop conns ctx D uds port k t = (case dialGuestVsock (conns k) uds port of
       Inr _ \<Rightarrow> (t, Suc k, None)
     | Inl last' \<Rightarrow>
         if D \<le> t + agent_tick \<or> cx_cancelled ctx then
           (t + agent_tick, Suc k,
            Some (Wrapf ''guest agent not ready: %w (%v)'' [] (if cx_cancelled ctx then Canceled else DeadlineExceeded)))
         else agent_loop conns ctx D uds port (Suc k) (t + agent_tick))"
  by pat_completeness auto
termination
  by (relation "measure (\<lambda>(conns, ctx, D, uds, port, k, t). nat (D - t))") (auto simp: agent_tick_def)

declare agent_loop.simps [simp del]

lemma socket_loop_found: "socket_loop ex ctx path dl t = (t', None) \<Longrightarrow> ex t' \<and> t \<le> t'"
proof (induction ex ctx path dl t rule: socket_loop.induct)
  case (1 ex ctx path dl t)
  show ?case
    using "1.prems" "1.IH" by (subst (asm) socket_loop.simps) (fastforce simp: socket_tick_def split: if_splits option.splits)
qed

lemma socket_loop_time: "t \<le> fst (socket_loop ex ctx path dl t)"
proof (induction ex ctx path dl t rule: socket_loop.induct)
  case (1 ex ctx path dl t)
  then show ?case by (subst socket_loop.simps) (auto simp: socket_tick_def split: option.split)
qed

text \<open>Both loops end within a tick after their deadline.\<close>

lemma socket_loop_bound: "t \<le> dl + socket_tick \<Longrightarrow> fst (socket_loop ex ctx path dl t) \<le> dl + socket_tick"
proof (induction ex ctx path dl t rule: socket_loop.induct)
  case (1 ex ctx path dl t)
  then show ?case by (subst socket_loop.simps) (auto simp: socket_tick_def split: option.splits)
qed

lemma agent_loop_bound: "t < D + agent_tick \<Longrightarrow> fst (agent_loop conns ctx D uds port k t) < D + 2 * agent_tick"
proof (induction conns ctx D uds port k t rule: agent_loop.induct)
  case (1 conns ctx D uds port k t)
  then show ?case by (subst agent_loop.simps) (auto simp: agent_tick_def split: sum.splits)
qed

end
