(* ===== verification/Net_Tap.thy ===== *)
theory Net_Tap
  imports Net_Policy Go_Path
begin

unbundle bit_operations_syntax

text \<open>
  Package \<open>internal/network\<close>, files \<open>tap.go\<close>, \<open>nft.go\<close> and \<open>netns.go\<close>: the names
  and addresses of a VM's network link, the nft ruleset, and the sequences of host commands
  that create and remove the link. The host commands go through the runner of the TAP
  factory, or through \<open>os/exec\<close> when it has none; both are parameters: they take the command
  line and the state of the host and return the new state and the error, if any. DNS and the search for the \<open>ip\<close> binary are parameters of
  the factory too.
\<close>

section \<open>Links\<close>

record link =
  l_Name :: string
  l_HostIP :: ip
  l_GuestIP :: ip
  l_Prefix :: int
  l_GuestMAC :: string
  l_Table :: string
  l_NetNS :: string
  l_NetNSPath :: string
  l_HostVeth :: string
  l_NSVeth :: string
  l_UplinkHost :: ip
  l_UplinkNS :: ip

definition FilterIface :: "link option \<Rightarrow> string" where
  "FilterIface l = (case l of
       None \<Rightarrow> []
     | Some k \<Rightarrow> if l_HostVeth k \<noteq> [] then l_HostVeth k else l_Name k)"

definition GuestSubnet :: "link option \<Rightarrow> string" where
  "GuestSubnet l = (case l of
       None \<Rightarrow> []
     | Some k \<Rightarrow> (case to4 (l_HostIP k) of
           None \<Rightarrow> []
         | Some b \<Rightarrow>
             (let net = [b ! 0, b ! 1, b ! 2, b ! 3 AND NOT 3];
                  p = (if l_Prefix k = 0 then 30 else l_Prefix k)
              in ip_string net @ ''/'' @ int_dec p)))"

section \<open>Names\<close>

definition keep_alnum :: "rune \<Rightarrow> rune option" where
  "keep_alnum r = (if alnum r then Some r else None)"

definition tapName :: "string \<Rightarrow> string" where
  "tapName vid =
     (let s = ''w'' @ strings_map keep_alnum vid;
          s = (if 15 < length s then take 15 s else s)
      in if s = ''w'' then ''wtap'' else s)"

definition nftTable :: "string \<Rightarrow> string" where
  "nftTable vid =
     ''warden_'' @ strings_map (\<lambda>r. if alnum r \<or> r = 95 then Some r else Some 95) vid"

definition netnsName :: "string \<Rightarrow> string" where
  "netnsName vid =
     (let s = ''warden-'' @ strings_map (\<lambda>r. if alnum r \<or> r = 45 then Some r else None) vid;
          s = (if s = ''warden-'' then ''warden-tap'' else s)
      in if 128 < length s then take 128 s else s)"

definition vethNames :: "string \<Rightarrow> string \<times> string" where
  "vethNames tap =
     (let base = (if prefix ''w'' tap then drop 1 tap else tap);
          base = (if base = [] then ''tap'' else base)
      in (take 15 (''h'' @ base), take 15 (''g'' @ base)))"

definition validateNetNSName :: "string \<Rightarrow> gerr option" where
  "validateNetNSName name =
     (if name = [] \<or> name \<noteq> path_base name \<or> contains_sub name ''..''
      then Some (Errorf ''netns: invalid name %q'' [name]) else None)"

definition NetNSPath :: "string \<Rightarrow> string" where
  "NetNSPath name = path_join [''/var/run/netns'', name]"

section \<open>Addresses\<close>

text \<open>One /30 of the /16 \<open>b0.b1.0.0\<close>; the arithmetic is on \<open>uint32\<close> and bytes.\<close>

definition pair30 :: "8 word \<Rightarrow> 8 word \<Rightarrow> 32 word \<Rightarrow> (ip \<times> ip) res" where
  "pair30 b0 b1 n =
     (if n = 0 \<or> n > 16383 then
        Inl (Errorf ''tap: subnet index %d out of range'' [nat_dec (unat n)])
      else
        let off = (n - 1) * 4;
            hi = (ucast (drop_bit 8 off) :: 8 word);
            lo = (ucast off :: 8 word)
        in Inr ([b0, b1, hi, lo + 1], [b0, b1, hi, lo + 2]))"

definition subnet30 :: "32 word \<Rightarrow> (ip \<times> ip) res" where
  "subnet30 n = pair30 172 25 n"

definition uplink30 :: "32 word \<Rightarrow> (ip \<times> ip) res" where
  "uplink30 n = pair30 172 27 n"

definition macFromIP :: "ip \<Rightarrow> string" where
  "macFromIP p = (case to4 p of
       None \<Rightarrow> ''06:00:00:00:00:01''
     | Some b \<Rightarrow> ''06:00:'' @ join_with '':'' (map (\<lambda>x. hex_pad 2 (unat x)) b))"

text \<open>
  \<open>resolveAllowlist\<close>: the addresses of the entries in order, without repetition of their
  text. \<open>add_ips\<close> is the inner loop with its set of seen texts.
\<close>

fun add_ips :: "string list \<Rightarrow> ip list \<Rightarrow> ip list \<Rightarrow> string list \<times> ip list" where
  "add_ips seen out [] = (seen, out)"
| "add_ips seen out (p # ps) =
     (if ip_string p \<in> set seen then add_ips seen out ps
      else add_ips (ip_string p # seen) (out @ [p]) ps)"

fun resolve_loop :: "(string \<Rightarrow> ip list res) \<Rightarrow> string list \<Rightarrow> ip list \<Rightarrow> string list \<Rightarrow> ip list res" where
  "resolve_loop lookup seen out [] = Inr out"
| "resolve_loop lookup seen out (raw # es) =
     (let host0 = trim_space raw;
          host = (case split_host_port host0 of None \<Rightarrow> host0 | Some (h, _) \<Rightarrow> h)
      in case parse_ip host of
           Some p \<Rightarrow> (case add_ips seen out [p] of (seen', out') \<Rightarrow> resolve_loop lookup seen' out' es)
         | None \<Rightarrow> (case lookup host of
               Inl e \<Rightarrow> Inl (Wrapf ''resolve %q: %w'' [host] e)
             | Inr ps \<Rightarrow> (case add_ips seen out ps of (seen', out') \<Rightarrow>
                 resolve_loop lookup seen' out' es)))"

definition resolveAllowlist :: "string list \<Rightarrow> (string \<Rightarrow> ip list res) \<Rightarrow> ip list res" where
  "resolveAllowlist es lookup = resolve_loop lookup [] [] es"

section \<open>The nft ruleset\<close>

definition nl :: string where "nl = [CHR 0x0A]"

definition RenderNFT :: "unicode_tables \<Rightarrow> link \<Rightarrow> ip list \<Rightarrow> string" where
  "RenderNFT u l allow =
     (let dev = go_quote u (FilterIface (Some l));
          v4 = map ip_string (filter (\<lambda>p. to4 p \<noteq> None) allow);
          v6 = map ip_string (filter (\<lambda>p. to4 p = None) allow)
      in ''table inet '' @ l_Table l @ '' {'' @ nl
         @ ''  chain forward {'' @ nl
         @ ''    type filter hook forward priority 0; policy drop;'' @ nl
         @ ''    iifname '' @ dev @ '' ct state established,related accept'' @ nl
         @ ''    oifname '' @ dev @ '' ct state established,related accept'' @ nl
         @ (if v4 \<noteq> [] then
              ''    iifname '' @ dev @ '' ip daddr { '' @ join_with '', '' v4 @ '' } accept'' @ nl
            else [])
         @ (if v6 \<noteq> [] then
              ''    iifname '' @ dev @ '' ip6 daddr { '' @ join_with '', '' v6 @ '' } accept'' @ nl
            else [])
         @ ''  }'' @ nl
         @ ''  chain postrouting {'' @ nl
         @ ''    type nat hook postrouting priority 100; policy accept;'' @ nl
         @ ''    oifname != '' @ dev @ '' ip saddr '' @ ip_string (l_GuestIP l) @ '' masquerade'' @ nl
         @ ''  }'' @ nl
         @ ''}'' @ nl)"

section \<open>Host commands\<close>

type_synonym command = "string list"

record 'w tap =
  tap_Run :: "(command \<Rightarrow> 'w \<Rightarrow> 'w \<times> gerr option) option"
  tap_Exec :: "command \<Rightarrow> string \<Rightarrow> 'w \<Rightarrow> 'w \<times> (gerr \<times> string) option"
  tap_Lookup :: "string \<Rightarrow> ip list res"
  tap_IP :: string
  tap_Sudo :: bool
  tap_LookPath :: "string \<Rightarrow> string option"
  tap_Stat :: "string \<Rightarrow> bool"

text \<open>\<open>IPCommand\<close>: the first candidate that is on the path or exists as a file.\<close>

fun ip_candidates :: "(string \<Rightarrow> string option) \<Rightarrow> (string \<Rightarrow> bool) \<Rightarrow> string list \<Rightarrow> string" where
  "ip_candidates look stat [] = ''ip''"
| "ip_candidates look stat (p # ps) = (case look p of
       Some path \<Rightarrow> path
     | None \<Rightarrow> if stat p then p else ip_candidates look stat ps)"

definition IPCommand :: "(string \<Rightarrow> string option) \<Rightarrow> (string \<Rightarrow> bool) \<Rightarrow> string" where
  "IPCommand look stat =
     ip_candidates look stat [''ip'', ''/usr/sbin/ip'', ''/sbin/ip'', ''/usr/bin/ip'']"

definition ipBin :: "'w tap \<Rightarrow> string" where
  "ipBin t = (if tap_IP t \<noteq> [] then tap_IP t else IPCommand (tap_LookPath t) (tap_Stat t))"

text \<open>
  \<open>defaultRun\<close>, used when no runner is set: \<open>tap_Exec\<close> stands for \<open>os/exec\<close> with the
  standard input given, and returns the error with the combined output.
\<close>

definition defaultRun :: "'w tap \<Rightarrow> command \<Rightarrow> 'w \<Rightarrow> 'w \<times> gerr option" where
  "defaultRun t cmd w = (case tap_Exec t cmd [] w of
       (w', None) \<Rightarrow> (w', None)
     | (w', Some (e, out)) \<Rightarrow>
         (w', Some (Wrapf ''%s %s: %w (%s)'' [hd cmd, join_with '' '' (tl cmd), trim_space out] e)))"

definition with_sudo :: "'w tap \<Rightarrow> command \<Rightarrow> command" where
  "with_sudo t cmd = (if tap_Sudo t then ''sudo'' # ''-n'' # cmd else cmd)"

definition tap_run :: "'w tap \<Rightarrow> command \<Rightarrow> 'w \<Rightarrow> 'w \<times> gerr option" where
  "tap_run t cmd w = (case tap_Run t of
       None \<Rightarrow> defaultRun t (with_sudo t cmd) w
     | Some fn \<Rightarrow> fn (with_sudo t cmd) w)"

text \<open>
  The command lines of \<open>runIP\<close>, \<open>runNS\<close> and \<open>runInNS\<close>, and the run of a sequence of commands
  that stops at the first error.
\<close>

definition ip_cmd :: "'w tap \<Rightarrow> string list \<Rightarrow> command" where
  "ip_cmd t args = ipBin t # args"

definition ns_cmd :: "'w tap \<Rightarrow> string \<Rightarrow> string \<Rightarrow> string list \<Rightarrow> command" where
  "ns_cmd t ns name args = ip_cmd t ([''netns'', ''exec'', ns, name] @ args)"

definition in_ns_cmd :: "'w tap \<Rightarrow> string \<Rightarrow> string list \<Rightarrow> command" where
  "in_ns_cmd t ns args = ns_cmd t ns (ipBin t) args"

fun run_seq :: "'w tap \<Rightarrow> command list \<Rightarrow> 'w \<Rightarrow> 'w \<times> gerr option" where
  "run_seq t [] w = (w, None)"
| "run_seq t (c # cs) w = (case tap_run t c w of
       (w', Some e) \<Rightarrow> (w', Some e)
     | (w', None) \<Rightarrow> run_seq t cs w')"

definition cidr :: "ip \<Rightarrow> int \<Rightarrow> string" where
  "cidr p n = ip_string p @ ''/'' @ int_dec n"

text \<open>The commands of \<open>apply\<close> whose failure aborts it, in the order of the code.\<close>

definition apply_cmds :: "'w tap \<Rightarrow> link \<Rightarrow> command list" where
  "apply_cmds t l =
     [ip_cmd t [''netns'', ''add'', l_NetNS l],
      in_ns_cmd t (l_NetNS l) [''link'', ''set'', ''lo'', ''up''],
      ip_cmd t [''tuntap'', ''add'', ''dev'', l_Name l, ''mode'', ''tap''],
      ip_cmd t [''link'', ''set'', ''dev'', l_Name l, ''netns'', l_NetNS l],
      in_ns_cmd t (l_NetNS l) [''addr'', ''add'', cidr (l_HostIP l) (l_Prefix l), ''dev'', l_Name l],
      in_ns_cmd t (l_NetNS l) [''link'', ''set'', ''dev'', l_Name l, ''up''],
      ip_cmd t [''link'', ''add'', l_HostVeth l, ''type'', ''veth'', ''peer'', ''name'', l_NSVeth l],
      ip_cmd t [''link'', ''set'', ''dev'', l_NSVeth l, ''netns'', l_NetNS l],
      ip_cmd t [''addr'', ''add'', cidr (l_UplinkHost l) (l_Prefix l), ''dev'', l_HostVeth l],
      ip_cmd t [''link'', ''set'', ''dev'', l_HostVeth l, ''up''],
      in_ns_cmd t (l_NetNS l) [''addr'', ''add'', cidr (l_UplinkNS l) (l_Prefix l), ''dev'', l_NSVeth l],
      in_ns_cmd t (l_NetNS l) [''link'', ''set'', ''dev'', l_NSVeth l, ''up''],
      in_ns_cmd t (l_NetNS l) [''route'', ''add'', ''default'', ''via'', ip_string (l_UplinkHost l)]]
     @ (if GuestSubnet (Some l) \<noteq> [] \<and> l_UplinkNS l \<noteq> [] then
          [ip_cmd t [''route'', ''add'', GuestSubnet (Some l), ''via'', ip_string (l_UplinkNS l)]]
        else [])"

text \<open>
  \<open>Teardown\<close> runs every command whatever the others return; \<open>must\<close> marks the commands whose
  error it reports.
\<close>

definition teardown_cmds :: "'w tap \<Rightarrow> link \<Rightarrow> (bool \<times> command) list" where
  "teardown_cmds t l =
     (if l_Table l \<noteq> [] then [(True, [''nft'', ''delete'', ''table'', ''inet'', l_Table l])] else [])
     @ (if GuestSubnet (Some l) \<noteq> [] then
          [(False, ip_cmd t [''route'', ''del'', GuestSubnet (Some l)])] else [])
     @ (if l_NetNS l \<noteq> [] then [(True, ip_cmd t [''netns'', ''del'', l_NetNS l])]
        else if l_Name l \<noteq> [] then [(True, ip_cmd t [''link'', ''del'', l_Name l])] else [])
     @ (if l_HostVeth l \<noteq> [] then [(False, ip_cmd t [''link'', ''del'', l_HostVeth l])] else [])"

fun run_each :: "'w tap \<Rightarrow> (bool \<times> command) list \<Rightarrow> 'w \<Rightarrow> 'w \<times> gerr list" where
  "run_each t [] w = (w, [])"
| "run_each t ((must, c) # cs) w = (case tap_run t c w of (w1, r) \<Rightarrow>
     (case run_each t cs w1 of (w2, es) \<Rightarrow>
        (w2, (case r of Some e \<Rightarrow> if must then e # es else es | None \<Rightarrow> es))))"

definition Teardown :: "'w tap \<Rightarrow> link option \<Rightarrow> 'w \<Rightarrow> 'w \<times> gerr option" where
  "Teardown t l w = (case l of
       None \<Rightarrow> (w, None)
     | Some k \<Rightarrow> (case run_each t (teardown_cmds t k) w of (w', es) \<Rightarrow>
         (w', if es = [] then None else Some (Flatf ''tap teardown: %s'' es))))"

definition applyRules :: "'w tap \<Rightarrow> string \<Rightarrow> 'w \<Rightarrow> 'w \<times> gerr option" where
  "applyRules t script w = (case tap_Run t of
       Some fn \<Rightarrow> fn (with_sudo t [''nft'', ''-f'', ''-'', script]) w
     | None \<Rightarrow> (case tap_Exec t (with_sudo t [''nft'', ''-f'', ''-'']) script w of
           (w', None) \<Rightarrow> (w', None)
         | (w', Some (e, out)) \<Rightarrow> (w', Some (Wrapf ''nft apply: %w (%s)'' [trim_space out] e))))"

definition tap_apply :: "unicode_tables \<Rightarrow> 'w tap \<Rightarrow> link \<Rightarrow> ip list \<Rightarrow> 'w \<Rightarrow> 'w \<times> gerr option" where
  "tap_apply u t l ips w = (case validateNetNSName (l_NetNS l) of
       Some e \<Rightarrow> (w, Some e)
     | None \<Rightarrow> (case run_seq t (apply_cmds t l) w of
           (w1, Some e) \<Rightarrow> (fst (Teardown t (Some l) w1), Some e)
         | (w1, None) \<Rightarrow>
             (let w2 = fst (tap_run t [''sysctl'', ''-w'', ''net.ipv4.ip_forward=1''] w1);
                  w3 = fst (tap_run t (ns_cmd t (l_NetNS l) ''sysctl'' [''-w'', ''net.ipv4.ip_forward=1'']) w2)
              in case applyRules t (RenderNFT u l ips) w3 of
                   (w4, Some e) \<Rightarrow> (fst (Teardown t (Some l) w4), Some e)
                 | (w4, None) \<Rightarrow> (w4, None))))"

definition precheck :: "'w tap \<Rightarrow> policy \<Rightarrow> ip list res" where
  "precheck t p = (case Policy_Validate p of
       Some e \<Rightarrow> Inl e
     | None \<Rightarrow>
         if Allowlist p = [] then
           Inl (Errorf ''tap: refusing to create a NIC for an empty allowlist'' [])
         else (case resolveAllowlist (Allowlist p) (tap_Lookup t) of
             Inl e \<Rightarrow> Inl e
           | Inr ips \<Rightarrow>
               if ips = [] then Inl (Errorf ''tap: allowlist resolved to zero addresses'' [])
               else Inr ips))"

text \<open>\<open>Setup\<close>; the counter \<open>seq\<close> of the factory is the first component of the state.\<close>

definition new_link :: "string \<Rightarrow> ip \<times> ip \<Rightarrow> ip \<times> ip \<Rightarrow> link" where
  "new_link vid tap30 up30 =
     (let name = tapName vid; (hv, nv) = vethNames name; ns = netnsName vid
      in \<lparr>l_Name = name, l_HostIP = fst tap30, l_GuestIP = snd tap30, l_Prefix = 30,
          l_GuestMAC = macFromIP (snd tap30), l_Table = nftTable vid, l_NetNS = ns,
          l_NetNSPath = NetNSPath ns, l_HostVeth = hv, l_NSVeth = nv,
          l_UplinkHost = fst up30, l_UplinkNS = snd up30\<rparr>)"

definition Setup :: "unicode_tables \<Rightarrow> 'w tap \<Rightarrow> string \<Rightarrow> policy \<Rightarrow> 32 word \<times> 'w \<Rightarrow> (32 word \<times> 'w) \<times> link res" where
  "Setup u t vid p st = (case st of (seq, w) \<Rightarrow>
     (case precheck t p of
        Inl e \<Rightarrow> ((seq, w), Inl e)
      | Inr ips \<Rightarrow>
          (let n = seq + 1 in
           case subnet30 n of
             Inl e \<Rightarrow> ((n, w), Inl e)
           | Inr tap30 \<Rightarrow> (case uplink30 n of
               Inl e \<Rightarrow> ((n, w), Inl e)
             | Inr up30 \<Rightarrow>
                 (let l = new_link vid tap30 up30 in
                  case tap_apply u t l ips w of
                    (w', Some e) \<Rightarrow> ((n, w'), Inl e)
                  | (w', None) \<Rightarrow> ((n, w'), Inr l))))))"

definition fillDerived :: "link \<Rightarrow> link" where
  "fillDerived l =
     (let l1 = (if l_HostVeth l = [] \<or> l_NSVeth l = []
                then l\<lparr>l_HostVeth := fst (vethNames (l_Name l)), l_NSVeth := snd (vethNames (l_Name l))\<rparr>
                else l);
          l2 = (if l_NetNS l1 = [] then l1\<lparr>l_NetNS := netnsName (l_Name l1)\<rparr> else l1);
          l3 = (if l_NetNSPath l2 = [] then l2\<lparr>l_NetNSPath := NetNSPath (l_NetNS l2)\<rparr> else l2);
          l4 = (if l_Table l3 = [] then l3\<lparr>l_Table := nftTable (l_Name l3)\<rparr> else l3)
      in if l_Prefix l4 = 0 then l4\<lparr>l_Prefix := 30\<rparr> else l4)"

text \<open>\<open>Recreate\<close> fills the link in place, so it returns the link next to the error.\<close>

definition Recreate :: "unicode_tables \<Rightarrow> 'w tap \<Rightarrow> link option \<Rightarrow> policy \<Rightarrow> 'w \<Rightarrow> 'w \<times> link option \<times> gerr option" where
  "Recreate u t l p w = (case l of
       None \<Rightarrow> (w, None, Some (Errorf ''tap: recreate requires a named link'' []))
     | Some k \<Rightarrow>
         if l_Name k = [] then (w, Some k, Some (Errorf ''tap: recreate requires a named link'' []))
         else (case precheck t p of
             Inl e \<Rightarrow> (w, Some k, Some e)
           | Inr ips \<Rightarrow> (let k' = fillDerived k in
               case tap_apply u t k' ips w of (w', r) \<Rightarrow> (w', Some k', r))))"

end
