(* ===== verification/Snapshot_Store.thy ===== *)
theory Snapshot_Store
  imports Go_FS "HOL-Library.Word"
begin

text \<open>
  Package \<open>internal/snapshot\<close>: the record of a saved microVM and the two stores. \<open>DirStore\<close>
  keeps one directory per session below its root; its operations run on the file system of
  \<open>Go_FS\<close> with its faults. The JSON text of a record is a parameter (\<open>marshal\<close>,
  \<open>unmarshal\<close>). The interface \<open>snapshot.Store\<close> is the locale \<open>snapshot_store\<close>: what
  \<open>Restore\<close> finds after each of the other operations, for the same and for other sessions.
\<close>

section \<open>Records\<close>

record snap_record =
  sr_SessionID :: string
  sr_VMID :: string
  sr_Path :: string
  sr_SnapshotPath :: string
  sr_MemoryPath :: string
  sr_RootfsPath :: string
  sr_GuestCID :: "32 word"
  sr_HasNetwork :: bool
  sr_HostDevName :: string
  sr_GuestMAC :: string
  sr_GuestIP :: string
  sr_HostIP :: string
  sr_NetNS :: string
  sr_NetNSPath :: string
  sr_HostVeth :: string
  sr_NSVeth :: string
  sr_UplinkHost :: string
  sr_UplinkNS :: string
  sr_Table :: string
  sr_Generation :: int
  sr_LastKind :: string
  sr_CreatedAt :: "int option"

definition zero_record :: snap_record where
  "zero_record = \<lparr>sr_SessionID = [], sr_VMID = [], sr_Path = [], sr_SnapshotPath = [], sr_MemoryPath = [],
     sr_RootfsPath = [], sr_GuestCID = 0, sr_HasNetwork = False, sr_HostDevName = [], sr_GuestMAC = [],
     sr_GuestIP = [], sr_HostIP = [], sr_NetNS = [], sr_NetNSPath = [], sr_HostVeth = [], sr_NSVeth = [],
     sr_UplinkHost = [], sr_UplinkNS = [], sr_Table = [], sr_Generation = 0, sr_LastKind = [],
     sr_CreatedAt = None\<rparr>"

abbreviation SnapErrNotImplemented :: gerr where
  "SnapErrNotImplemented \<equiv> Sentinel ''snapshot.ErrNotImplemented''"
abbreviation ErrNotFound :: gerr where
  "ErrNotFound \<equiv> Sentinel ''snapshot.ErrNotFound''"

section \<open>Unsupported\<close>

definition Unsupported_Prepare :: "string \<Rightarrow> string \<Rightarrow> snap_record res" where
  "Unsupported_Prepare sid vmid = Inl (Wrapf ''%w (session %s)'' [sid] SnapErrNotImplemented)"

definition Unsupported_Commit :: "snap_record option \<Rightarrow> gerr option" where
  "Unsupported_Commit rec = Some (Wrapf ''%w (session %s)''
     [case rec of None \<Rightarrow> [] | Some r \<Rightarrow> sr_SessionID r] SnapErrNotImplemented)"

definition Unsupported_Restore :: "string \<Rightarrow> snap_record res" where
  "Unsupported_Restore sid = Inl (Wrapf ''%w (session %s)'' [sid] SnapErrNotImplemented)"

definition Unsupported_Delete :: "string \<Rightarrow> gerr option" where
  "Unsupported_Delete sid = Some (Wrapf ''%w (session %s)'' [sid] SnapErrNotImplemented)"

section \<open>DirStore\<close>

definition metaName :: string where "metaName = ''meta.json''"

definition sanitizeSession :: "string \<Rightarrow> string res" where
  "sanitizeSession sid =
     (if sid = [] then Inl (Errorf ''snapshot: empty session id'' [])
      else if sid \<noteq> path_base sid \<or> is_abs sid \<or> sid = ''.'' \<or> sid = ''..'' then
        Inl (Errorf ''snapshot: invalid session id %q'' [sid])
      else Inr sid)"

definition sessionDir :: "string \<Rightarrow> string \<Rightarrow> string res" where
  "sessionDir root sid = (case sanitizeSession sid of
       Inl e \<Rightarrow> Inl e
     | Inr clean \<Rightarrow>
         if root = [] then Inl (Errorf ''snapshot: store root is empty'' [])
         else Inr (path_join [root, clean]))"

definition DirStore_Prepare :: "string \<Rightarrow> string \<Rightarrow> string \<Rightarrow> fs \<Rightarrow> fs \<times> snap_record res" where
  "DirStore_Prepare root sid vmid s = (case sessionDir root sid of
       Inl e \<Rightarrow> (s, Inl e)
     | Inr dir \<Rightarrow> (case os_MkdirAll dir s of
         (s1, Some e) \<Rightarrow> (s1, Inl (Wrapf ''snapshot mkdir %s: %w'' [dir] e))
       | (s1, None) \<Rightarrow> (s1, Inr (zero_record
           \<lparr>sr_SessionID := sid, sr_VMID := vmid, sr_Path := dir,
            sr_SnapshotPath := path_join [dir, ''vm.snap''],
            sr_MemoryPath := path_join [dir, ''vm.mem''],
            sr_RootfsPath := path_join [dir, ''rootfs.ext4'']\<rparr>))))"

text \<open>The check of the snapshot and the memory file, as the loop of \<open>Commit\<close> makes it.\<close>

fun check_files :: "string \<Rightarrow> (string \<times> string) list \<Rightarrow> fs \<Rightarrow> fs \<times> gerr option" where
  "check_files sid [] s = (s, None)"
| "check_files sid ((name, path) # ps) s =
     (if path = [] then (s, Some (Errorf ''snapshot: %s path is empty'' [name]))
      else case os_Stat path s of
          (s1, Inl e) \<Rightarrow> (s1, Some (Wrapf ''snapshot: refusing to commit %s: missing %s: %w'' [sid, name] e))
        | (s1, Inr n) \<Rightarrow>
            if n = Dir \<or> n = File [] then
              (s1, Some (Errorf ''snapshot: refusing to commit %s: %s is empty'' [sid, name]))
            else check_files sid ps s1)"

definition stat_rootfs :: "snap_record \<Rightarrow> fs \<Rightarrow> fs \<times> gerr option" where
  "stat_rootfs rec s =
     (if sr_RootfsPath rec = [] then (s, None)
      else case os_Stat (sr_RootfsPath rec) s of
          (s1, Inl e) \<Rightarrow> (s1, Some (Wrapf ''snapshot: refusing to commit %s: missing rootfs: %w'' [sr_SessionID rec] e))
        | (s1, Inr _) \<Rightarrow> (s1, None))"

definition write_meta :: "string \<Rightarrow> string \<Rightarrow> fs \<Rightarrow> fs \<times> gerr option" where
  "write_meta dir data s =
     (let tmp = path_join [dir, metaName @ ''.tmp''] in
      case os_WriteFile tmp data s of
        (s1, Some e) \<Rightarrow> (s1, Some (Wrapf ''snapshot meta: %w'' [] e))
      | (s1, None) \<Rightarrow> os_Rename tmp (path_join [dir, metaName]) s1)"

text \<open>\<open>Commit\<close> fills the record in place, so it returns the record next to the error.\<close>

definition DirStore_Commit :: "(snap_record \<Rightarrow> string res) \<Rightarrow> int \<Rightarrow> string \<Rightarrow> snap_record option \<Rightarrow> fs \<Rightarrow>
    fs \<times> snap_record option \<times> gerr option" where
  "DirStore_Commit marshal now root reco s = (case reco of
       None \<Rightarrow> (s, None, Some (Errorf ''snapshot: nil record'' []))
     | Some rec \<Rightarrow> (case sessionDir root (sr_SessionID rec) of
         Inl e \<Rightarrow> (s, Some rec, Some e)
       | Inr dir \<Rightarrow>
           (case check_files (sr_SessionID rec)
              [(''snapshot'', sr_SnapshotPath rec), (''memory'', sr_MemoryPath rec)] s of
              (s1, Some e) \<Rightarrow> (s1, Some rec, Some e)
            | (s1, None) \<Rightarrow> (case stat_rootfs rec s1 of
                (s2, Some e) \<Rightarrow> (s2, Some rec, Some e)
              | (s2, None) \<Rightarrow>
                  (let rec' = rec\<lparr>sr_CreatedAt := (case sr_CreatedAt rec of None \<Rightarrow> Some now | t \<Rightarrow> t),
                                  sr_Path := dir\<rparr>
                   in case marshal rec' of
                        Inl e \<Rightarrow> (s2, Some rec', Some e)
                      | Inr data \<Rightarrow> (case write_meta dir data s2 of (s3, r) \<Rightarrow> (s3, Some rec', r)))))))"

fun stat_paths :: "string \<Rightarrow> string list \<Rightarrow> fs \<Rightarrow> fs \<times> gerr option" where
  "stat_paths sid [] s = (s, None)"
| "stat_paths sid (p # ps) s =
     (if p = [] then (s, Some (Errorf ''snapshot: corrupt session %s: missing path in meta'' [sid]))
      else case os_Stat p s of
          (s1, Inl e) \<Rightarrow> (s1, Some (Wrapf ''snapshot: corrupt session %s: %w'' [sid] e))
        | (s1, Inr _) \<Rightarrow> stat_paths sid ps s1)"

definition DirStore_Restore :: "(string \<Rightarrow> snap_record res) \<Rightarrow> string \<Rightarrow> string \<Rightarrow> fs \<Rightarrow> fs \<times> snap_record res" where
  "DirStore_Restore unmarshal root sid s = (case sessionDir root sid of
       Inl e \<Rightarrow> (s, Inl e)
     | Inr dir \<Rightarrow> (case os_ReadFile (path_join [dir, metaName]) s of
         (s1, Inl e) \<Rightarrow>
           (s1, Inl (if IsNotExist e then Wrapf ''%w (session %s)'' [sid] ErrNotFound else e))
       | (s1, Inr raw) \<Rightarrow> (case unmarshal raw of
           Inl e \<Rightarrow> (s1, Inl (Wrapf ''snapshot: corrupt meta for %s: %w'' [sid] e))
         | Inr rec \<Rightarrow> (case stat_paths sid [sr_SnapshotPath rec, sr_MemoryPath rec] s1 of
             (s2, Some e) \<Rightarrow> (s2, Inl e)
           | (s2, None) \<Rightarrow> (s2, Inr rec)))))"

definition DirStore_Delete :: "string \<Rightarrow> string \<Rightarrow> fs \<Rightarrow> fs \<times> gerr option" where
  "DirStore_Delete root sid s = (case sessionDir root sid of
       Inl e \<Rightarrow> (s, Some e)
     | Inr dir \<Rightarrow> os_RemoveAll dir s)"

section \<open>What the store holds\<close>

text \<open>The metadata of a session: the text of its file, if the session has a directory.\<close>

definition meta_of :: "string \<Rightarrow> string \<Rightarrow> fs \<Rightarrow> string option" where
  "meta_of root sid s = (case sessionDir root sid of
       Inl _ \<Rightarrow> None
     | Inr dir \<Rightarrow> (case fs_tree s (path_join [dir, metaName]) of Some (File d) \<Rightarrow> Some d | _ \<Rightarrow> None))"

lemma path_base_has_slash:
  assumes "s = path_base s" and "\<not> is_abs s"
  shows "CHR ''/'' \<notin> set s"
proof (cases "s = []")
  case False
  let ?b = "rev (takeWhile (\<lambda>c. c \<noteq> CHR ''/'') (dropWhile (\<lambda>c. c = CHR ''/'') (rev s)))"
  have "?b \<noteq> []"
    using assms False by (auto simp: path_base_def is_abs_def Let_def split: if_splits)
  then have "s = ?b" using assms(1) False by (simp add: path_base_def Let_def split: if_splits)
  moreover have "CHR ''/'' \<notin> set ?b" by (auto dest: set_takeWhileD)
  ultimately show ?thesis by simp
qed simp

lemma sanitizeSession_Inr: "sanitizeSession sid = Inr n \<longleftrightarrow> n = sid \<and> path_name sid"
proof
  assume a: "sanitizeSession sid = Inr n"
  then have "sid = path_base sid" "\<not> is_abs sid" "sid \<noteq> []" "sid \<noteq> ''.''" "sid \<noteq> ''..''" "n = sid"
    by (auto simp: sanitizeSession_def split: if_splits)
  then show "n = sid \<and> path_name sid"
    using path_base_has_slash by (simp add: path_name_def)
next
  assume "n = sid \<and> path_name sid"
  moreover then have "\<not> is_abs sid" by (cases sid) (auto simp: is_abs_def path_name_def)
  ultimately show "sanitizeSession sid = Inr n"
    using path_base_name by (auto simp: sanitizeSession_def path_name_def)
qed

lemma sessionDir_Inr:
  "sessionDir root sid = Inr dir \<longleftrightarrow> root \<noteq> [] \<and> path_name sid \<and> dir = path_join [root, sid]"
proof (cases "path_name sid")
  case True
  then have "sanitizeSession sid = Inr sid" by (simp add: sanitizeSession_Inr)
  then show ?thesis using True by (auto simp: sessionDir_def)
next
  case False
  then obtain e where "sanitizeSession sid = Inl e"
    using sanitizeSession_Inr by (metis sum.exhaust)
  then show ?thesis using False by (simp add: sessionDir_def)
qed

lemma meta_names: "path_name metaName" "path_name (metaName @ ''.tmp'')" "metaName \<noteq> metaName @ ''.tmp''"
  by (simp_all add: metaName_def path_name_def)

lemma meta_of_Some:
  "meta_of root sid s = Some d \<longleftrightarrow> root \<noteq> [] \<and> path_name sid
     \<and> fs_tree s (path_join [path_join [root, sid], metaName]) = Some (File d)"
proof (cases "root \<noteq> [] \<and> path_name sid")
  case True
  then have "sessionDir root sid = Inr (path_join [root, sid])" by (simp add: sessionDir_Inr)
  then show ?thesis using True by (auto simp: meta_of_def split: option.splits node.splits)
next
  case False
  then obtain e where "sessionDir root sid = Inl e"
    using sessionDir_Inr by (metis sum.exhaust)
  then show ?thesis using False by (auto simp: meta_of_def)
qed

lemma meta_of_cong:
  assumes "\<And>d. root \<noteq> [] \<Longrightarrow> path_name sid \<Longrightarrow>
      fs_tree s' (path_join [path_join [root, sid], metaName]) = Some (File d) \<longleftrightarrow>
      fs_tree s (path_join [path_join [root, sid], metaName]) = Some (File d)"
  shows "meta_of root sid s' = meta_of root sid s"
proof -
  have "meta_of root sid s' = Some d \<longleftrightarrow> meta_of root sid s = Some d" for d
    using assms by (auto simp: meta_of_Some)
  then show ?thesis by (metis not_None_eq)
qed

lemma meta_of_tree: "fs_tree s' = fs_tree s \<Longrightarrow> meta_of root sid s' = meta_of root sid s"
  by (simp add: meta_of_def split: sum.split)

lemma fst_check_files: "fs_tree (fst (check_files sid ps s)) = fs_tree s"
proof (induction sid ps s rule: check_files.induct)
  case (2 sid nm pa ps s)
  obtain s1 r where "os_Stat pa s = (s1, r)" by fastforce
  with 2 show ?case using os_Stat_tree [of pa s s1 r] by (cases r) auto
qed simp

lemma check_files_tree: "check_files sid ps s = (s', r) \<Longrightarrow> fs_tree s' = fs_tree s"
  using fst_check_files [of sid ps s] by simp

lemma check_files_ok:
  "check_files sid ps s = (s', None) \<Longrightarrow> (name, path) \<in> set ps \<Longrightarrow>
     path \<noteq> [] \<and> (\<exists>d. d \<noteq> [] \<and> fs_tree s (path_clean path) = Some (File d))"
proof (induction sid ps s rule: check_files.induct)
  case (2 sid nm pa ps s)
  obtain s1 n where st: "os_Stat pa s = (s1, Inr n)" "pa \<noteq> []" "n \<noteq> Dir" "n \<noteq> File []"
      "check_files sid ps s1 = (s', None)"
    using "2.prems"(1) by (auto split: if_splits prod.splits sum.splits)
  have t: "fs_tree s (path_clean pa) = Some n" "fs_tree s1 = fs_tree s" using os_Stat_ok [OF st(1)] by auto
  show ?case
  proof (cases "(name, path) = (nm, pa)")
    case True
    then show ?thesis using t st(2-4) by (cases n) auto
  next
    case False
    then have "(name, path) \<in> set ps" using "2.prems"(2) by auto
    then show ?thesis using "2.IH" st t by auto
  qed
qed simp

lemma stat_rootfs_tree: "stat_rootfs rec s = (s', r) \<Longrightarrow> fs_tree s' = fs_tree s"
  by (auto simp: stat_rootfs_def dest: os_Stat_tree split: if_splits prod.splits sum.splits)

lemma fst_stat_paths: "fs_tree (fst (stat_paths sid ps s)) = fs_tree s"
proof (induction sid ps s rule: stat_paths.induct)
  case (2 sid p ps s)
  obtain s1 r where "os_Stat p s = (s1, r)" by fastforce
  with 2 show ?case using os_Stat_tree [of p s s1 r] by (cases r) auto
qed simp

lemma stat_paths_tree: "stat_paths sid ps s = (s', r) \<Longrightarrow> fs_tree s' = fs_tree s"
  using fst_stat_paths [of sid ps s] by simp

text \<open>Writing the metadata: all or nothing at the final name, and nothing anywhere else.\<close>

lemma write_meta_spec:
  assumes "root \<noteq> []" "path_name sid" and "write_meta (path_join [root, sid]) data s = (s', r)"
  shows "r = None \<Longrightarrow> fs_tree s' (path_join [path_join [root, sid], metaName]) = Some (File data)"
    and "r \<noteq> None \<Longrightarrow> fs_tree s' (path_join [path_join [root, sid], metaName]) =
           fs_tree s (path_join [path_join [root, sid], metaName])"
    and "q \<noteq> path_join [path_join [root, sid], metaName] \<Longrightarrow>
         q \<noteq> path_join [path_join [root, sid], metaName @ ''.tmp''] \<Longrightarrow> fs_tree s' q = fs_tree s q"
proof -
  let ?dir = "path_join [root, sid]"
  let ?m = "path_join [?dir, metaName]" and ?t = "path_join [?dir, metaName @ ''.tmp'']"
  have dir: "?dir \<noteq> []" by (rule path_join_nonempty [OF assms(1,2)])
  have c: "path_clean ?m = ?m" "path_clean ?t = ?t"
    by (simp_all add: path_clean_join [OF dir] meta_names)
  have ne: "?t \<noteq> ?m"
    using path_join_inject [OF dir meta_names(2,1)] meta_names(3) by simp
  obtain s1 w where w: "os_WriteFile ?t data s = (s1, w)" by fastforce
  have fr: "p \<noteq> ?t \<Longrightarrow> fs_tree s1 p = fs_tree s p" for p
    using os_WriteFile_frame [OF w] c by simp
  show "r = None \<Longrightarrow> fs_tree s' ?m = Some (File data)"
    using assms(3) w os_WriteFile_ok [of ?t data s s1] os_Rename_ok [of ?t ?m s1 s'] c
    by (auto simp: write_meta_def Let_def split: option.splits)
  show "r \<noteq> None \<Longrightarrow> fs_tree s' ?m = fs_tree s ?m"
    using assms(3) w fr ne os_Rename_err [of ?t ?m s1 s']
    by (auto simp: write_meta_def Let_def split: option.splits)
  show "q \<noteq> ?m \<Longrightarrow> q \<noteq> ?t \<Longrightarrow> fs_tree s' q = fs_tree s q"
    using assms(3) w fr os_Rename_ok [of ?t ?m s1 s'] os_Rename_err [of ?t ?m s1 s'] c
    by (cases r) (auto simp: write_meta_def Let_def split: option.splits)
qed

text \<open>What a successful \<open>Commit\<close> has seen and done.\<close>

lemma Commit_ok:
  assumes "DirStore_Commit marshal now root (Some rec) s = (s', ro, None)"
  obtains rec' data where "ro = Some rec'" and "marshal rec' = Inr data"
    and "sr_SessionID rec' = sr_SessionID rec" "sr_SnapshotPath rec' = sr_SnapshotPath rec" "sr_MemoryPath rec' = sr_MemoryPath rec"
    and "sr_CreatedAt rec' \<noteq> None" and "root \<noteq> []" "path_name (sr_SessionID rec)"
    and "\<exists>d. d \<noteq> [] \<and> fs_tree s (path_clean (sr_SnapshotPath rec)) = Some (File d)"
    and "\<exists>d. d \<noteq> [] \<and> fs_tree s (path_clean (sr_MemoryPath rec)) = Some (File d)"
    and "sr_SnapshotPath rec \<noteq> []" "sr_MemoryPath rec \<noteq> []"
    and "\<exists>s2. fs_tree s2 = fs_tree s \<and> write_meta (path_join [root, sr_SessionID rec]) data s2 = (s', None)"
proof -
  define ps where "ps = [(''snapshot'', sr_SnapshotPath rec), (''memory'', sr_MemoryPath rec)]"
  obtain dir where d: "sessionDir root (sr_SessionID rec) = Inr dir"
    using assms by (auto simp: DirStore_Commit_def split: sum.splits)
  obtain s1 where c: "check_files (sr_SessionID rec) ps s = (s1, None)"
    using assms by (auto simp: DirStore_Commit_def d ps_def [symmetric] split: prod.splits option.splits)
  obtain s2 where st: "stat_rootfs rec s1 = (s2, None)"
    using assms by (auto simp: DirStore_Commit_def d ps_def [symmetric] c split: prod.splits option.splits)
  define rec' where "rec' = rec\<lparr>sr_CreatedAt := (case sr_CreatedAt rec of None \<Rightarrow> Some now | t \<Rightarrow> t), sr_Path := dir\<rparr>"
  obtain data where m: "marshal rec' = Inr data" and w: "write_meta dir data s2 = (s', None)" and ro: "ro = Some rec'"
    using assms
    by (auto simp: DirStore_Commit_def d ps_def [symmetric] c st rec'_def [symmetric] Let_def
        split: sum.splits prod.splits)
  have t: "fs_tree s2 = fs_tree s"
    using check_files_tree [OF c] stat_rootfs_tree [OF st] by simp
  show ?thesis
  proof (rule that [OF ro m])
    show "\<exists>s2. fs_tree s2 = fs_tree s \<and> write_meta (path_join [root, sr_SessionID rec]) data s2 = (s', None)"
      using t w d by (auto simp: sessionDir_Inr)
    show "sr_CreatedAt rec' \<noteq> None" by (auto simp: rec'_def split: option.split)
  qed (use d check_files_ok [OF c, of "''snapshot''"] check_files_ok [OF c, of "''memory''"] in
      \<open>auto simp: rec'_def sessionDir_Inr ps_def\<close>)
qed

lemma Commit_fail:
  assumes "DirStore_Commit marshal now root reco s = (s', ro, Some e)"
  shows "meta_of root sid s' = meta_of root sid s"
proof (cases "\<exists>rec dir data s2. reco = Some rec \<and> sessionDir root (sr_SessionID rec) = Inr dir
    \<and> fs_tree s2 = fs_tree s \<and> write_meta dir data s2 = (s', Some e)")
  case True
  then obtain rec :: snap_record and data s2
    where w: "fs_tree s2 = fs_tree s" "root \<noteq> []" "path_name (sr_SessionID rec)"
      "write_meta (path_join [root, sr_SessionID rec]) data s2 = (s', Some e)"
    unfolding sessionDir_Inr by blast
  note spec = write_meta_spec [OF w(2-4)]
  show ?thesis
  proof (rule meta_of_cong)
    fix d assume "root \<noteq> []" "path_name sid"
    let ?m = "path_join [path_join [root, sid], metaName]"
    have "?m \<noteq> path_join [path_join [root, sr_SessionID rec], metaName @ ''.tmp'']"
      using path_join_two_inject [OF w(2) \<open>path_name sid\<close> w(3) meta_names(1,2)] meta_names(3) by simp
    then show "fs_tree s' ?m = Some (File d) \<longleftrightarrow> fs_tree s ?m = Some (File d)"
      using spec(2,3) w(1) by (cases "?m = path_join [path_join [root, sr_SessionID rec], metaName]") auto
  qed
next
  case False
  have "fs_tree s' = fs_tree s"
  proof (cases reco)
    case (Some rec)
    show ?thesis
    proof (cases "sessionDir root (sr_SessionID rec)")
      case (Inr dir)
      define ps where "ps = [(''snapshot'', sr_SnapshotPath rec), (''memory'', sr_MemoryPath rec)]"
      obtain s1 r1 where c: "check_files (sr_SessionID rec) ps s = (s1, r1)" by fastforce
      obtain s2 r2 where st: "stat_rootfs rec s1 = (s2, r2)" by fastforce
      have t: "fs_tree s1 = fs_tree s" "fs_tree s2 = fs_tree s"
        using check_files_tree [OF c] stat_rootfs_tree [OF st] by auto
      show ?thesis
        using assms False t Some Inr
        by (auto simp: DirStore_Commit_def ps_def [symmetric] c st Let_def
            split: option.splits sum.splits prod.splits)
    qed (use assms Some in \<open>auto simp: DirStore_Commit_def\<close>)
  qed (use assms in \<open>auto simp: DirStore_Commit_def\<close>)
  then show ?thesis by (rule meta_of_tree)
qed

lemma Commit_others:
  assumes "DirStore_Commit marshal now root (Some rec) s = (s', ro, r)" and "sid \<noteq> sr_SessionID rec"
  shows "meta_of root sid s' = meta_of root sid s"
proof (cases r)
  case None
  then obtain data s2 where w: "fs_tree s2 = fs_tree s" "root \<noteq> []" "path_name (sr_SessionID rec)"
      "write_meta (path_join [root, sr_SessionID rec]) data s2 = (s', None)"
    using Commit_ok [OF assms(1) [unfolded None]] by metis
  note spec = write_meta_spec [OF w(2-4)]
  show ?thesis
  proof (rule meta_of_cong)
    fix d assume "root \<noteq> []" "path_name sid"
    then show "fs_tree s' (path_join [path_join [root, sid], metaName]) = Some (File d) \<longleftrightarrow>
        fs_tree s (path_join [path_join [root, sid], metaName]) = Some (File d)"
      using spec(3) path_join_two_inject [OF w(2) \<open>path_name sid\<close> w(3)] meta_names assms(2) w(1) by auto
  qed
next
  case (Some e)
  then show ?thesis using Commit_fail assms(1) by blast
qed

lemma Delete_spec:
  assumes "DirStore_Delete root sid s = (s', r)"
  shows "r = None \<Longrightarrow> meta_of root sid s' = None"
    and "sid' \<noteq> sid \<Longrightarrow> meta_of root sid' s' = meta_of root sid' s"
proof -
  assume "r = None"
  then obtain dir where d: "sessionDir root sid = Inr dir" and rm: "os_RemoveAll dir s = (s', None)"
    using assms by (auto simp: DirStore_Delete_def split: sum.splits)
  then have n: "root \<noteq> []" "path_name sid" "dir = path_join [root, sid]" by (auto simp: sessionDir_Inr)
  have "fs_tree s' (path_join [dir, metaName]) = None"
    using os_RemoveAll_ok [OF rm] below_file [OF n(1,2) meta_names(1)] n(3) path_clean_join [OF n(1,2)] by simp
  then show "meta_of root sid s' = None" by (simp add: meta_of_def d)
next
  assume ne: "sid' \<noteq> sid"
  show "meta_of root sid' s' = meta_of root sid' s"
  proof (cases "sessionDir root sid")
    case (Inr dir)
    then have n: "root \<noteq> []" "path_name sid" "dir = path_join [root, sid]" by (auto simp: sessionDir_Inr)
    have rm: "os_RemoveAll dir s = (s', r)" using assms by (simp add: DirStore_Delete_def Inr)
    show ?thesis
    proof (rule meta_of_cong)
      fix d assume "root \<noteq> []" "path_name sid'"
      then show "fs_tree s' (path_join [path_join [root, sid'], metaName]) = Some (File d) \<longleftrightarrow>
          fs_tree s (path_join [path_join [root, sid'], metaName]) = Some (File d)"
        using os_RemoveAll_frame [OF rm] not_below_sibling [OF n(1,2) _ _ meta_names(1), of sid'] ne n(3)
          path_clean_join [OF n(1,2)] by auto
    qed
  qed (use assms in \<open>auto simp: DirStore_Delete_def\<close>)
qed

lemma Prepare_meta: "DirStore_Prepare root sid vmid s = (s', r) \<Longrightarrow> meta_of root sid' s' = meta_of root sid' s"
proof (cases "sessionDir root sid")
  case (Inr dir)
  assume a: "DirStore_Prepare root sid vmid s = (s', r)"
  then obtain m where "os_MkdirAll dir s = (s', m)"
    by (auto simp: DirStore_Prepare_def Inr split: prod.splits option.splits)
  then show ?thesis
    by (intro meta_of_cong) (auto dest: os_MkdirAll_file os_MkdirAll_file_rev)
qed (auto simp: DirStore_Prepare_def)

lemma Restore_spec:
  assumes "DirStore_Restore unmarshal root sid s = (s', r)"
  shows "fs_tree s' = fs_tree s"
    and "r = Inr rec \<Longrightarrow> \<exists>d. meta_of root sid s = Some d \<and> unmarshal d = Inr rec"
proof -
  show "fs_tree s' = fs_tree s"
    using assms by (auto simp: DirStore_Restore_def simp del: stat_paths.simps dest!: os_ReadFile_tree stat_paths_tree
        split: sum.splits prod.splits option.splits)
  assume "r = Inr rec"
  then obtain dir where d: "sessionDir root sid = Inr dir"
    using assms by (auto simp: DirStore_Restore_def split: sum.splits)
  then have n: "root \<noteq> []" "path_name sid" "dir = path_join [root, sid]" by (auto simp: sessionDir_Inr)
  have "path_clean (path_join [dir, metaName]) = path_join [dir, metaName]"
    using path_clean_join [OF path_join_nonempty [OF n(1,2)] meta_names(1)] n(3) by simp
  then show "\<exists>d. meta_of root sid s = Some d \<and> unmarshal d = Inr rec"
    using assms \<open>r = Inr rec\<close>
    by (auto simp: DirStore_Restore_def meta_of_def d os_ReadFile_def simp del: stat_paths.simps
        split: sum.splits prod.splits option.splits node.splits)
qed

section \<open>The store interface\<close>

locale snapshot_store =
  fixes marshal :: "snap_record \<Rightarrow> string res" and unmarshal :: "string \<Rightarrow> snap_record res"
    and prepare :: "string \<Rightarrow> string \<Rightarrow> 'w \<Rightarrow> 'w \<times> snap_record res"
    and commit :: "snap_record option \<Rightarrow> 'w \<Rightarrow> 'w \<times> snap_record option \<times> gerr option"
    and restore :: "string \<Rightarrow> 'w \<Rightarrow> 'w \<times> snap_record res"
    and delete :: "string \<Rightarrow> 'w \<Rightarrow> 'w \<times> gerr option"
    and saved :: "'w \<Rightarrow> string \<Rightarrow> string option"
  assumes prepare_keeps: "prepare sid vmid w = (w', p) \<Longrightarrow> saved w' = saved w"
    and commit_saves: "commit (Some rec) w = (w', ro, None) \<Longrightarrow>
      \<exists>rec' d. ro = Some rec' \<and> sr_SessionID rec' = sr_SessionID rec \<and> marshal rec' = Inr d
        \<and> saved w' = (saved w)(sr_SessionID rec \<mapsto> d)"
    and commit_fails: "commit ro w = (w', ro', Some e) \<Longrightarrow> saved w' = saved w"
    and restore_keeps: "restore sid w = (w', r) \<Longrightarrow> saved w' = saved w"
    and restore_reads: "restore sid w = (w', Inr rec) \<Longrightarrow> \<exists>d. saved w sid = Some d \<and> unmarshal d = Inr rec"
    and delete_forgets: "delete sid w = (w', None) \<Longrightarrow> saved w' = (saved w)(sid := None)"
    and delete_others: "delete sid w = (w', x) \<Longrightarrow> sid' \<noteq> sid \<Longrightarrow> saved w' sid' = saved w sid'"
begin

text \<open>What is restored after a commit of the same session is what was committed.\<close>

lemma restore_after_commit:
  assumes "commit (Some rec) w = (w1, Some rec', None)" and "restore (sr_SessionID rec) w1 = (w2, Inr got)"
    and "\<And>r d. marshal r = Inr d \<Longrightarrow> unmarshal d = Inr r"
  shows "got = rec'"
proof -
  obtain d where "marshal rec' = Inr d" "saved w1 (sr_SessionID rec) = Some d"
    using commit_saves [OF assms(1)] by auto
  then show ?thesis using restore_reads [OF assms(2)] assms(3) by fastforce
qed

lemma restore_after_delete:
  assumes "delete sid w = (w1, None)"
  shows "\<exists>e. snd (restore sid w1) = Inl e"
  using restore_reads [of sid w1 "fst (restore sid w1)"] delete_forgets [OF assms]
  by (cases "snd (restore sid w1)") (auto, metis option.distinct(1) prod.collapse fun_upd_same)

end

lemma Commit_saves:
  assumes "DirStore_Commit marshal now root (Some rec) s = (s', ro, None)"
  shows "\<exists>rec' d. ro = Some rec' \<and> sr_SessionID rec' = sr_SessionID rec \<and> marshal rec' = Inr d
    \<and> (\<lambda>sid. meta_of root sid s') = (\<lambda>sid. meta_of root sid s)(sr_SessionID rec \<mapsto> d)"
proof -
  obtain rec' data s2 where r: "ro = Some rec'" "marshal rec' = Inr data" "sr_SessionID rec' = sr_SessionID rec"
    and n: "root \<noteq> []" "path_name (sr_SessionID rec)"
    and w: "write_meta (path_join [root, sr_SessionID rec]) data s2 = (s', None)"
    using Commit_ok [OF assms] by metis
  have "meta_of root (sr_SessionID rec) s' = Some data"
    using write_meta_spec(1) [OF n w] n by (simp add: meta_of_Some)
  then have "(\<lambda>sid. meta_of root sid s') = (\<lambda>sid. meta_of root sid s)(sr_SessionID rec \<mapsto> data)"
    using Commit_others [OF assms] by auto
  with r show ?thesis by blast
qed

interpretation dir_store: snapshot_store marshal unmarshal "DirStore_Prepare root" "DirStore_Commit marshal now root"
    "DirStore_Restore unmarshal root" "DirStore_Delete root" "\<lambda>s sid. meta_of root sid s"
  for marshal unmarshal now root
proof unfold_locales
  fix sid w w' assume d: "DirStore_Delete root sid w = (w', None)"
  show "(\<lambda>sid. meta_of root sid w') = (\<lambda>sid. meta_of root sid w)(sid := None)"
    using Delete_spec [OF d] by auto
next
  fix sid vmid w w' p assume "DirStore_Prepare root sid vmid w = (w', p)"
  then show "(\<lambda>sid. meta_of root sid w') = (\<lambda>sid. meta_of root sid w)" by (intro ext) (rule Prepare_meta)
next
  fix ro w w' ro' e assume "DirStore_Commit marshal now root ro w = (w', ro', Some e)"
  then show "(\<lambda>sid. meta_of root sid w') = (\<lambda>sid. meta_of root sid w)" by (intro ext) (rule Commit_fail)
next
  fix sid w w' r assume "DirStore_Restore unmarshal root sid w = (w', r)"
  then show "(\<lambda>sid. meta_of root sid w') = (\<lambda>sid. meta_of root sid w)"
    using meta_of_tree [OF Restore_spec(1)] by blast
qed (fact Commit_saves Restore_spec(2) [OF _ refl] Delete_spec(2))+

interpretation unsupported: snapshot_store marshal unmarshal "\<lambda>sid vmid w. (w, Unsupported_Prepare sid vmid)"
    "\<lambda>r w. (w, r, Unsupported_Commit r)" "\<lambda>sid w. (w, Unsupported_Restore sid)"
    "\<lambda>sid w. (w, Unsupported_Delete sid)" "\<lambda>w sid. None" for marshal unmarshal
  by unfold_locales (simp_all add: Unsupported_Commit_def Unsupported_Restore_def Unsupported_Delete_def)

section \<open>What a restore reads\<close>

text \<open>The record has the paths that \<open>Prepare\<close> gives the session.\<close>

definition prepared_paths :: "string \<Rightarrow> string \<Rightarrow> snap_record \<Rightarrow> bool" where
  "prepared_paths root sid r = (sr_SnapshotPath r = path_join [path_join [root, sid], ''vm.snap'']
     \<and> sr_MemoryPath r = path_join [path_join [root, sid], ''vm.mem''])"

lemma vm_names: "path_name ''vm.snap''" "path_name ''vm.mem''"
  by (simp_all add: path_name_def)

text \<open>On a disk that does not fail, \<open>Restore\<close> depends on the metadata file and the two files it names.\<close>

lemma stat_paths_cong:
  assumes "\<And>n. fs_fault s n = None" "\<And>n. fs_fault s' n = None"
    and "\<forall>p \<in> set ps. fs_tree s' (path_clean p) = fs_tree s (path_clean p)"
  shows "snd (stat_paths sid ps s') = snd (stat_paths sid ps s)"
  using assms
proof (induction ps arbitrary: s s')
  case (Cons p ps)
  have "snd (stat_paths sid ps (tick s')) = snd (stat_paths sid ps (tick s))"
    by (rule Cons.IH) (use Cons.prems in \<open>auto simp: tick_def\<close>)
  then show ?case using Cons.prems by (simp add: os_Stat_def fault_now_def split: option.split)
qed simp

lemma Restore_cong:
  assumes f: "\<And>n. fs_fault s n = None" "\<And>n. fs_fault s' n = None"
    and m: "fs_tree s' (path_join [path_join [root, sid], metaName]) = fs_tree s (path_join [path_join [root, sid], metaName])"
    and p: "\<And>d r q. meta_of root sid s = Some d \<Longrightarrow> unmarshal d = Inr r \<Longrightarrow> q \<in> {sr_SnapshotPath r, sr_MemoryPath r} \<Longrightarrow>
      fs_tree s' (path_clean q) = fs_tree s (path_clean q)"
  shows "snd (DirStore_Restore unmarshal root sid s') = snd (DirStore_Restore unmarshal root sid s)"
proof (cases "sessionDir root sid")
  case (Inr dir)
  then have n: "root \<noteq> []" "path_name sid" "dir = path_join [root, sid]" by (simp_all add: sessionDir_Inr)
  have c: "path_clean (path_join [dir, metaName]) = path_join [dir, metaName]"
    unfolding n(3) by (rule path_clean_join [OF path_join_nonempty [OF n(1,2)] meta_names(1)])
  have st: "snd (stat_paths sid [sr_SnapshotPath r, sr_MemoryPath r] (tick s')) =
      snd (stat_paths sid [sr_SnapshotPath r, sr_MemoryPath r] (tick s))"
    if "fs_tree s (path_join [dir, metaName]) = Some (File d)" "unmarshal d = Inr r" for d r
  proof (rule stat_paths_cong)
    have "meta_of root sid s = Some d" using that(1) n by (simp add: meta_of_Some)
    then show "\<forall>q \<in> set [sr_SnapshotPath r, sr_MemoryPath r]. fs_tree (tick s') (path_clean q) = fs_tree (tick s) (path_clean q)"
      using p [OF _ that(2)] by (simp add: tick_def)
  qed (simp_all add: tick_def f)
  obtain x where r: "os_ReadFile (path_join [dir, metaName]) s' = (tick s', x)" "os_ReadFile (path_join [dir, metaName]) s = (tick s, x)"
    using m c by (simp add: os_ReadFile_def fault_now_def f n(3))
  show ?thesis
  proof (cases x)
    case R: (Inr raw)
    then have t: "fs_tree s (path_join [dir, metaName]) = Some (File raw)"
      using r(2) by (auto simp: os_ReadFile_def fault_now_def f c split: option.splits node.splits)
    show ?thesis
    proof (cases "unmarshal raw")
      case U: (Inr rec)
      show ?thesis unfolding DirStore_Restore_def using st [OF t U]
        by (simp add: Inr r R U case_prod_beta del: stat_paths.simps split: option.split)
    qed (simp add: DirStore_Restore_def Inr r R)
  qed (simp add: DirStore_Restore_def Inr r)
qed (simp add: DirStore_Restore_def)

text \<open>After a commit: the session itself, and every other one.\<close>

lemma Restore_committed:
  assumes "DirStore_Commit marshal now root (Some rec) s = (s', Some rec', None)"
    and "\<And>r d. marshal r = Inr d \<Longrightarrow> unmarshal d = Inr r"
    and "prepared_paths root (sr_SessionID rec) rec"
    and "\<And>n. fs_fault s' n = None"
  shows "snd (DirStore_Restore unmarshal root (sr_SessionID rec) s') = Inr rec'"
proof -
  let ?sid = "sr_SessionID rec"
  let ?dir = "path_join [root, ?sid]"
  note paths = assms(3) [unfolded prepared_paths_def]
  obtain rec2 data s2 where ro: "Some rec' = Some rec2" and m: "marshal rec2 = Inr data"
    and p: "sr_SnapshotPath rec2 = sr_SnapshotPath rec" "sr_MemoryPath rec2 = sr_MemoryPath rec"
    and n: "root \<noteq> []" "path_name ?sid"
    and f: "\<exists>d. d \<noteq> [] \<and> fs_tree s (path_clean (sr_SnapshotPath rec)) = Some (File d)"
      "\<exists>d. d \<noteq> [] \<and> fs_tree s (path_clean (sr_MemoryPath rec)) = Some (File d)"
    and ne: "sr_SnapshotPath rec \<noteq> []" "sr_MemoryPath rec \<noteq> []"
    and w: "fs_tree s2 = fs_tree s" "write_meta ?dir data s2 = (s', None)"
    using Commit_ok [OF assms(1)] by metis
  note spec = write_meta_spec [OF n w(2)]
  have dir: "?dir \<noteq> []" by (rule path_join_nonempty [OF n])
  have keep: "fs_tree s' (path_join [?dir, m]) = fs_tree s (path_join [?dir, m])"
    if "path_name m" "m \<noteq> metaName" "m \<noteq> metaName @ ''.tmp''" for m
    using spec(3) path_join_inject [OF dir that(1)] meta_names that w(1) by simp
  have st: "\<exists>d. fs_tree s' (path_join [?dir, ''vm.snap'']) = Some (File d)" "\<exists>d. fs_tree s' (path_join [?dir, ''vm.mem'']) = Some (File d)"
    using f keep [OF vm_names(1)] keep [OF vm_names(2)] paths path_clean_join [OF dir] vm_names
    by (auto simp: metaName_def)
  have ok: "fault_now s' = None" "fault_now (tick s') = None" "fault_now (tick (tick s')) = None"
    using assms(4) by (simp_all add: fault_now_def tick_def)
  have sd: "sessionDir root ?sid = Inr ?dir" using n by (simp add: sessionDir_Inr)
  have "os_ReadFile (path_join [?dir, metaName]) s' = (tick s', Inr data)"
    using spec(1) path_clean_join [OF dir meta_names(1)] by (simp add: os_ReadFile_def ok)
  then show ?thesis
    using st ro ne p assms(2) [OF m] path_clean_join [OF dir] vm_names paths
    by (auto simp: DirStore_Restore_def sd os_Stat_def ok)
qed

lemma Restore_others:
  assumes "DirStore_Commit marshal now root (Some rec) s = (s', Some rec', None)" and other: "sid \<noteq> sr_SessionID rec"
    and f: "\<And>n. fs_fault s n = None" "\<And>n. fs_fault s' n = None"
    and paths: "\<And>d r. meta_of root sid s = Some d \<Longrightarrow> unmarshal d = Inr r \<Longrightarrow> prepared_paths root sid r"
  shows "snd (DirStore_Restore unmarshal root sid s') = snd (DirStore_Restore unmarshal root sid s)"
proof (cases "path_name sid")
  case False
  then obtain e where "sessionDir root sid = Inl e" using sessionDir_Inr by (cases "sessionDir root sid") auto
  then show ?thesis by (simp add: DirStore_Restore_def)
next
  case True
  obtain data s2 where n: "root \<noteq> []" "path_name (sr_SessionID rec)"
    and w: "fs_tree s2 = fs_tree s" "write_meta (path_join [root, sr_SessionID rec]) data s2 = (s', None)"
    using Commit_ok [OF assms(1)] by metis
  have keep: "fs_tree s' (path_join [path_join [root, sid], m]) = fs_tree s (path_join [path_join [root, sid], m])"
    if "path_name m" for m
    using write_meta_spec(3) [OF n w(2)] path_join_two_inject [OF n(1) True n(2) that] meta_names other w(1) by simp
  show ?thesis
  proof (rule Restore_cong [OF f keep [OF meta_names(1)]])
    fix d r q assume a: "meta_of root sid s = Some d" "unmarshal d = Inr r" "q \<in> {sr_SnapshotPath r, sr_MemoryPath r}"
    then obtain m where q: "q = path_join [path_join [root, sid], m]" "path_name m"
      using paths [OF a(1,2)] vm_names by (auto simp: prepared_paths_def)
    then show "fs_tree s' (path_clean q) = fs_tree s (path_clean q)"
      using keep path_clean_join [OF path_join_nonempty [OF n(1) True]] by simp
  qed
qed

section \<open>Properties\<close>

text \<open>A store with one session directory that holds both files, for concrete runs.\<close>

definition sample_rec :: snap_record where
  "sample_rec = zero_record\<lparr>sr_SessionID := ''a'', sr_VMID := ''vm-1'', sr_SnapshotPath := ''/r/a/vm.snap'',
     sr_MemoryPath := ''/r/a/vm.mem'', sr_Generation := 1\<rparr>"

definition sample_committed :: snap_record where
  "sample_committed = sample_rec\<lparr>sr_CreatedAt := Some 7, sr_Path := ''/r/a''\<rparr>"

definition sample_marshal :: "snap_record \<Rightarrow> string res" where
  "sample_marshal r = (if r = sample_committed then Inr ''A'' else Inl (Errorf ''marshal'' []))"

definition sample_unmarshal :: "string \<Rightarrow> snap_record res" where
  "sample_unmarshal d = (if d = ''A'' then Inr sample_committed else Inl (Errorf ''unmarshal'' []))"

definition sample_fs :: fs where
  "sample_fs = \<lparr>fs_tree = [''/r'' \<mapsto> Dir, ''/r/a'' \<mapsto> Dir, ''/r/a/vm.snap'' \<mapsto> File ''s'', ''/r/a/vm.mem'' \<mapsto> File ''m''],
     fs_fault = \<lambda>_. None, fs_count = 0, fs_gone = \<lambda>_ _. False\<rparr>"

lemma sample_paths:
  "path_join [''/r'', ''a''] = ''/r/a''" "path_join [''/r/a'', metaName] = ''/r/a/meta.json''"
  "path_join [''/r/a'', metaName @ ''.tmp''] = ''/r/a/meta.json.tmp''"
  "path_join [''/r/a'', ''vm.snap''] = ''/r/a/vm.snap''" "path_join [''/r/a'', ''vm.mem''] = ''/r/a/vm.mem''"
  "path_clean ''/r/a/meta.json'' = ''/r/a/meta.json''" "path_clean ''/r/a/meta.json.tmp'' = ''/r/a/meta.json.tmp''"
  "path_clean ''/r/a/vm.snap'' = ''/r/a/vm.snap''" "path_clean ''/r/a/vm.mem'' = ''/r/a/vm.mem''"
  "path_dir ''/r/a/meta.json'' = ''/r/a''" "path_dir ''/r/a/meta.json.tmp'' = ''/r/a''"
  "sessionDir ''/r'' ''a'' = Inr ''/r/a''"
  by code_simp+

lemma sample_Commit:
  "\<exists>s'. DirStore_Commit sample_marshal 7 ''/r'' (Some sample_rec) sample_fs = (s', Some sample_committed, None)
     \<and> (\<forall>n. fs_fault s' n = None)"
proof -
  have f: "sr_SessionID sample_rec = ''a''" "sr_SnapshotPath sample_rec = ''/r/a/vm.snap''"
    "sr_MemoryPath sample_rec = ''/r/a/vm.mem''" "sr_RootfsPath sample_rec = []" "sr_CreatedAt sample_rec = None"
    by (simp_all add: sample_rec_def zero_record_def)
  show ?thesis
    by (simp add: DirStore_Commit_def f sample_paths os_Stat_def sample_fs_def fault_now_def tick_def stat_rootfs_def
        sample_marshal_def sample_committed_def write_meta_def os_WriteFile_def os_Rename_def parent_ok_def put_def)
qed

text \<open>
  C22. Fail-closed commit: \<open>Commit\<close> returns nil only if snapshot and memory file existed and
  were not empty, and then exactly the metadata of that session has changed, to the text of
  the completed record. If it returns an error, at whichever file operation, the metadata of
  every session is what it was.
\<close>

theorem Commit_fail_closed:
  assumes "DirStore_Commit marshal now root (Some rec) s = (s', ro, r)"
  shows "case r of
       None \<Rightarrow> \<exists>rec' data snap mem. ro = Some rec' \<and> marshal rec' = Inr data
         \<and> fs_tree s (path_clean (sr_SnapshotPath rec)) = Some (File snap) \<and> snap \<noteq> []
         \<and> fs_tree s (path_clean (sr_MemoryPath rec)) = Some (File mem) \<and> mem \<noteq> []
         \<and> (\<lambda>sid. meta_of root sid s') = (\<lambda>sid. meta_of root sid s)(sr_SessionID rec \<mapsto> data)
     | Some e \<Rightarrow> (\<lambda>sid. meta_of root sid s') = (\<lambda>sid. meta_of root sid s)"
proof (cases r)
  case None
  with assms have c: "DirStore_Commit marshal now root (Some rec) s = (s', ro, None)" by simp
  show ?thesis
    using Commit_saves [OF c] by (simp add: None) (rule Commit_ok [OF c], metis)
next
  case (Some e)
  then show ?thesis using Commit_fail assms by auto
qed

theorem Commit_fail_closed_witness:
  "\<exists>s'. DirStore_Commit sample_marshal 7 ''/r'' (Some sample_rec) sample_fs = (s', Some sample_committed, None)
     \<and> (\<lambda>sid. meta_of ''/r'' sid s') = (\<lambda>sid. meta_of ''/r'' sid sample_fs)(''a'' \<mapsto> ''A'')"
proof -
  obtain s' where c: "DirStore_Commit sample_marshal 7 ''/r'' (Some sample_rec) sample_fs = (s', Some sample_committed, None)"
    using sample_Commit by blast
  have "sr_SessionID sample_rec = ''a''" by (simp add: sample_rec_def)
  with c Commit_fail_closed [OF c] show ?thesis by (auto simp: sample_marshal_def)
qed

text \<open>
  C23. A committed session comes back and the others stay: after a successful \<open>Commit\<close> of a record
  with the paths \<open>Prepare\<close> gives, and if no file operation fails and the JSON of a record is read
  back as that record, \<open>Restore\<close> of the session returns the record as committed. \<open>Restore\<close> of any
  other session, whose record, if it has one, has the paths \<open>Prepare\<close> gives it, answers what it
  answered before the commit, its errors included.
\<close>

theorem Commit_then_Restore:
  assumes "DirStore_Commit marshal now root (Some rec) s = (s', Some rec', None)"
    and "\<And>r d. marshal r = Inr d \<Longrightarrow> unmarshal d = Inr r"
    and "prepared_paths root (sr_SessionID rec) rec"
    and "\<And>n. fs_fault s n = None" "\<And>n. fs_fault s' n = None"
  shows "snd (DirStore_Restore unmarshal root (sr_SessionID rec) s') = Inr rec'
    \<and> (\<forall>sid. sid \<noteq> sr_SessionID rec
         \<and> (\<forall>d r. meta_of root sid s = Some d \<and> unmarshal d = Inr r \<longrightarrow> prepared_paths root sid r)
         \<longrightarrow> snd (DirStore_Restore unmarshal root sid s') = snd (DirStore_Restore unmarshal root sid s))"
  using Restore_committed [OF assms(1,2,3,5)] Restore_others [OF assms(1) _ assms(4,5)] by auto

theorem Commit_then_Restore_witness:
  "\<exists>s'. DirStore_Commit sample_marshal 7 ''/r'' (Some sample_rec) sample_fs = (s', Some sample_committed, None)
     \<and> snd (DirStore_Restore sample_unmarshal ''/r'' ''a'' s') = Inr sample_committed
     \<and> snd (DirStore_Restore sample_unmarshal ''/r'' ''b'' s') = snd (DirStore_Restore sample_unmarshal ''/r'' ''b'' sample_fs)"
proof -
  obtain s' where c: "DirStore_Commit sample_marshal 7 ''/r'' (Some sample_rec) sample_fs = (s', Some sample_committed, None)"
      "\<And>n. fs_fault s' n = None"
    using sample_Commit by blast
  have m: "sample_marshal r = Inr d \<Longrightarrow> sample_unmarshal d = Inr r" for r d
    by (auto simp: sample_marshal_def sample_unmarshal_def split: if_splits)
  have sid: "sr_SessionID sample_rec = ''a''" by (simp add: sample_rec_def)
  have p: "prepared_paths ''/r'' (sr_SessionID sample_rec) sample_rec"
    unfolding sid prepared_paths_def sample_paths by (simp add: sample_rec_def)
  have "sessionDir ''/r'' ''b'' = Inr ''/r/b''" "path_join [''/r/b'', metaName] = ''/r/b/meta.json''" by code_simp+
  then have b: "meta_of ''/r'' ''b'' sample_fs = None" by (simp add: meta_of_def sample_fs_def)
  have "fs_fault sample_fs n = None" for n by (simp add: sample_fs_def)
  from Commit_then_Restore [OF c(1) m p this c(2)] show ?thesis using c(1) sid b by auto
qed

text \<open>
  Sessions do not touch each other: deleting a session leaves the metadata of every other
  one in place, and a deleted session is gone.
\<close>

theorem Delete_is_local:
  assumes "DirStore_Delete root sid s = (s', r)"
  shows "(\<forall>sid'. sid' \<noteq> sid \<longrightarrow> meta_of root sid' s' = meta_of root sid' s)
    \<and> (r = None \<longrightarrow> meta_of root sid s' = None)"
  using Delete_spec [OF assms] by blast

theorem Delete_is_local_witness:
  "meta_of ''/r'' ''b'' (fst (DirStore_Delete ''/r'' ''a'' sample_fs)) = meta_of ''/r'' ''b'' sample_fs
   \<and> meta_of ''/r'' ''a'' (fst (DirStore_Delete ''/r'' ''a'' sample_fs)) = None"
proof -
  have "snd (DirStore_Delete ''/r'' ''a'' sample_fs) = None"
    by (simp add: DirStore_Delete_def sample_paths os_RemoveAll_def fault_now_def sample_fs_def)
  then have "DirStore_Delete ''/r'' ''a'' sample_fs = (fst (DirStore_Delete ''/r'' ''a'' sample_fs), None)"
    by (metis prod.collapse)
  from Delete_is_local [OF this] show ?thesis by simp
qed

end
