(* ===== verification/Sparse_Diff.thy ===== *)
theory Sparse_Diff
  imports Warden_Prelude
begin

text \<open>
  File \<open>sparse.go\<close> of \<open>internal/runtime\<close>: rebasing a memory image onto a sparse diff. A sparse
  file is a list of bytes in which \<open>None\<close> is a hole; \<open>SEEK_DATA\<close> and \<open>SEEK_HOLE\<close> move to the
  next byte with data and to the next hole, the end of the file counting as a hole, and
  \<open>SEEK_DATA\<close> fails with \<open>ENXIO\<close> when no data follow. Every system call of a round of the loop
  may fail for another reason: \<open>flt k\<close> is the failure of the \<open>k\<close>-th round, if any.
\<close>

section \<open>Sparse files\<close>

type_synonym sparse = "char option list"

definition seek_data :: "nat \<Rightarrow> sparse \<Rightarrow> nat option" where
  "seek_data off d =
     (let k = length (takeWhile (\<lambda>c. c = None) (drop off d))
      in if off + k < length d then Some (off + k) else None)"

definition seek_hole :: "nat \<Rightarrow> sparse \<Rightarrow> nat" where
  "seek_hole start d = start + length (takeWhile (\<lambda>c. c \<noteq> None) (drop start d))"

text \<open>Writing at an offset extends the file with zero bytes when it is too short.\<close>

definition write_at :: "string \<Rightarrow> nat \<Rightarrow> string \<Rightarrow> string" where
  "write_at base start bs =
     take start (base @ replicate (start - length base) (CHR 0x00)) @ bs @ drop (start + length bs) base"

definition read_range :: "nat \<Rightarrow> nat \<Rightarrow> sparse \<Rightarrow> string" where
  "read_range a b d = map (\<lambda>c. case c of Some x \<Rightarrow> x | None \<Rightarrow> CHR 0x00) (take (b - a) (drop a d))"

section \<open>The loop\<close>

record sparse_os =
  so_seekData :: "nat \<Rightarrow> gerr option"
  so_seekHole :: "nat \<Rightarrow> gerr option"
  so_seekDiff :: "nat \<Rightarrow> gerr option"
  so_seekBase :: "nat \<Rightarrow> gerr option"
  so_copy :: "nat \<Rightarrow> (gerr \<times> nat) option"

datatype round = Stop string "gerr option" | Next nat string

definition sparse_round :: "sparse_os \<Rightarrow> sparse \<Rightarrow> nat \<Rightarrow> nat \<Rightarrow> string \<Rightarrow> round" where
  "sparse_round F d k off base = (case so_seekData F k of
       Some e \<Rightarrow> Stop base (Some (Wrapf ''seek data %d: %w'' [] e))
     | None \<Rightarrow> (case seek_data off d of
         None \<Rightarrow> Stop base None
       | Some start \<Rightarrow> (case so_seekHole F k of
           Some e \<Rightarrow> Stop base (Some (Wrapf ''seek hole %d: %w'' [] e))
         | None \<Rightarrow>
             let stop = seek_hole start d in
             if stop \<le> start then Stop base None
             else (case so_seekDiff F k of
                 Some e \<Rightarrow> Stop base (Some e)
               | None \<Rightarrow> (case so_seekBase F k of
                   Some e \<Rightarrow> Stop base (Some e)
                 | None \<Rightarrow> (case so_copy F k of
                     Some (e, n) \<Rightarrow>
                       Stop (write_at base start (take n (read_range start stop d))) (Some (Wrapf ''copy extent [%d,%d): %w'' [] e))
                   | None \<Rightarrow> Next stop (write_at base start (read_range start stop d))))))))"

lemma seek_data_le: "seek_data off d = Some start \<Longrightarrow> off \<le> start \<and> start < length d"
  by (auto simp: seek_data_def Let_def split: if_splits)

lemma seek_hole_le: "start \<le> length d \<Longrightarrow> seek_hole start d \<le> length d"
  using length_takeWhile_le [of "\<lambda>c. c \<noteq> None" "drop start d"] by (simp add: seek_hole_def)

lemma round_next:
  "sparse_round F d k off base = Next e b \<Longrightarrow>
     \<exists>start. seek_data off d = Some start \<and> e = seek_hole start d \<and> start < e \<and> b = write_at base start (read_range start e d)"
  by (auto simp: sparse_round_def Let_def split: option.splits if_splits prod.splits)

lemma round_progress: "sparse_round F d k off base = Next e b \<Longrightarrow> off < e \<and> e \<le> length d"
  using round_next [of F d k off base e b] seek_data_le seek_hole_le by fastforce

function sparse_loop :: "sparse_os \<Rightarrow> sparse \<Rightarrow> nat \<Rightarrow> nat \<Rightarrow> string \<Rightarrow> string \<times> gerr option" where
  "sparse_loop F d k off base = (case sparse_round F d k off base of
       Stop b r \<Rightarrow> (b, r)
     | Next e b \<Rightarrow> sparse_loop F d (Suc k) e b)"
  by pat_completeness auto
termination
  by (relation "measure (\<lambda>(F, d, k, off, base). length d - off)") (auto dest: round_progress)

declare sparse_loop.simps [simp del]

text \<open>
  \<open>applySparseDiff\<close> on the contents of the two files: what the base holds afterwards. A file
  that cannot be opened is \<open>Inl\<close>.
\<close>

definition applySparseDiff :: "sparse_os \<Rightarrow> sparse res \<Rightarrow> string res \<Rightarrow> string res \<times> gerr option" where
  "applySparseDiff F diff base = (case diff of
       Inl e \<Rightarrow> (base, Some (Wrapf ''open diff: %w'' [] e))
     | Inr d \<Rightarrow> (case base of
         Inl e \<Rightarrow> (base, Some (Wrapf ''open base mem: %w'' [] e))
       | Inr b \<Rightarrow> (case sparse_loop F d 0 0 b of (b', r) \<Rightarrow> (Inr b', r))))"

section \<open>The rebased image\<close>

text \<open>The reference: byte by byte, the diff where it has data and the base elsewhere.\<close>

definition data_end :: "sparse \<Rightarrow> nat" where
  "data_end d = length (dropWhile (\<lambda>c. c = None) (rev d))"

definition pick :: "string \<Rightarrow> sparse \<Rightarrow> nat \<Rightarrow> char" where
  "pick base d i =
     (if i < length d \<and> d ! i \<noteq> None then the (d ! i) else if i < length base then base ! i else CHR 0x00)"

definition overlay :: "string \<Rightarrow> sparse \<Rightarrow> string" where
  "overlay base d = map (pick base d) [0..<max (length base) (data_end d)]"

text \<open>The part of a diff from an offset on.\<close>

definition from_off :: "nat \<Rightarrow> sparse \<Rightarrow> sparse" where
  "from_off off d = replicate off None @ drop off d"

lemma data_end_snoc: "data_end (d @ [c]) = (if c = None then data_end d else Suc (length d))"
  by (simp add: data_end_def)

lemma data_end_le: "data_end d \<le> k \<longleftrightarrow> (\<forall>i. k \<le> i \<longrightarrow> i < length d \<longrightarrow> d ! i = None)"
proof (induction d rule: rev_induct)
  case Nil
  then show ?case by (simp add: data_end_def)
next
  case (snoc c d)
  show ?case
  proof (cases "c = None")
    case True
    then show ?thesis using snoc by (auto simp: data_end_snoc nth_append less_Suc_eq)
  next
    case False
    then show ?thesis by (auto simp: data_end_snoc nth_append not_less_eq_eq Suc_le_eq intro!: exI [of _ "length d"])
  qed
qed

lemma from_off_nth: "i < length (from_off off d) \<Longrightarrow> off \<le> length d \<Longrightarrow> from_off off d ! i = (if i < off then None else d ! i)"
  by (auto simp: from_off_def nth_append)

lemma from_off_length: "off \<le> length d \<Longrightarrow> length (from_off off d) = length d"
  by (simp add: from_off_def)

lemma length_read_range: "b \<le> length d \<Longrightarrow> length (read_range a b d) = b - a"
  by (simp add: read_range_def)

lemma nth_read_range:
  "a + i < b \<Longrightarrow> b \<le> length d \<Longrightarrow> d ! (a + i) \<noteq> None \<Longrightarrow> read_range a b d ! i = the (d ! (a + i))"
  by (auto simp: read_range_def)

lemma length_write_at: "bs \<noteq> [] \<Longrightarrow> length (write_at base s bs) = max (length base) (s + length bs)"
  by (simp add: write_at_def)

lemma nth_write_at:
  "i < length (write_at base s bs) \<Longrightarrow> write_at base s bs ! i =
     (if i < s then (if i < length base then base ! i else CHR 0x00)
      else if i < s + length bs then bs ! (i - s) else base ! i)"
  by (auto simp: write_at_def nth_append min_def)

lemma takeWhile_nth_holds: "j < length (takeWhile P xs) \<Longrightarrow> P (xs ! j)"
  by (metis nth_mem set_takeWhileD takeWhile_nth)

lemma seek_facts:
  assumes "seek_data off d = Some start" and "stop = seek_hole start d"
  shows "\<And>i. off \<le> i \<Longrightarrow> i < start \<Longrightarrow> d ! i = None" and "\<And>i. start \<le> i \<Longrightarrow> i < stop \<Longrightarrow> d ! i \<noteq> None"
    and "stop \<le> length d" and "off \<le> length d"
proof -
  have s: "start = off + length (takeWhile (\<lambda>c. c = None) (drop off d))" "off \<le> start" "start < length d"
    using assms(1) seek_data_le [OF assms(1)] by (auto simp: seek_data_def Let_def split: if_splits)
  show "off \<le> length d" using s by simp
  show le: "stop \<le> length d" using seek_hole_le [of start d] s(3) assms(2) by simp
  show "d ! i = None" if "off \<le> i" "i < start" for i
  proof -
    have "i - off < length (takeWhile (\<lambda>c. c = None) (drop off d))" using that s by linarith
    then have "drop off d ! (i - off) = None" by (rule takeWhile_nth_holds)
    then show ?thesis using that s by simp
  qed
  show "d ! i \<noteq> None" if "start \<le> i" "i < stop" for i
  proof -
    have "i - start < length (takeWhile (\<lambda>c. c \<noteq> None) (drop start d))" using that assms(2) by (simp add: seek_hole_def)
    then have "drop start d ! (i - start) \<noteq> None" by (rule takeWhile_nth_holds)
    then show ?thesis using that s by simp
  qed
qed

lemma pick_from:
  "off \<le> length d \<Longrightarrow> pick X (from_off off d) i =
     (if i < length d \<and> off \<le> i \<and> d ! i \<noteq> None then the (d ! i) else if i < length X then X ! i else CHR 0x00)"
  by (auto simp: pick_def from_off_length from_off_nth)

lemma overlay_step:
  assumes "seek_data off d = Some start" and "stop = seek_hole start d" and "start < stop"
  shows "overlay (write_at base start (read_range start stop d)) (from_off stop d) = overlay base (from_off off d)"
proof -
  note f = seek_facts [OF assms(1,2)]
  have off: "off \<le> start" using seek_data_le [OF assms(1)] by simp
  define bs where "bs = read_range start stop d"
  have bs: "length bs = stop - start" "bs \<noteq> []" "\<And>i. start \<le> i \<Longrightarrow> i < stop \<Longrightarrow> bs ! (i - start) = the (d ! i)"
    using length_read_range [OF f(3), of start] assms(3) nth_read_range [of start _ stop d] f(2,3) by (auto simp: bs_def)
  have de: "data_end (from_off off d) = max stop (data_end (from_off stop d))"
  proof -
    have "data_end (from_off off d) \<le> k \<longleftrightarrow> stop \<le> k \<and> data_end (from_off stop d) \<le> k" for k
    proof -
      have "stop \<le> k" if "\<forall>i. \<not> i < off \<longrightarrow> k \<le> i \<longrightarrow> i < length d \<longrightarrow> d ! i = None"
      proof (rule ccontr)
        assume "\<not> stop \<le> k"
        moreover have "d ! (stop - 1) \<noteq> None" using f(2) [of "stop - 1"] assms(3) by simp
        ultimately show False using that f(3) off assms(3) by (metis diff_less le_add_diff_inverse2 less_le_trans
          Suc_leI Suc_pred' less_Suc_eq_le less_nat_zero_code linorder_not_less not_gr_zero zero_less_one)
      qed
      then show ?thesis
        using f(3,4) off assms(3) by (auto simp: data_end_le from_off_length from_off_nth)
    qed
    then show ?thesis by (metis max_def nle_le)
  qed
  have len: "max (length (write_at base start bs)) (data_end (from_off stop d)) = max (length base) (data_end (from_off off d))"
    using length_write_at [OF bs(2), of base start] bs(1) assms(3) de by simp
  have X: "length (write_at base start bs) = max (length base) stop"
    "i < max (length base) stop \<Longrightarrow> write_at base start bs ! i =
       (if i < start then (if i < length base then base ! i else CHR 0x00) else if i < stop then bs ! (i - start) else base ! i)" for i
    using length_write_at [OF bs(2), of base start] nth_write_at [of i base start bs] bs(1) assms(3) by auto
  have "pick (write_at base start bs) (from_off stop d) i = pick base (from_off off d) i"
    if "i < max (length base) (data_end (from_off off d))" for i
  proof -
    consider "i < start" | "start \<le> i" "i < stop" | "stop \<le> i" by linarith
    then show ?thesis
    proof cases
      case 1
      then have "off \<le> i \<Longrightarrow> d ! i = None" "i < max (length base) stop" "\<not> stop \<le> i" using f(1) [of i] assms(3) by auto
      then show ?thesis unfolding pick_from [OF f(3)] pick_from [OF f(4)] using X 1 by auto
    next
      case 2
      then have "d ! i \<noteq> None" "i < max (length base) stop" "\<not> stop \<le> i" "i < length d" "off \<le> i" using f(2) [of i] f(3) off by auto
      then show ?thesis unfolding pick_from [OF f(3)] pick_from [OF f(4)] using X 2 bs(3) [of i] by auto
    next
      case 3
      then have "off \<le> i" "\<not> i < start" "\<not> i < stop" using off assms(3) by auto
      then show ?thesis unfolding pick_from [OF f(3)] pick_from [OF f(4)] using X 3 by auto
    qed
  qed
  then show ?thesis unfolding overlay_def bs_def [symmetric] len by simp
qed


lemma overlay_done: "data_end d = 0 \<Longrightarrow> overlay base d = base"
proof -
  assume "data_end d = 0"
  then have "\<forall>i < length d. d ! i = None" using data_end_le [of d 0] by simp
  then show ?thesis using \<open>data_end d = 0\<close> by (auto simp: overlay_def pick_def intro!: nth_equalityI)
qed

lemma no_data_left:
  assumes "seek_data off d = None" and "off \<le> length d" shows "data_end (from_off off d) = 0"
proof -
  have "length (takeWhile (\<lambda>c. c = None) (drop off d)) = length (drop off d)"
    using assms length_takeWhile_le [of "\<lambda>c. c = None" "drop off d"] by (auto simp: seek_data_def Let_def split: if_splits)
  then have "drop off d ! i = None" if "i < length (drop off d)" for i
    using takeWhile_nth_holds [of i "\<lambda>c. c = None" "drop off d"] that by metis
  then have "d ! i = None" if "off \<le> i" "i < length d" for i using that by (metis le_add_diff_inverse length_drop nth_drop diff_less_mono assms(2))
  then have "data_end (from_off off d) \<le> 0" using assms(2) unfolding data_end_le by (auto simp: from_off_length from_off_nth)
  then show ?thesis by simp
qed

definition no_faults :: sparse_os where
  "no_faults = \<lparr>so_seekData = \<lambda>_. None, so_seekHole = \<lambda>_. None, so_seekDiff = \<lambda>_. None, so_seekBase = \<lambda>_. None, so_copy = \<lambda>_. None\<rparr>"

lemma hole_after_data: "seek_data off d = Some start \<Longrightarrow> start < seek_hole start d"
proof -
  assume a: "seek_data off d = Some start"
  let ?t = "takeWhile (\<lambda>c. c = None) (drop off d)"
  have s: "start = off + length ?t" "start < length d" using a by (auto simp: seek_data_def Let_def split: if_splits)
  then have "length ?t < length (drop off d)" by simp
  then have "drop off d ! length ?t \<noteq> None" using nth_length_takeWhile [of "\<lambda>c. c = None" "drop off d"] by blast
  then have "d ! start \<noteq> None" using s by simp
  moreover have "drop start d = d ! start # drop (Suc start) d" using s(2) by (simp add: Cons_nth_drop_Suc)
  ultimately show ?thesis by (simp add: seek_hole_def)
qed

text \<open>Without failures the loop reaches the end, and the base is then the overlay.\<close>

lemma sparse_loop_overlay:
  "off \<le> length d \<Longrightarrow> sparse_loop no_faults d k off base = (overlay base (from_off off d), None)"
proof (induction no_faults d k off base rule: sparse_loop.induct)
  case (1 d k off base)
  show ?case
  proof (cases "seek_data off d")
    case None
    then show ?thesis
      using no_data_left [OF None "1.prems"] by (simp add: sparse_loop.simps sparse_round_def no_faults_def overlay_done)
  next
    case (Some start)
    define stop where "stop = seek_hole start d"
    define b where "b = write_at base start (read_range start stop d)"
    have lt: "start < stop" using hole_after_data [OF Some] by (simp add: stop_def)
    then have r: "sparse_round no_faults d k off base = Next stop b"
      using Some by (simp add: sparse_round_def no_faults_def Let_def stop_def b_def)
    have "sparse_loop no_faults d (Suc k) stop b = (overlay b (from_off stop d), None)"
      using "1.hyps" [OF r] round_progress [OF r] by simp
    then show ?thesis
      using overlay_step [OF Some stop_def lt, of base] r by (subst sparse_loop.simps) (simp add: b_def)
  qed
qed

text \<open>Whatever fails, a byte of the base is its own or that of the diff.\<close>

definition mixed :: "string \<Rightarrow> sparse \<Rightarrow> string \<Rightarrow> bool" where
  "mixed base d b \<longleftrightarrow> length base \<le> length b
     \<and> (\<forall>i < length b. b ! i = pick base d i \<or> b ! i = (if i < length base then base ! i else CHR 0x00))"

lemma mixed_write:
  assumes "mixed base d b" and "seek_data off d = Some start" and "stop = seek_hole start d"
  shows "mixed base d (write_at b start (take n (read_range start stop d)))"
proof -
  note f = seek_facts [OF assms(2,3)]
  define bs where "bs = take n (read_range start stop d)"
  have bs: "bs ! (i - start) = pick base d i" if "start \<le> i" "i < start + length bs" for i
  proof -
    have "i < stop" using that length_read_range [OF f(3), of start] by (auto simp: bs_def)
    then show ?thesis
      using that f(2) [of i] f(3) nth_read_range [of start "i - start" stop d] by (auto simp: bs_def pick_def)
  qed
  have len: "length b \<le> length (write_at b start bs)" by (simp add: write_at_def)
  show ?thesis
    unfolding mixed_def bs_def [symmetric]
  proof (intro conjI allI impI)
    show "length base \<le> length (write_at b start bs)" using assms(1) len by (simp add: mixed_def)
    fix i assume i: "i < length (write_at b start bs)"
    then have "\<not> i < start \<Longrightarrow> \<not> i < start + length bs \<Longrightarrow> i < length b" by (auto simp: write_at_def)
    then show "write_at b start bs ! i = pick base d i \<or> write_at b start bs ! i = (if i < length base then base ! i else CHR 0x00)"
      using assms(1) bs [of i] nth_write_at [OF i] by (auto simp: mixed_def)
  qed
qed

lemma sparse_loop_mixed: "mixed base d b \<Longrightarrow> mixed base d (fst (sparse_loop F d k off b))"
proof (induction F d k off b rule: sparse_loop.induct)
  case (1 F d k off b)
  show ?case
  proof (cases "sparse_round F d k off b")
    case (Next e b')
    then obtain start where s: "seek_data off d = Some start" "e = seek_hole start d" "b' = write_at b start (read_range start e d)"
      using round_next by blast
    have "mixed base d b'"
      using mixed_write [OF "1.prems" s(1,2), of "length (read_range start e d)"] s(3) by simp
    then show ?thesis using "1.IH" [OF Next] Next by (subst sparse_loop.simps) simp
  next
    case (Stop b' r)
    then have "b' = b \<or> (\<exists>start n. seek_data off d = Some start \<and> b' = write_at b start (take n (read_range start (seek_hole start d) d)))"
      by (auto simp: sparse_round_def Let_def split: option.splits if_splits prod.splits)
    then have "mixed base d b'" using "1.prems" mixed_write by blast
    then show ?thesis using Stop by (subst sparse_loop.simps) simp
  qed
qed

text \<open>
  C20. Rebasing is exact: on files that can be opened and without failing system calls,
  \<open>applySparseDiff\<close> ends and the base holds, byte by byte, the diff where the diff has data
  and its own byte elsewhere. Whatever system call fails, the loop still ends, and every byte of
  the base is then either its own or the one the diff has there.
\<close>

theorem applySparseDiff_is_overlay:
  "applySparseDiff no_faults (Inr d) (Inr base) = (Inr (overlay base d), None)
   \<and> (\<exists>b r. applySparseDiff F (Inr d) (Inr base) = (Inr b, r) \<and> mixed base d b)"
proof -
  have "mixed base d base" by (simp add: mixed_def)
  then have "mixed base d (fst (sparse_loop F d 0 0 base))" by (rule sparse_loop_mixed)
  then show ?thesis
    using sparse_loop_overlay [of 0 d 0 base]
    by (cases "sparse_loop F d 0 0 base") (simp add: applySparseDiff_def from_off_def)
qed

end
