(* ===== verification/FC_Host.thy ===== *)
theory FC_Host
  imports FC_Api Net_Tap Snapshot_Store Sparse_Diff
begin

text \<open>
  What the Firecracker backend works on. The host is a state: its files, the state of the
  network (of a type the TAP factory chooses), the disk pool, a clock, the number of the next
  interaction with the outside, and the trace of what the backend did. What the outside does at
  the \<open>n\<close>-th interaction is given by the environment \<open>fc_env\<close>: how a process starts, what the
  API answers, what the VMM writes, how a connection behaves. The interfaces of \<open>Config\<close> are
  records of operations on the host.
\<close>

section \<open>The host\<close>

datatype fc_event =
    EStart int "string list" string
  | EKill int "gerr option"
  | EWait int
  | EApi api_call
  | ETapUp link
  | ETapDown link "gerr option"
  | EAttach string
  | EDetach string "gerr option"
  | ECloseStderr string
  | ERemoveAll string "gerr option"

record 'n host =
  h_fs :: fs
  h_net :: 'n
  h_pool :: "file_pool option"
  h_now :: int
  h_step :: nat
  h_trace :: "fc_event list"

datatype race = RFinished | RExited | RCtx

record fc_env =
  fe_go :: go_env
  fe_cp :: "string \<Rightarrow> string \<Rightarrow> fs \<Rightarrow> fs \<times> gerr option"
  fe_start :: "nat \<Rightarrow> string list \<Rightarrow> string \<Rightarrow> int res"
  fe_exists :: "nat \<Rightarrow> string \<Rightarrow> int \<Rightarrow> bool"
  fe_api :: "nat \<Rightarrow> api"
  fe_vmm :: "nat \<Rightarrow> api_call list \<Rightarrow> fs \<Rightarrow> fs"
  fe_race :: "nat \<Rightarrow> race"
  fe_conn :: "nat \<Rightarrow> vsock_conn"
  fe_exits :: "nat \<Rightarrow> bool"
  fe_kill :: "nat \<Rightarrow> int \<Rightarrow> gerr option"
  fe_took :: "nat \<Rightarrow> int"
  fe_hole :: "nat \<Rightarrow> string \<Rightarrow> nat \<Rightarrow> bool"
  fe_sparseOS :: "nat \<Rightarrow> sparse_os"
  fe_look :: "string \<Rightarrow> string option"
  fe_stat :: "string \<Rightarrow> bool"
  fe_text :: "gerr \<Rightarrow> string"

type_synonym 'n action = "'n host \<Rightarrow> 'n host \<times> gerr option"

definition note_event :: "fc_event \<Rightarrow> 'n host \<Rightarrow> 'n host" where
  "note_event ev w = w\<lparr>h_trace := h_trace w @ [ev]\<rparr>"

definition tick_host :: "fc_env \<Rightarrow> 'n host \<Rightarrow> 'n host" where
  "tick_host E w = w\<lparr>h_step := Suc (h_step w), h_now := h_now w + fe_took E (h_step w)\<rparr>"

definition on_fs :: "(fs \<Rightarrow> fs \<times> 'a) \<Rightarrow> 'n host \<Rightarrow> 'n host \<times> 'a" where
  "on_fs op w = (case op (h_fs w) of (s, r) \<Rightarrow> (w\<lparr>h_fs := s\<rparr>, r))"

text \<open>\<open>os.OpenFile\<close> with \<open>O_CREATE\<close> and without \<open>O_TRUNC\<close>, then writing nothing.\<close>

definition os_OpenCreate :: "string \<Rightarrow> fs \<Rightarrow> fs \<times> gerr option" where
  "os_OpenCreate p s = (case fs_tree s (path_clean p) of
       Some (File d) \<Rightarrow> (tick s, map_option fst (fault_now s))
     | _ \<Rightarrow> os_WriteFile p [] s)"

section \<open>The interfaces\<close>

record 'n tap_factory =
  tf_Setup :: "string \<Rightarrow> policy \<Rightarrow> 'n host \<Rightarrow> 'n host \<times> link res"
  tf_Teardown :: "link \<Rightarrow> 'n action"
  tf_Recreate :: "(link \<Rightarrow> policy \<Rightarrow> 'n host \<Rightarrow> 'n host \<times> link \<times> gerr option) option"

record 'n snap_ops =
  sn_Prepare :: "string \<Rightarrow> string \<Rightarrow> 'n host \<Rightarrow> 'n host \<times> snap_record res"
  sn_Commit :: "snap_record \<Rightarrow> 'n host \<Rightarrow> 'n host \<times> snap_record \<times> gerr option"
  sn_Restore :: "string \<Rightarrow> 'n host \<Rightarrow> 'n host \<times> snap_record res"
  sn_Delete :: "string \<Rightarrow> 'n action"

record 'n fc_deps =
  fd_Cgroup :: "(string \<Rightarrow> int \<Rightarrow> profile \<Rightarrow> 'n host \<Rightarrow> 'n host \<times> 'n action res) option"
  fd_Tap :: "'n tap_factory option"
  fd_Snapshots :: "'n snap_ops option"
  fd_Pool :: "(string \<Rightarrow> 'n action) option"

section \<open>Instances\<close>

record 'n vm =
  vi_id :: string
  vi_language :: string
  vi_sessionID :: string
  vi_limits :: profile
  vi_snapRec :: "snap_record option"
  vi_jailed :: bool
  vi_hostRootfs :: string
  vi_cid :: "32 word"
  vi_port :: nat
  vi_workDir :: string
  vi_apiSock :: string
  vi_vsockUDS :: string
  vi_logFile :: string
  vi_pid :: "int option"
  vi_client :: bool
  vi_stderr :: bool
  vi_cgroupCleanup :: "'n action option"
  vi_tap :: "link option"
  vi_dead :: bool

record vmPaths =
  vp_hostRootfs :: string
  vp_guestKernel :: string
  vp_guestRootfs :: string
  vp_guestVsock :: string
  vp_guestLog :: string

definition no_paths :: vmPaths where
  "no_paths = \<lparr>vp_hostRootfs = [], vp_guestKernel = [], vp_guestRootfs = [], vp_guestVsock = [], vp_guestLog = []\<rparr>"

section \<open>Steps on an instance that is being launched\<close>

text \<open>\<open>la_panic\<close> is set when the code dereferences a nil interface, which no caller recovers from.\<close>

record 'n launching =
  la_vm :: "'n vm"
  la_host :: "'n host"
  la_paths :: vmPaths
  la_nic :: "api_body option"
  la_bootArgs :: string
  la_cmd :: "string list"
  la_panic :: bool

type_synonym 'n stage = "'n launching \<Rightarrow> 'n launching \<times> gerr option"

text \<open>Stages run one after the other up to the first error.\<close>

definition and_then :: "'n stage \<Rightarrow> 'n stage \<Rightarrow> 'n stage" where
  "and_then f g l = (case f l of (l1, Some e) \<Rightarrow> (l1, Some e) | (l1, None) \<Rightarrow> g l1)"

fun stages :: "'n stage list \<Rightarrow> 'n stage" where
  "stages [] l = (l, None)"
| "stages (f # fs) l = and_then f (stages fs) l"

definition on_host :: "('n host \<Rightarrow> 'n host \<times> 'a) \<Rightarrow> 'n launching \<Rightarrow> 'n launching \<times> 'a" where
  "on_host op l = (case op (la_host l) of (w, r) \<Rightarrow> (l\<lparr>la_host := w\<rparr>, r))"

text \<open>\<open>kill\<close> ignores the error of the signal, which the trace keeps.\<close>

definition kill :: "fc_env \<Rightarrow> 'n launching \<Rightarrow> 'n launching" where
  "kill E l = (case vi_pid (la_vm l) of
       None \<Rightarrow> l
     | Some pid \<Rightarrow> l\<lparr>la_host := note_event (EKill pid (fe_kill E (h_step (la_host l)) pid)) (la_host l)\<rparr>)"

text \<open>A stage after which the VMM is killed when it fails.\<close>

definition or_kill :: "fc_env \<Rightarrow> 'n stage \<Rightarrow> 'n stage" where
  "or_kill E f l = (case f l of (l1, Some e) \<Rightarrow> (kill E l1, Some e) | (l1, None) \<Rightarrow> (l1, None))"

definition wrap_err :: "string \<Rightarrow> string list \<Rightarrow> gerr option \<Rightarrow> gerr option" where
  "wrap_err fmt as r = map_option (Wrapf fmt as) r"

text \<open>Properties that every stage keeps are kept by all of them together.\<close>

lemma stages_keep:
  assumes "\<And>f l l' r. f \<in> set fs \<Longrightarrow> P l \<Longrightarrow> f l = (l', r) \<Longrightarrow> P l'" and "P l"
  shows "P (fst (stages fs l))"
  using assms
proof (induction fs arbitrary: l)
  case (Cons f fs)
  obtain l1 r where f: "f l = (l1, r)" by fastforce
  then have "P l1" using Cons.prems(1) [of f l l1 r] Cons.prems(2) by simp
  have "P (fst (stages fs l1))"
    by (rule Cons.IH) (use Cons.prems(1) in \<open>meson list.set_intros(2)\<close>, fact)
  with \<open>P l1\<close> show ?case using f by (cases r) (auto simp: and_then_def)
qed simp

end
