(* ===== verification/FC_Launch.thy ===== *)
theory FC_Launch
  imports FC_Host
begin

text \<open>
  Launching and restoring a microVM: \<open>launch\<close>, \<open>preparePathsFrom\<close>, \<open>spawnCmd\<close>, \<open>attachCgroup\<close>
  and \<open>whileAlive\<close> of \<open>firecracker.go\<close>, \<open>launchRestore\<close> and \<open>prepareRestore\<close> of \<open>fcsnap.go\<close>. Each
  is a sequence of stages on the instance and the host, in the order of the code.
\<close>

section \<open>Paths\<close>

definition placeRootfs :: "fc_env \<Rightarrow> fc_config \<Rightarrow> 'n fc_deps \<Rightarrow> string \<Rightarrow> string \<Rightarrow> 'n action" where
  "placeRootfs E cfg deps src dst w = (case fd_Pool deps of
       Some acquire \<Rightarrow>
         if absPath (fe_go E) src = absPath (fe_go E) (fc_Rootfs cfg) then acquire dst w
         else on_fs (cloneFile (fe_cp E) src dst) w
     | None \<Rightarrow> on_fs (cloneFile (fe_cp E) src dst) w)"

definition jail_vm :: "jailLayout \<Rightarrow> 'n vm \<Rightarrow> 'n vm" where
  "jail_vm layout v = v
     \<lparr>vi_jailed := True, vi_workDir := jl_JailDir layout,
      vi_apiSock := path_join [jl_Root layout, ''api.sock''],
      vi_vsockUDS := path_join [jl_Root layout, ''v.sock''],
      vi_logFile := path_join [jl_Root layout, ''firecracker.log''],
      vi_hostRootfs := path_join [jl_Root layout, ''rootfs.ext4'']\<rparr>"

definition jail_paths :: "jailLayout \<Rightarrow> vmPaths" where
  "jail_paths layout = \<lparr>vp_hostRootfs = path_join [jl_Root layout, ''rootfs.ext4''], vp_guestKernel = ''/vmlinux'',
     vp_guestRootfs = ''/rootfs.ext4'', vp_guestVsock = ''/v.sock'', vp_guestLog = ''/firecracker.log''\<rparr>"

definition prepare_jailed :: "fc_env \<Rightarrow> fc_config \<Rightarrow> 'n fc_deps \<Rightarrow> string \<Rightarrow> 'n stage" where
  "prepare_jailed E cfg deps rootfsSrc l =
     (case newJailLayout (fc_WorkDir cfg) (fc_Binary cfg) (vi_id (la_vm l)) of
        Inl e \<Rightarrow> (l, Some e)
      | Inr layout \<Rightarrow>
          (case prepareJail on_fs (fe_cp E) layout (fc_Kernel cfg) rootfsSrc (placeRootfs E cfg deps) (la_host l) of
             (w, Some e) \<Rightarrow> (l\<lparr>la_host := w\<rparr>, Some e)
           | (w, None) \<Rightarrow>
               (l\<lparr>la_host := w, la_vm := jail_vm layout (la_vm l), la_paths := jail_paths layout\<rparr>, None)))"

text \<open>Where the disk of an unjailed VM goes: into the session's directory if there is one.\<close>

definition session_disk :: "'n vm \<Rightarrow> snap_record option" where
  "session_disk v = (case vi_snapRec v of
       None \<Rightarrow> None
     | Some rec \<Rightarrow> if sr_RootfsPath rec \<noteq> [] then Some rec else None)"

definition open_paths :: "fc_config \<Rightarrow> string \<Rightarrow> 'n vm \<Rightarrow> vmPaths" where
  "open_paths cfg rootCopy v = \<lparr>vp_hostRootfs = rootCopy, vp_guestKernel = fc_Kernel cfg,
     vp_guestRootfs = rootCopy, vp_guestVsock = vi_vsockUDS v, vp_guestLog = vi_logFile v\<rparr>"

definition prepare_open :: "fc_env \<Rightarrow> fc_config \<Rightarrow> 'n fc_deps \<Rightarrow> string \<Rightarrow> 'n stage" where
  "prepare_open E cfg deps rootfsSrc l =
     (let v = la_vm l;
          (w0, mk, rootCopy, v1) = (case session_disk v of
              Some rec \<Rightarrow>
                (case on_fs (os_MkdirAll (sr_Path rec)) (la_host l) of (w, r) \<Rightarrow>
                   (w, r, sr_RootfsPath rec, v\<lparr>vi_vsockUDS := path_join [sr_Path rec, ''v.sock'']\<rparr>))
            | None \<Rightarrow> (la_host l, None, path_join [vi_workDir v, ''rootfs.ext4''], v))
      in case mk of
           Some e \<Rightarrow> (l\<lparr>la_host := w0\<rparr>, Some e)
         | None \<Rightarrow> (case placeRootfs E cfg deps rootfsSrc rootCopy w0 of
             (w1, Some e) \<Rightarrow> (l\<lparr>la_host := w1, la_vm := v1\<rparr>, Some (Wrapf ''clone rootfs: %w'' [] e))
           | (w1, None) \<Rightarrow> (case on_fs (os_WriteFile (vi_logFile v1) []) w1 of
               (w2, Some e) \<Rightarrow> (l\<lparr>la_host := w2, la_vm := v1\<rparr>, Some (Wrapf ''firecracker log: %w'' [] e))
             | (w2, None) \<Rightarrow>
                 (l\<lparr>la_host := w2, la_vm := v1\<lparr>vi_hostRootfs := rootCopy\<rparr>,
                    la_paths := open_paths cfg rootCopy v1\<rparr>, None))))"

definition preparePathsFrom :: "fc_env \<Rightarrow> fc_config \<Rightarrow> 'n fc_deps \<Rightarrow> string \<Rightarrow> 'n stage" where
  "preparePathsFrom E cfg deps rootfsSrc =
     (if fc_Jailer cfg \<noteq> [] then prepare_jailed E cfg deps rootfsSrc else prepare_open E cfg deps rootfsSrc)"

definition preparePaths :: "fc_env \<Rightarrow> fc_config \<Rightarrow> 'n fc_deps \<Rightarrow> 'n stage" where
  "preparePaths E cfg deps = preparePathsFrom E cfg deps (fc_Rootfs cfg)"

section \<open>The VMM process\<close>

definition spawnCmd :: "fc_env \<Rightarrow> fc_config \<Rightarrow> 'n vm \<Rightarrow> (string list \<times> string) res" where
  "spawnCmd E cfg v =
     (let netnsPath = (case vi_tap v of None \<Rightarrow> [] | Some l \<Rightarrow> l_NetNSPath l);
          netnsName = (case vi_tap v of None \<Rightarrow> [] | Some l \<Rightarrow> l_NetNS l)
      in if fc_Jailer cfg \<noteq> [] then
           (case newJailLayout (fc_WorkDir cfg) (fc_Binary cfg) (vi_id v) of
              Inl e \<Rightarrow> Inl e
            | Inr layout \<Rightarrow> (case jailerCommand (fe_go E) cfg layout netnsPath of
                Inl e \<Rightarrow> Inl e
              | Inr cmd \<Rightarrow> Inr (cmd, [])))
         else if netnsName \<noteq> [] then
           Inr ([IPCommand (fe_look E) (fe_stat E), ''netns'', ''exec'', netnsName, fc_Binary cfg, ''--api-sock'', vi_apiSock v],
                vi_workDir v)
         else Inr ([fc_Binary cfg, ''--api-sock'', vi_apiSock v], vi_workDir v))"

text \<open>From \<open>spawnCmd\<close> to the started process: the log file is opened in between.\<close>

definition start_vmm :: "fc_env \<Rightarrow> fc_config \<Rightarrow> string \<Rightarrow> 'n stage" where
  "start_vmm E cfg fmt l = (case spawnCmd E cfg (la_vm l) of
       Inl e \<Rightarrow> (l, Some e)
     | Inr (cmd, dir) \<Rightarrow>
         (let stderr = path_join [vi_workDir (la_vm l), ''fc.stderr''] in
          case on_fs (os_OpenCreate stderr) (la_host l) of
            (w, Some e) \<Rightarrow> (l\<lparr>la_host := w\<rparr>, Some e)
          | (w, None) \<Rightarrow> (case fe_start E (h_step w) cmd dir of
              Inl e \<Rightarrow> (l\<lparr>la_host := note_event (ECloseStderr (vi_id (la_vm l))) (tick_host E w)\<rparr>, Some (Wrapf fmt [] e))
            | Inr pid \<Rightarrow>
                (l\<lparr>la_host := note_event (EStart pid cmd dir) (tick_host E w),
                   la_vm := (la_vm l)\<lparr>vi_pid := Some pid, vi_stderr := True\<rparr>, la_cmd := cmd\<rparr>, None))))"

definition attachCgroup :: "'n fc_deps \<Rightarrow> spec \<Rightarrow> 'n stage" where
  "attachCgroup deps sp l = (case fd_Cgroup deps of
       None \<Rightarrow> (l, None)
     | Some attach \<Rightarrow> (case attach (vi_id (la_vm l)) (the (vi_pid (la_vm l))) (sp_Limits sp) (la_host l) of
         (w, Inl e) \<Rightarrow> (l\<lparr>la_host := w\<rparr>, Some e)
       | (w, Inr cleanup) \<Rightarrow>
           (l\<lparr>la_host := note_event (EAttach (vi_id (la_vm l))) w,
              la_vm := (la_vm l)\<lparr>vi_cgroupCleanup := Some cleanup\<rparr>\<rparr>, None)))"

definition wait_socket :: "fc_env \<Rightarrow> string \<Rightarrow> (context_t \<Rightarrow> int \<Rightarrow> context_t) \<Rightarrow> context_t \<Rightarrow> ('n vm \<Rightarrow> string) \<Rightarrow> int \<Rightarrow> 'n stage" where
  "wait_socket E fmt mk ctx path mx l =
     (let w = la_host l in
      case waitForSocket (fe_exists E (h_step w)) (mk ctx (h_now w)) (path (la_vm l)) mx (h_now w) of
        (t, r) \<Rightarrow> (l\<lparr>la_host := (tick_host E w)\<lparr>h_now := t\<rparr>\<rparr>, wrap_err fmt [] r))"

section \<open>Calls while the VMM is alive\<close>

definition tailFile :: "string \<Rightarrow> nat \<Rightarrow> fs \<Rightarrow> string" where
  "tailFile path n s = (case snd (os_ReadFile path s) of
       Inl _ \<Rightarrow> []
     | Inr d \<Rightarrow> trim_space (drop (length d - n) d))"

text \<open>\<open>fe_text\<close> is the text of an error.\<close>

definition annotateDeath :: "fc_env \<Rightarrow> 'n vm \<Rightarrow> gerr \<Rightarrow> fs \<Rightarrow> gerr" where
  "annotateDeath E v e s =
     (let tail' = tailFile (vi_logFile v) 2048 s;
          stderr = tailFile (path_join [vi_workDir v, ''fc.stderr'']) 1024 s
      in if tail' = [] \<and> stderr = [] then e
         else if contains_sub tail' ''InstanceStart'' \<or> contains_sub tail' ''kvm'' \<or> contains_sub stderr ''KVM''
                 \<or> contains_sub (fe_text E e) ''exited'' then
           Wrapf ''%w: KVM/VMM failed during InstanceStart (nested virt often oopses on KVM_CREATE_VCPU) log: %s stderr: %s'' [tail', stderr] e
         else Wrapf ''%w log: %s stderr: %s'' [tail', stderr] e)"

definition done_err :: "context_t \<Rightarrow> gerr" where
  "done_err ctx = (if cx_cancelled ctx then Canceled else DeadlineExceeded)"

definition whileAlive :: "fc_env \<Rightarrow> context_t \<Rightarrow> api_call list \<Rightarrow> 'n stage" where
  "whileAlive E ctx calls l =
     (let w = la_host l; n = h_step w;
          (made, r) = api_seq (fe_api E n) calls;
          w1 = (tick_host E w)\<lparr>h_fs := fe_vmm E n made (h_fs w), h_trace := h_trace w @ map EApi made\<rparr>;
          err = (case fe_race E n of
              RFinished \<Rightarrow> r
            | RExited \<Rightarrow> Some (Errorf ''firecracker exited: %v'' [])
            | RCtx \<Rightarrow> Some (done_err ctx))
      in (l\<lparr>la_host := w1\<rparr>, map_option (\<lambda>e. annotateDeath E (la_vm l) e (h_fs w1)) err))"

definition wait_agent :: "fc_env \<Rightarrow> fc_config \<Rightarrow> int \<Rightarrow> context_t \<Rightarrow> 'n stage" where
  "wait_agent E cfg t0 ctx l =
     (let w = la_host l; bootCtx = with_timeout t0 (fc_BootTimeout cfg) ctx in
      case agent_loop (\<lambda>k. fe_conn E (h_step w + k)) bootCtx (the (cx_deadline bootCtx)) (vi_vsockUDS (la_vm l)) (vi_port (la_vm l)) 0 (h_now w) of
        (t, k, r) \<Rightarrow> (l\<lparr>la_host := w\<lparr>h_step := h_step w + k, h_now := t\<rparr>\<rparr>, r))"

text \<open>The last part of \<open>launch\<close> and \<open>launchRestore\<close>: the guest's socket and its agent.\<close>

definition wait_guest :: "fc_env \<Rightarrow> fc_config \<Rightarrow> context_t \<Rightarrow> 'n stage" where
  "wait_guest E cfg ctx l =
     (let t0 = h_now (la_host l) in
      stages [or_kill E (wait_socket E ''vsock uds: %w'' (\<lambda>c _. with_timeout t0 (fc_BootTimeout cfg) c) ctx vi_vsockUDS (fc_BootTimeout cfg)),
              or_kill E (wait_agent E cfg t0 ctx)] l)"

section \<open>A cold boot\<close>

definition tapID :: "string \<Rightarrow> string \<Rightarrow> string" where
  "tapID vmID sessionID = (if sessionID \<noteq> [] then CHR ''s'' # sessionID else vmID)"

definition check_disk :: "spec \<Rightarrow> 'n stage" where
  "check_disk sp l = (case on_fs (os_Stat (vp_hostRootfs (la_paths l))) (la_host l) of
       (w, Inl e) \<Rightarrow> (l\<lparr>la_host := w\<rparr>, Some e)
     | (w, Inr n) \<Rightarrow>
         (let sz = (case n of Dir \<Rightarrow> 0 | File d \<Rightarrow> int (length d)) in
          (l\<lparr>la_host := w\<rparr>,
           if 0 < DiskBytes (sp_Limits sp) \<and> DiskBytes (sp_Limits sp) < sz
           then Some (Errorf ''rootfs size %d exceeds disk limit %d'' [int_dec sz, int_dec (DiskBytes (sp_Limits sp))])
           else None)))"

definition setup_tap :: "'n fc_deps \<Rightarrow> spec \<Rightarrow> 'n stage" where
  "setup_tap deps sp l =
     (if Allowlist (sp_Network sp) = [] then (l, None)
      else (case fd_Tap deps of
          None \<Rightarrow> (l\<lparr>la_panic := True\<rparr>, Some (Errorf ''nil pointer dereference'' []))
        | Some tf \<Rightarrow> (case tf_Setup tf (tapID (vi_id (la_vm l)) (sp_SessionID sp)) (sp_Network sp) (la_host l) of
            (w, Inl e) \<Rightarrow> (l\<lparr>la_host := w\<rparr>, Some (Wrapf ''tap: %w'' [] e))
          | (w, Inr k) \<Rightarrow>
              (l\<lparr>la_host := note_event (ETapUp k) w, la_vm := (la_vm l)\<lparr>vi_tap := Some k\<rparr>,
                 la_nic := Some (fcNetIface ''eth0'' (l_GuestMAC k) (l_Name k)),
                 la_bootArgs := la_bootArgs l @ '' ip='' @ ip_string (l_GuestIP k) @ ''::'' @ ip_string (l_HostIP k)
                   @ '':255.255.255.252:warden:eth0:off''\<rparr>, None))))"

definition memMiB :: "profile \<Rightarrow> int" where
  "memMiB p = (let m = MemoryBytes p div 2 ^ 20 in if m < 128 then 128 else m)"

definition set_client :: "'n stage" where
  "set_client l = (l\<lparr>la_vm := (la_vm l)\<lparr>vi_client := True\<rparr>\<rparr>, None)"

definition boot_calls :: "fc_config \<Rightarrow> spec \<Rightarrow> 'n launching \<Rightarrow> api_call list" where
  "boot_calls cfg sp l =
     configure (fcMachineConfig (fc_VCPUCount cfg) (memMiB (sp_Limits sp)) False True)
       (fcBootSource (vp_guestKernel (la_paths l)) (la_bootArgs l))
       (fcDrive ''rootfs'' (vp_guestRootfs (la_paths l)) True False)
       (fcVsock (unat (vi_cid (la_vm l))) (vp_guestVsock (la_paths l)))
       (Some (fcLogger (vp_guestLog (la_paths l)) ''Info'' True False)) (la_nic l)"

definition launch :: "fc_env \<Rightarrow> fc_config \<Rightarrow> 'n fc_deps \<Rightarrow> context_t \<Rightarrow> spec \<Rightarrow> 'n stage" where
  "launch E cfg deps ctx sp = stages
     [preparePaths E cfg deps,
      check_disk sp,
      setup_tap deps sp,
      start_vmm E cfg ''start firecracker: %w'',
      or_kill E (attachCgroup deps sp),
      or_kill E (wait_socket E ''firecracker api socket: %w'' (\<lambda>c _. c) ctx vi_apiSock 5000000000),
      set_client,
      or_kill E (\<lambda>l. whileAlive E ctx (boot_calls cfg sp l) l),
      or_kill E (\<lambda>l. whileAlive E (with_timeout (h_now (la_host l)) 8000000000 ctx) [startInstance] l),
      wait_guest E cfg ctx]"

section \<open>A restore\<close>

definition linkFromRecord :: "snap_record option \<Rightarrow> link option" where
  "linkFromRecord reco = (case reco of
       None \<Rightarrow> None
     | Some rec \<Rightarrow>
         if \<not> sr_HasNetwork rec then None
         else
           let ip = (\<lambda>s. case parse_ip s of None \<Rightarrow> [] | Some a \<Rightarrow> a)
           in Some \<lparr>l_Name = sr_HostDevName rec, l_HostIP = ip (sr_HostIP rec), l_GuestIP = ip (sr_GuestIP rec),
                l_Prefix = 30, l_GuestMAC = sr_GuestMAC rec, l_Table = sr_Table rec, l_NetNS = sr_NetNS rec,
                l_NetNSPath = sr_NetNSPath rec, l_HostVeth = sr_HostVeth rec, l_NSVeth = sr_NSVeth rec,
                l_UplinkHost = ip (sr_UplinkHost rec), l_UplinkNS = ip (sr_UplinkNS rec)\<rparr>)"

definition ipString :: "ip \<Rightarrow> string" where
  "ipString a = (if a = [] then [] else ip_string a)"

definition fillRecordNetwork :: "snap_record \<Rightarrow> link option \<Rightarrow> snap_record" where
  "fillRecordNetwork rec lo = (case lo of
       None \<Rightarrow> rec\<lparr>sr_HasNetwork := False\<rparr>
     | Some k \<Rightarrow> rec\<lparr>sr_HasNetwork := True, sr_HostDevName := l_Name k, sr_GuestMAC := l_GuestMAC k,
         sr_GuestIP := ipString (l_GuestIP k), sr_HostIP := ipString (l_HostIP k), sr_NetNS := l_NetNS k,
         sr_NetNSPath := l_NetNSPath k, sr_HostVeth := l_HostVeth k, sr_NSVeth := l_NSVeth k,
         sr_UplinkHost := ipString (l_UplinkHost k), sr_UplinkNS := ipString (l_UplinkNS k), sr_Table := l_Table k\<rparr>)"

definition recreate_tap :: "'n fc_deps \<Rightarrow> spec \<Rightarrow> snap_record \<Rightarrow> 'n stage" where
  "recreate_tap deps sp rec l =
     (if \<not> sr_HasNetwork rec then (l, None)
      else (case linkFromRecord (Some rec) of
          None \<Rightarrow> (l, Some (Errorf ''snapshot has network but no TAP name'' []))
        | Some k \<Rightarrow>
            if l_Name k = [] then (l, Some (Errorf ''snapshot has network but no TAP name'' []))
            else (case fd_Tap deps of
                None \<Rightarrow> (l, Some (Errorf ''snapshot restore needs a TAP Recreator'' []))
              | Some tf \<Rightarrow> (case tf_Recreate tf of
                  None \<Rightarrow> (l, Some (Errorf ''snapshot restore needs a TAP Recreator'' []))
                | Some recreate \<Rightarrow> (case recreate k (sp_Network sp) (la_host l) of
                    (w, k', Some e) \<Rightarrow> (l\<lparr>la_host := w\<rparr>, Some (Wrapf ''tap recreate: %w'' [] e))
                  | (w, k', None) \<Rightarrow>
                      (l\<lparr>la_host := note_event (ETapUp k') w, la_vm := (la_vm l)\<lparr>vi_tap := Some k'\<rparr>\<rparr>, None))))))"

text \<open>\<open>prepareRestore\<close>. Outside a jail a stale vsock socket is removed; the error of that is ignored.\<close>

definition import_file :: "fc_env \<Rightarrow> string \<Rightarrow> string \<Rightarrow> string \<Rightarrow> 'n stage" where
  "import_file E fmt src name l =
     (case on_fs (cloneFile (fe_cp E) src (path_join [vi_workDir (la_vm l), ''root'', name])) (la_host l) of
        (w, r) \<Rightarrow> (l\<lparr>la_host := w\<rparr>, wrap_err fmt [] r))"

definition restore_open :: "fc_config \<Rightarrow> snap_record \<Rightarrow> 'n stage" where
  "restore_open cfg rec l = (case on_fs (os_MkdirAll (vi_workDir (la_vm l))) (la_host l) of
       (w, Some e) \<Rightarrow> (l\<lparr>la_host := w\<rparr>, Some e)
     | (w, None) \<Rightarrow> (case on_fs (os_WriteFile (vi_logFile (la_vm l)) []) w of
         (w1, Some e) \<Rightarrow> (l\<lparr>la_host := w1\<rparr>, Some e)
       | (w1, None) \<Rightarrow>
           (let v = (la_vm l)\<lparr>vi_hostRootfs := sr_RootfsPath rec,
                      vi_vsockUDS := (if sr_Path rec \<noteq> [] then path_join [sr_Path rec, ''v.sock''] else vi_vsockUDS (la_vm l))\<rparr>;
                w2 = (if sr_Path rec \<noteq> [] then fst (on_fs (os_RemoveFile (vi_vsockUDS v)) w1) else w1)
            in (l\<lparr>la_host := w2, la_vm := v, la_paths := open_paths cfg (sr_RootfsPath rec) v\<rparr>, None))))"

definition prepareRestore :: "fc_env \<Rightarrow> fc_config \<Rightarrow> 'n fc_deps \<Rightarrow> snap_record \<Rightarrow> 'n stage" where
  "prepareRestore E cfg deps rec =
     (if fc_Jailer cfg \<noteq> [] then stages
        [preparePathsFrom E cfg deps (sr_RootfsPath rec),
         import_file E ''import snap: %w'' (sr_SnapshotPath rec) ''vm.snap'',
         import_file E ''import mem: %w'' (sr_MemoryPath rec) ''vm.mem'']
      else restore_open cfg rec)"

definition restore_calls :: "fc_config \<Rightarrow> snap_record \<Rightarrow> 'n launching \<Rightarrow> api_call list" where
  "restore_calls cfg rec l =
     [put_call ''/logger'' (fcLogger (vp_guestLog (la_paths l)) ''Info'' True False),
      (if fc_Jailer cfg \<noteq> [] then loadSnapshot ''/vm.snap'' ''/vm.mem''
       else loadSnapshot (sr_SnapshotPath rec) (sr_MemoryPath rec))]"

definition launchRestore :: "fc_env \<Rightarrow> fc_config \<Rightarrow> 'n fc_deps \<Rightarrow> context_t \<Rightarrow> spec \<Rightarrow> snap_record \<Rightarrow> 'n stage" where
  "launchRestore E cfg deps ctx sp rec l =
     (if sr_SnapshotPath rec = [] \<or> sr_MemoryPath rec = [] then (l, Some (Errorf ''snapshot record missing file paths'' []))
      else stages
        [recreate_tap deps sp rec,
         prepareRestore E cfg deps rec,
         start_vmm E cfg ''start firecracker (restore): %w'',
         or_kill E (attachCgroup deps sp),
         or_kill E (wait_socket E ''firecracker api socket: %w'' (\<lambda>c _. c) ctx vi_apiSock 5000000000),
         set_client,
         or_kill E (\<lambda>l. whileAlive E ctx (restore_calls cfg rec l) l),
         wait_guest E cfg ctx] l)"

end
