(* ===== verification/Guest_Agent.thy ===== *)
theory Guest_Agent
  imports Guest_Proto Go_FS
begin

text \<open>
  Command \<open>cmd/guest-agent\<close>: the agent that runs as PID 1 of the guest and executes one job
  per connection. The kernel and the interpreter are a parameter: what \<open>exec.LookPath\<close> finds,
  how a start or a limit fails, and how a started job behaves under a timeout (the chunks it
  writes to each stream, how \<open>Wait\<close> ends, whether the deadline has passed). The operating
  system calls that matter to the contract are recorded in a trace. Errors are their texts,
  because the agent sends them to the host.
\<close>

section \<open>The output buffer\<close>

record limitedBuffer =
  lb_buf :: string
  lb_rest :: int
  lb_hit :: bool

definition new_buffer :: "int \<Rightarrow> limitedBuffer" where
  "new_buffer n = \<lparr>lb_buf = [], lb_rest = n, lb_hit = False\<rparr>"

definition lb_Write :: "string \<Rightarrow> limitedBuffer \<Rightarrow> limitedBuffer \<times> nat" where
  "lb_Write p l =
     (if lb_rest l \<le> 0 then (l\<lparr>lb_hit := True\<rparr>, length p)
      else if int (length p) > lb_rest l then
        (l\<lparr>lb_buf := lb_buf l @ take (nat (lb_rest l)) p, lb_rest := 0, lb_hit := True\<rparr>, length p)
      else (l\<lparr>lb_buf := lb_buf l @ p, lb_rest := lb_rest l - int (length p)\<rparr>, length p))"

definition lb_String :: "limitedBuffer \<Rightarrow> string" where
  "lb_String l = (if lb_hit l then lb_buf l @ [CHR 0x0A] @ ''[truncated]'' else lb_buf l)"

fun lb_writes :: "string list \<Rightarrow> limitedBuffer \<Rightarrow> limitedBuffer" where
  "lb_writes [] l = l"
| "lb_writes (p # ps) l = lb_writes ps (fst (lb_Write p l))"

section \<open>The guest\<close>

datatype rlimit = RLIMIT_AS | RLIMIT_NPROC | RLIMIT_NOFILE

datatype wait_end = WaitOk | WaitExit int | WaitErr string

record job =
  jb_stdout :: "string list"
  jb_stderr :: "string list"
  jb_wait :: wait_end
  jb_expired :: bool

record guest_os =
  g_look :: "string \<Rightarrow> string option"
  g_start :: "string \<Rightarrow> string list \<Rightarrow> string + int"
  g_prlimit :: "int \<Rightarrow> rlimit \<Rightarrow> int \<Rightarrow> string option"
  g_run :: "int \<Rightarrow> int \<Rightarrow> job"

text \<open>
  The calls of the agent, and between them where the job runs: \<open>CRun pid ls\<close> is the time in which
  it runs under the limits \<open>ls\<close>. It runs from \<open>cmd.Start\<close> on, before the first limit is set.
\<close>

datatype gcall = CStart string "string list" | CRun int "rlimit list" | CLimit int rlimit int | CWait int int | CKill int

section \<open>One job\<close>

text \<open>\<open>time.Duration(n) * time.Second\<close> in 64-bit arithmetic.\<close>

definition wrap64 :: "int \<Rightarrow> int" where
  "wrap64 i = (i + 2 ^ 63) mod 2 ^ 64 - 2 ^ 63"

definition job_timeout :: "guest_request \<Rightarrow> int" where
  "job_timeout q =
     (let d = wrap64 (gq_TimeoutS q * 1000000000) in if d \<le> 0 then 30 * 1000000000 else d)"

fun firstExisting :: "guest_os \<Rightarrow> string list \<Rightarrow> string" where
  "firstExisting g [] = []"
| "firstExisting g (n # ns) = (case g_look g n of Some p \<Rightarrow> p | None \<Rightarrow> firstExisting g ns)"

definition commandFor :: "unicode_tables \<Rightarrow> guest_os \<Rightarrow> string \<Rightarrow> string \<Rightarrow> string + (string \<times> string list)" where
  "commandFor u g runtime code =
     (let r = to_lower u (trim_space runtime) in
      if r = ''python'' \<or> r = ''python3'' then
        (let bin = firstExisting g [''python3'', ''python''] in
         if bin = [] then Inl ''python interpreter not found in guest'' else Inr (bin, [''-c'', code]))
      else if r = ''node'' then
        (let bin = firstExisting g [''node'', ''nodejs''] in
         if bin = [] then Inl ''node interpreter not found in guest'' else Inr (bin, [''-e'', code]))
      else Inl (''unsupported runtime '' @ go_quote u runtime))"

definition guest_mem :: "guest_request \<Rightarrow> int" where
  "guest_mem q =
     (let mem = (if gq_MemoryBytes q \<le> 0 then 256 * 2 ^ 20 else gq_MemoryBytes q)
      in if mem < 16 * 2 ^ 20 then 16 * 2 ^ 20 else mem)"

definition guest_pids :: "guest_request \<Rightarrow> int" where
  "guest_pids q =
     (let pids = (if gq_PIDsMax q \<le> 0 then 64 else gq_PIDsMax q) in if pids < 1 then 1 else pids)"

definition applyGuestLimits :: "guest_os \<Rightarrow> int \<Rightarrow> guest_request \<Rightarrow> gcall list \<times> string option" where
  "applyGuestLimits g pid q =
     (let mem = guest_mem q; pids = guest_pids q in
      case g_prlimit g pid RLIMIT_AS mem of
        Some e \<Rightarrow> ([CLimit pid RLIMIT_AS mem, CRun pid []], Some (''RLIMIT_AS: '' @ e))
      | None \<Rightarrow> (case g_prlimit g pid RLIMIT_NPROC pids of
          Some e \<Rightarrow>
            ([CLimit pid RLIMIT_AS mem, CRun pid [RLIMIT_AS], CLimit pid RLIMIT_NPROC pids, CRun pid [RLIMIT_AS]],
             Some (''RLIMIT_NPROC: '' @ e))
        | None \<Rightarrow>
            ([CLimit pid RLIMIT_AS mem, CRun pid [RLIMIT_AS], CLimit pid RLIMIT_NPROC pids,
              CRun pid [RLIMIT_AS, RLIMIT_NPROC], CLimit pid RLIMIT_NOFILE 256,
              CRun pid (if g_prlimit g pid RLIMIT_NOFILE 256 = None then [RLIMIT_AS, RLIMIT_NPROC, RLIMIT_NOFILE]
                        else [RLIMIT_AS, RLIMIT_NPROC])],
             map_option (\<lambda>e. ''RLIMIT_NOFILE: '' @ e) (g_prlimit g pid RLIMIT_NOFILE 256))))"

definition add_line :: "string \<Rightarrow> string \<Rightarrow> string" where
  "add_line s t = (if s \<noteq> [] then s @ [CHR 0x0A] @ t else t)"

definition job_response :: "job \<Rightarrow> guest_response" where
  "job_response j =
     (let out = lb_String (lb_writes (jb_stdout j) (new_buffer (int MaxOutputBytes)));
          err = lb_String (lb_writes (jb_stderr j) (new_buffer (int MaxOutputBytes)));
          resp = zero_gresp\<lparr>gp_Stdout := out, gp_Stderr := err\<rparr>
      in if jb_expired j then
           resp\<lparr>gp_TimedOut := True, gp_ExitCode := -1, gp_Stderr := add_line err ''guest: execution timed out''\<rparr>
         else (case jb_wait j of
             WaitExit n \<Rightarrow> resp\<lparr>gp_ExitCode := n\<rparr>
           | WaitErr e \<Rightarrow> resp\<lparr>gp_ExitCode := 1, gp_Stderr := add_line err e\<rparr>
           | WaitOk \<Rightarrow> resp))"

definition guest_execute :: "unicode_tables \<Rightarrow> guest_os \<Rightarrow> guest_request \<Rightarrow> gcall list \<times> guest_response" where
  "guest_execute u g q =
     (let timeout = job_timeout q in
      case commandFor u g (gq_Runtime q) (gq_Code q) of
        Inl e \<Rightarrow> ([], zero_gresp\<lparr>gp_Stderr := e, gp_ExitCode := 127\<rparr>)
      | Inr (bin, args) \<Rightarrow> (case g_start g bin args of
          Inl e \<Rightarrow> ([CStart bin args], zero_gresp\<lparr>gp_Stderr := e, gp_ExitCode := 1\<rparr>)
        | Inr pid \<Rightarrow> (case applyGuestLimits g pid q of
            (ls, Some e) \<Rightarrow>
              (CStart bin args # CRun pid [] # ls @ [CKill pid, CWait pid timeout],
               zero_gresp\<lparr>gp_Stderr := ''guest: rlimit: '' @ e, gp_ExitCode := 1\<rparr>)
          | (ls, None) \<Rightarrow>
              (let j = g_run g pid timeout
               in (CStart bin args # CRun pid [] # ls @ [CWait pid timeout] @ (if jb_expired j then [CKill pid] else []),
                   job_response j)))))"

text \<open>
  One connection: the bytes that arrive before the reader ends with \<open>e\<close>, whether the write
  fails, and the bytes sent back (\<open>None\<close> when the agent only closes the connection).
\<close>

definition handle :: "unicode_tables \<Rightarrow> guest_os \<Rightarrow> gerr \<Rightarrow> string \<Rightarrow> gerr option \<Rightarrow> gcall list \<times> string option" where
  "handle u g e s w = (case ReadRequest e s of
       Inl _ \<Rightarrow> ([], None)
     | Inr q \<Rightarrow> (case guest_execute u g q of (tr, resp) \<Rightarrow>
         (tr, case WriteResponse w resp of Inl _ \<Rightarrow> None | Inr out \<Rightarrow> Some out)))"

section \<open>Listening\<close>

datatype listener = VsockListener nat | TcpListener string

datatype vsys = VSocket | VBind nat | VListen | VClose

text \<open>The socket calls of \<open>listenVsock\<close> in order, each of which may fail.\<close>

record vsock_os =
  vs_socket :: "gerr option"
  vs_bind :: "gerr option"
  vs_listen :: "gerr option"
  vs_file :: "gerr option"
  vs_tcp :: "string \<Rightarrow> gerr option"

definition listenVsock :: "vsock_os \<Rightarrow> nat \<Rightarrow> vsys list \<times> listener res" where
  "listenVsock v port = (case vs_socket v of
       Some e \<Rightarrow> ([VSocket], Inl (Wrapf ''vsock socket: %w'' [] e))
     | None \<Rightarrow> (case vs_bind v of
         Some e \<Rightarrow> ([VSocket, VBind port, VClose], Inl (Wrapf ''vsock bind :%d: %w'' [nat_dec port] e))
       | None \<Rightarrow> (case vs_listen v of
           Some e \<Rightarrow> ([VSocket, VBind port, VListen, VClose], Inl (Wrapf ''vsock listen: %w'' [] e))
         | None \<Rightarrow> ([VSocket, VBind port, VListen, VClose], case vs_file v of
             Some e \<Rightarrow> Inl (Wrapf ''vsock file listener: %w'' [] e)
           | None \<Rightarrow> Inr (VsockListener port)))))"

text \<open>\<open>strconv.ParseUint(s, 10, 32)\<close>.\<close>

definition parse_uint32 :: "string \<Rightarrow> nat option" where
  "parse_uint32 s = (if all_digits s \<and> dec_val s < 2 ^ 32 then Some (dec_val s) else None)"

definition listen :: "vsock_os \<Rightarrow> string \<Rightarrow> vsys list \<times> listener res" where
  "listen v addr = (case cut_first CHR '':'' addr of
       None \<Rightarrow> ([], Inl (Errorf ''listen addr %q: want vsock:PORT or tcp:HOST:PORT'' [addr]))
     | Some (kind, value) \<Rightarrow>
         if kind = ''vsock'' then (case parse_uint32 value of
             None \<Rightarrow> ([], Inl (Wrapf ''vsock port: %w'' [] (Errorf ''strconv.ParseUint'' [value])))
           | Some port \<Rightarrow> listenVsock v port)
         else if kind = ''tcp'' then
           ([], case vs_tcp v value of Some e \<Rightarrow> Inl e | None \<Rightarrow> Inr (TcpListener value))
         else ([], Inl (Errorf ''unknown listen scheme %q'' [kind])))"

section \<open>Start-up\<close>

definition envOr :: "(string \<Rightarrow> string) \<Rightarrow> string \<Rightarrow> string \<Rightarrow> string" where
  "envOr env key fallback = (if env key \<noteq> [] then env key else fallback)"

definition essential_mounts :: "(string \<times> string \<times> string) list" where
  "essential_mounts = [(''proc'', ''/proc'', ''proc''), (''sysfs'', ''/sys'', ''sysfs''), (''devtmpfs'', ''/dev'', ''devtmpfs'')]"

fun mount_loop :: "(string \<Rightarrow> string \<Rightarrow> string \<Rightarrow> gerr option) \<Rightarrow> (string \<times> string \<times> string) list \<Rightarrow> gerr list \<Rightarrow> fs \<Rightarrow> fs \<times> gerr list" where
  "mount_loop mnt [] errs s = (s, errs)"
| "mount_loop mnt ((src, dst, ty) # ms) errs s = (case os_MkdirAll dst s of
       (s1, Some e) \<Rightarrow> mount_loop mnt ms (errs @ [e]) s1
     | (s1, None) \<Rightarrow> (case mnt src dst ty of
         None \<Rightarrow> mount_loop mnt ms errs s1
       | Some e \<Rightarrow>
           if errors_is e ''EBUSY'' \<or> errors_is e ''EEXIST'' then mount_loop mnt ms errs s1
           else mount_loop mnt ms (errs @ [Wrapf ''mount %s: %w'' [dst] e]) s1))"

definition mountEssential :: "(string \<Rightarrow> string \<Rightarrow> string \<Rightarrow> gerr option) \<Rightarrow> fs \<Rightarrow> fs \<times> gerr option" where
  "mountEssential mnt s = (case mount_loop mnt essential_mounts [] s of (s1, errs) \<Rightarrow> (s1, errors_join errs))"

text \<open>
  The accept loop, over what \<open>Accept\<close> returns: a connection, or an error together with whether
  the context has been cancelled. It gives the connections handed to \<open>handle\<close> and whether the
  loop returned; it goes on after any other error.
\<close>

datatype 'c accepted = Conn 'c | AcceptErr gerr bool

fun accept_loop :: "'c accepted list \<Rightarrow> 'c list \<times> bool" where
  "accept_loop [] = ([], False)"
| "accept_loop (Conn c # as) = (case accept_loop as of (cs, d) \<Rightarrow> (c # cs, d))"
| "accept_loop (AcceptErr e cancelled # as) =
     (if cancelled \<or> errors_is e ''net.ErrClosed'' then ([], True) else accept_loop as)"

definition agent_run :: "(string \<Rightarrow> string) \<Rightarrow> vsock_os \<Rightarrow> (string \<Rightarrow> string \<Rightarrow> string \<Rightarrow> gerr option) \<Rightarrow> 'c accepted list \<Rightarrow> fs
    \<Rightarrow> fs \<times> gerr + ('c list \<times> bool)" where
  "agent_run env v mnt as s =
     (let s1 = fst (mountEssential mnt s);
          addr = envOr env ''WARDEN_AGENT_LISTEN'' (''vsock:'' @ nat_dec DefaultPort)
      in case snd (listen v addr) of
           Inl e \<Rightarrow> Inl (s1, e)
         | Inr ln \<Rightarrow> Inr (accept_loop as))"

section \<open>The buffer keeps a prefix\<close>

definition capped :: "nat \<Rightarrow> string \<Rightarrow> string" where
  "capped n s = (if length s \<le> n then s else take n s @ [CHR 0x0A] @ ''[truncated]'')"

lemma lb_writes_full: "lb_rest l \<le> 0 \<Longrightarrow> lb_writes ps l = (if ps = [] then l else l\<lparr>lb_hit := True\<rparr>)"
  by (induction ps arbitrary: l) (auto simp: lb_Write_def)

lemma lb_writes_open:
  "0 \<le> lb_rest l \<Longrightarrow> \<not> lb_hit l \<Longrightarrow> list_all (\<lambda>p. p \<noteq> []) ps \<Longrightarrow>
     lb_buf (lb_writes ps l) = lb_buf l @ take (nat (lb_rest l)) (concat ps)
     \<and> (lb_hit (lb_writes ps l) \<longleftrightarrow> lb_rest l < int (length (concat ps)))"
proof (induction ps arbitrary: l)
  case (Cons p ps)
  consider (full) "lb_rest l = 0" | (over) "0 < lb_rest l" "int (length p) > lb_rest l"
    | (fit) "0 < lb_rest l" "int (length p) \<le> lb_rest l" using Cons.prems(1) by linarith
  then show ?case
  proof cases
    case full
    have "0 < int (length p)" using Cons.prems(3) by simp
    with full Cons.prems show ?thesis by (simp add: lb_writes_full add_pos_nonneg del: lb_writes.simps length_greater_0_conv)
  next
    case over
    then have "fst (lb_Write p l) = l\<lparr>lb_buf := lb_buf l @ take (nat (lb_rest l)) p, lb_rest := 0, lb_hit := True\<rparr>"
      by (simp add: lb_Write_def)
    moreover have "nat (lb_rest l) \<le> length p" using over by linarith
    ultimately show ?thesis using over by (simp add: lb_writes_full)
  next
    case fit
    then have w: "fst (lb_Write p l) = l\<lparr>lb_buf := lb_buf l @ p, lb_rest := lb_rest l - int (length p)\<rparr>"
      by (simp add: lb_Write_def)
    have "nat (lb_rest l - int (length p)) = nat (lb_rest l) - length p" "length p \<le> nat (lb_rest l)" using fit by linarith+
    then show ?thesis using Cons.IH [of "fst (lb_Write p l)"] Cons.prems fit w by auto
  qed
qed simp

text \<open>
  Whatever chunks a job writes to one of its streams, the agent returns the text itself up
  to \<open>MaxOutputBytes\<close>, and of a longer one its first \<open>MaxOutputBytes\<close> bytes with a mark that
  says so; it never makes the job fail on a write.
\<close>

theorem output_capped:
  assumes "list_all (\<lambda>p. p \<noteq> []) ps"
  shows "lb_String (lb_writes ps (new_buffer (int MaxOutputBytes))) = capped MaxOutputBytes (concat ps)
    \<and> (\<forall>p l. snd (lb_Write p l) = length p)"
  using lb_writes_open [of "new_buffer (int MaxOutputBytes)" ps] assms
  by (auto simp: lb_String_def capped_def new_buffer_def lb_Write_def)

theorem output_capped_witness:
  "lb_String (lb_writes [''a'', ''bc''] (new_buffer (int MaxOutputBytes))) = ''abc''"
  using output_capped [of "[''a'', ''bc'']"] by (simp add: capped_def MaxOutputBytes_def)

section \<open>Jobs run under their limits\<close>

lemma job_timeout_pos: "0 < job_timeout q"
  by (simp add: job_timeout_def Let_def)

lemma guest_mem_min: "16 * 2 ^ 20 \<le> guest_mem q" and guest_pids_min: "1 \<le> guest_pids q"
  by (auto simp: guest_mem_def guest_pids_def Let_def)

lemma timed_out_expired: "gp_TimedOut (job_response j) = jb_expired j"
  by (simp add: job_response_def Let_def zero_gresp_def split: wait_end.split)


text \<open>A guest with Python, whose jobs print one line.\<close>

definition sample_job :: job where
  "sample_job = \<lparr>jb_stdout = [''hi''], jb_stderr = [], jb_wait = WaitOk, jb_expired = False\<rparr>"

definition sample_guest :: guest_os where
  "sample_guest = \<lparr>g_look = (\<lambda>n. if n = ''python3'' then Some ''/usr/bin/python3'' else None),
     g_start = (\<lambda>_ _. Inr 7), g_prlimit = (\<lambda>_ _ _. None), g_run = (\<lambda>_ _. sample_job)\<rparr>"

lemma sample_command: "commandFor ascii_tables sample_guest ''python'' code = Inr (''/usr/bin/python3'', [''-c'', code])"
proof -
  have "trim_space ''python'' = ''python''" "to_lower ascii_tables ''python'' = ''python''"
    by (rule trim_space_plain, simp) (rule to_lower_fixed, simp add: upper_az_def)
  then show ?thesis by (simp add: commandFor_def sample_guest_def Let_def)
qed

lemma sample_execute:
  "gq_Runtime q = ''python'' \<Longrightarrow> CWait 7 (job_timeout q) \<in> set (fst (guest_execute ascii_tables sample_guest q))"
proof -
  assume r: "gq_Runtime q = ''python''"
  have "g_start sample_guest b a = Inr 7" "g_prlimit sample_guest x y z = None" for a b x y z
    by (simp_all add: sample_guest_def)
  then show ?thesis by (simp add: guest_execute_def r sample_command Let_def applyGuestLimits_def)
qed


section \<open>A whole exchange\<close>

lemma guest_exit_fits:
  assumes "\<And>pid t n. jb_wait (g_run g pid t) = WaitExit n \<Longrightarrow> fits64 n"
  shows "fits64 (gp_ExitCode (snd (guest_execute u g q)))"
proof -
  have "fits64 (gp_ExitCode (job_response j))" if "\<And>n. jb_wait j = WaitExit n \<Longrightarrow> fits64 n" for j
    using that by (auto simp: job_response_def Let_def zero_gresp_def fits64_def split: wait_end.split)
  with assms show ?thesis
    by (auto simp: guest_execute_def Let_def zero_gresp_def fits64_def split: sum.split prod.split option.split)
qed

lemma guest_reply:
  assumes "fits64 (gq_TimeoutS q)" and "fits64 (gq_MemoryBytes q)" and "fits64 (gq_PIDsMax q)"
    and "\<And>pid t n. jb_wait (g_run g pid t) = WaitExit n \<Longrightarrow> fits64 n" and "WriteRequest None q = Inr out"
  shows "\<exists>reply. snd (handle u g e out None) = Some reply
    \<and> ReadResponse e' reply = Inr (received_response (snd (guest_execute u g (received_request q))))"
proof -
  have "ReadRequest e out = Inr (received_request q)"
    using request_received [OF assms(1-3,5), of e "[]"] by simp
  moreover obtain tr resp where ex: "guest_execute u g (received_request q) = (tr, resp)" by fastforce
  moreover obtain reply where w: "WriteResponse None resp = Inr reply" by (auto simp: WriteResponse_def)
  ultimately have "snd (handle u g e out None) = Some reply" by (simp add: handle_def)
  moreover have "ReadResponse e' reply = Inr (received_response resp)"
    using response_roundtrip [OF _ w, of e' "[]"] guest_exit_fits [of g u "received_request q"] assms(4) ex by simp
  ultimately show ?thesis using ex by simp
qed

text \<open>
  C15. The host writes a request, the agent answers on the same connection, and what the host
  reads is the response of the agent's execution of that very request: the two sides of the
  protocol agree, whatever the code and the output contain.
\<close>

theorem guest_exchange:
  assumes "fits64 (gq_TimeoutS q)" and "fits64 (gq_MemoryBytes q)" and "fits64 (gq_PIDsMax q)"
    and "\<And>pid t n. jb_wait (g_run g pid t) = WaitExit n \<Longrightarrow> fits64 n" and "WriteRequest None q = Inr out"
  shows "\<exists>reply. snd (handle u g e out None) = Some reply
    \<and> ReadResponse e' reply = Inr (received_response (snd (guest_execute u g (received_request q))))"
  using guest_reply [OF assms] .

theorem guest_exchange_witness:
  "\<exists>out reply. WriteRequest None sample_greq = Inr out
     \<and> snd (handle ascii_tables sample_guest (Sentinel ''io.EOF'') out None) = Some reply"
proof -
  obtain out where w: "WriteRequest None sample_greq = Inr out" by (auto simp: WriteRequest_def)
  have f: "fits64 (gq_TimeoutS sample_greq)" "fits64 (gq_MemoryBytes sample_greq)" "fits64 (gq_PIDsMax sample_greq)"
    by (simp_all add: sample_greq_def fits64_def)
  have j: "jb_wait (g_run sample_guest pid t) = WaitExit n \<Longrightarrow> fits64 n" for pid t n
    by (simp add: sample_guest_def sample_job_def)
  have e: "\<exists>reply. snd (handle ascii_tables sample_guest (Sentinel ''io.EOF'') out None) = Some reply"
    using guest_exchange [where g = sample_guest, OF f _ w] j by blast
  show ?thesis using e w by blast
qed

end
