(* ===== verification/Firecracker.thy ===== *)
theory Firecracker
  imports FC_Launch Guest_Agent
begin

text \<open>
  The backend of \<open>firecracker.go\<close> and the session snapshots of \<open>fcsnap.go\<close>: \<open>Boot\<close>, \<open>Execute\<close>
  and \<open>Destroy\<close> of a microVM, and the snapshot taken after a job. The state is the two counters,
  the heap of instances and the host; a handle is the position of an instance in the heap.
\<close>

section \<open>Snapshots of a session\<close>

definition networkMatches :: "snap_record option \<Rightarrow> policy \<Rightarrow> bool" where
  "networkMatches reco p = (case reco of
       None \<Rightarrow> False
     | Some rec \<Rightarrow> sr_HasNetwork rec = (Allowlist p \<noteq> []))"

text \<open>Actions on the host, one after the other up to the first error.\<close>

fun actions :: "'n action list \<Rightarrow> 'n action" where
  "actions [] w = (w, None)"
| "actions (a # as) w = (case a w of (w1, Some e) \<Rightarrow> (w1, Some e) | (w1, None) \<Rightarrow> actions as w1)"

definition api_action :: "fc_env \<Rightarrow> string \<Rightarrow> api_call \<Rightarrow> 'n action" where
  "api_action E fmt call w =
     (let n = h_step w in
      ((tick_host E w)\<lparr>h_fs := fe_vmm E n [call] (h_fs w), h_trace := h_trace w @ [EApi call]\<rparr>,
       wrap_err fmt [] (api_do (fe_api E n) call)))"

definition export_file :: "fc_env \<Rightarrow> string \<Rightarrow> string \<Rightarrow> string \<Rightarrow> 'n action" where
  "export_file E fmt src dst w = (case on_fs (cloneFile (fe_cp E) src dst) w of (w1, r) \<Rightarrow> (w1, wrap_err fmt [] r))"

text \<open>The allocated extents of a file, given which of its bytes lie in holes.\<close>

definition extents :: "(nat \<Rightarrow> bool) \<Rightarrow> string \<Rightarrow> sparse" where
  "extents hole d = map (\<lambda>i. if hole i then None else Some (d ! i)) [0..<length d]"

definition rebase_diff :: "fc_env \<Rightarrow> string \<Rightarrow> string \<Rightarrow> 'n action" where
  "rebase_diff E basePath diffPath w =
     (let n = h_step w; w0 = tick_host E w;
          (w1, diff) = on_fs (os_ReadFile diffPath) w0;
          (w2, base) = (case diff of Inl _ \<Rightarrow> (w1, Inr []) | Inr _ \<Rightarrow> on_fs (os_ReadFile basePath) w1);
          (base', r) = applySparseDiff (fe_sparseOS E n)
             (case diff of Inl e \<Rightarrow> Inl e | Inr d \<Rightarrow> Inr (extents (fe_hole E n diffPath) d)) base;
          w3 = (case (diff, base') of
              (Inr _, Inr b) \<Rightarrow> w2\<lparr>h_fs := put (path_clean basePath) (File b) (h_fs w2)\<rparr>
            | _ \<Rightarrow> w2)
      in (w3, wrap_err ''rebase diff onto base mem: %w'' [] r))"

definition remove_quietly :: "string \<Rightarrow> 'n action" where
  "remove_quietly p w = (fst (on_fs (os_RemoveFile p) w), None)"

definition snap_kind :: "snap_record \<Rightarrow> string" where
  "snap_kind rec = (if 0 < sr_Generation rec then ''Diff'' else ''Full'')"

definition diff_host :: "snap_record \<Rightarrow> string" where
  "diff_host rec = (if sr_Path rec \<noteq> [] then path_join [sr_Path rec, ''vm.diff.mem''] else [])"

definition snap_targets :: "bool \<Rightarrow> snap_record \<Rightarrow> string \<times> string" where
  "snap_targets jailed rec =
     (if jailed then (''/vm.snap'', if snap_kind rec = ''Diff'' then ''/vm.diff.mem'' else ''/vm.mem'')
      else if snap_kind rec = ''Diff'' \<and> diff_host rec \<noteq> [] then (sr_SnapshotPath rec, diff_host rec)
      else (sr_SnapshotPath rec, sr_MemoryPath rec))"

definition snap_exports :: "fc_env \<Rightarrow> 'n vm \<Rightarrow> snap_record \<Rightarrow> 'n action list" where
  "snap_exports E v rec =
     (if \<not> vi_jailed v then []
      else export_file E ''export snap: %w'' (path_join [vi_workDir v, ''root'', ''vm.snap'']) (sr_SnapshotPath rec)
        # (if snap_kind rec = ''Full'' then
             [export_file E ''export mem: %w'' (path_join [vi_workDir v, ''root'', ''vm.mem'']) (sr_MemoryPath rec)]
           else if diff_host rec \<noteq> [] then
             [export_file E ''export diff: %w'' (path_join [vi_workDir v, ''root'', ''vm.diff.mem'']) (diff_host rec)]
           else []))"

text \<open>Everything between the record and the commit, in the order of the code.\<close>

definition snap_actions :: "fc_env \<Rightarrow> 'n vm \<Rightarrow> snap_record \<Rightarrow> 'n action list" where
  "snap_actions E v rec = (case snap_targets (vi_jailed v) rec of (snapPath, memPath) \<Rightarrow>
     [api_action E ''pause vm: %w'' pauseVM,
      api_action E ''create snapshot: %w'' (createSnapshot (snap_kind rec) snapPath memPath)]
     @ snap_exports E v rec
     @ (if snap_kind rec = ''Diff'' \<and> diff_host rec \<noteq> [] then
          [rebase_diff E (sr_MemoryPath rec) (diff_host rec), remove_quietly (diff_host rec)]
        else [])
     @ (if vi_hostRootfs v \<noteq> [] \<and> sr_RootfsPath rec \<noteq> [] \<and> vi_hostRootfs v \<noteq> sr_RootfsPath rec then
          [export_file E ''export rootfs: %w'' (vi_hostRootfs v) (sr_RootfsPath rec)]
        else []))"

definition snap_base :: "'n snap_ops \<Rightarrow> 'n vm \<Rightarrow> 'n host \<Rightarrow> 'n host \<times> snap_record res" where
  "snap_base st v w = (case vi_snapRec v of
       Some rec \<Rightarrow> (w, Inr rec)
     | None \<Rightarrow> sn_Prepare st (vi_sessionID v) (vi_id v) w)"

text \<open>The record is shared with the instance, so its fields change even when a later step fails.\<close>

definition saveSnapshot :: "fc_env \<Rightarrow> 'n snap_ops \<Rightarrow> 'n vm \<Rightarrow> 'n host \<Rightarrow> 'n vm \<times> 'n host \<times> gerr option" where
  "saveSnapshot E st v w = (case snap_base st v w of
       (w0, Inl e) \<Rightarrow> (v, w0, Some e)
     | (w0, Inr rec0) \<Rightarrow>
         (let rec = fillRecordNetwork (rec0\<lparr>sr_VMID := vi_id v, sr_GuestCID := vi_cid v\<rparr>) (vi_tap v)
          in case actions (snap_actions E v rec) w0 of
               (w1, Some e) \<Rightarrow> (v\<lparr>vi_snapRec := Some rec\<rparr>, w1, Some e)
             | (w1, None) \<Rightarrow>
                 (let rec' = rec\<lparr>sr_LastKind := snap_kind rec, sr_Generation := wrap64 (sr_Generation rec + 1)\<rparr>
                  in case sn_Commit st rec' w1 of (w2, rec'', r) \<Rightarrow> (v\<lparr>vi_snapRec := Some rec''\<rparr>, w2, r))))"

definition maybeSnapshot :: "fc_env \<Rightarrow> 'n fc_deps \<Rightarrow> 'n vm \<Rightarrow> 'n host \<Rightarrow> 'n vm \<times> 'n host" where
  "maybeSnapshot E deps v w = (case fd_Snapshots deps of
       None \<Rightarrow> (v, w)
     | Some st \<Rightarrow>
         if vi_sessionID v = [] \<or> \<not> vi_client v then (v, w)
         else (case saveSnapshot E st v w of (v', w', _) \<Rightarrow> (v', w')))"

section \<open>An instance\<close>

definition guest_request_of :: "'n vm \<Rightarrow> exec_request \<Rightarrow> guest_request" where
  "guest_request_of v req = \<lparr>gq_Code = xr_Code req, gq_Runtime = vi_language v,
     gq_TimeoutS = xr_Timeout req div 10 ^ 9, gq_MemoryBytes = MemoryBytes (vi_limits v),
     gq_PIDsMax = PIDsMax (vi_limits v)\<rparr>"

definition default_timeout :: "exec_request \<Rightarrow> exec_request" where
  "default_timeout req = (if xr_Timeout req \<le> 0 then req\<lparr>xr_Timeout := 30 * 10 ^ 9\<rparr> else req)"

definition response_result :: "'n vm \<Rightarrow> guest_response \<Rightarrow> exec_result" where
  "response_result v resp = \<lparr>rs_Stdout = gp_Stdout resp, rs_Stderr = gp_Stderr resp,
     rs_ExitCode = gp_ExitCode resp, rs_VMID = vi_id v, rs_TimedOut = gp_TimedOut resp\<rparr>"

text \<open>
  The exchange of \<open>Execute\<close> on connection \<open>c\<close>: the bytes the handshake has already buffered come
  before those the guest sends after the request.
\<close>

definition vm_exchange :: "vsock_conn \<Rightarrow> 'n vm \<Rightarrow> exec_request \<Rightarrow> guest_response res res" where
  "vm_exchange c v req = (case dialGuestVsock c (vi_vsockUDS v) (vi_port v) of
       Inl e \<Rightarrow> Inl e
     | Inr buffered \<Rightarrow> (case WriteRequest None (guest_request_of v req) of
         Inl e \<Rightarrow> Inl e
       | Inr out \<Rightarrow> (case vc_serve c out of
           Inl e \<Rightarrow> (case WriteRequest (Some e) (guest_request_of v req) of Inl e' \<Rightarrow> Inl e' | Inr _ \<Rightarrow> Inl e)
         | Inr reply \<Rightarrow> Inr (ReadResponse (vc_end c) (buffered @ reply)))))"

definition vm_Execute :: "fc_env \<Rightarrow> 'n fc_deps \<Rightarrow> context_t \<Rightarrow> exec_request \<Rightarrow> 'n vm \<Rightarrow> 'n host \<Rightarrow>
    'n vm \<times> 'n host \<times> exec_result \<times> gerr option" where
  "vm_Execute E deps ctx req v w =
     (if vi_dead v then (v, w, zero_result, Some (Errorf ''vm %s already destroyed'' [vi_id v]))
      else
        let w1 = tick_host E w in
        case vm_exchange (fe_conn E (h_step w)) v (default_timeout req) of
          Inl e \<Rightarrow> (v, w1, zero_result, Some e)
        | Inr (Inl e) \<Rightarrow> (case ctx_err (h_now w1) ctx of
            Some c \<Rightarrow> (v, w1, zero_result\<lparr>rs_VMID := vi_id v, rs_ExitCode := -1, rs_TimedOut := True,
                                         rs_Stderr := fe_text E c\<rparr>, None)
          | None \<Rightarrow> (v, w1, zero_result, Some e))
        | Inr (Inr resp) \<Rightarrow> (case maybeSnapshot E deps v w1 of
            (v', w') \<Rightarrow> (v', w', response_result v resp, None)))"

text \<open>\<open>vm_kill\<close> is \<open>kill\<close> of a started VMM; \<open>wait\<close> reads what the reaper left.\<close>

definition cleanupFiles :: "'n vm \<Rightarrow> 'n action" where
  "cleanupFiles v w =
     (let w1 = (case vi_snapRec v of
            None \<Rightarrow> w
          | Some rec \<Rightarrow>
              if sr_Path rec \<noteq> [] \<and> vi_vsockUDS v \<noteq> [] \<and> prefix (sr_Path rec @ ''/'') (vi_vsockUDS v)
              then fst (on_fs (os_RemoveFile (vi_vsockUDS v)) w) else w)
      in case on_fs (os_RemoveAll (vi_workDir v)) w1 of (w2, r) \<Rightarrow> (note_event (ERemoveAll (vi_workDir v) r) w2, r))"

definition end_vmm :: "fc_env \<Rightarrow> 'n vm \<Rightarrow> 'n host \<Rightarrow> 'n host" where
  "end_vmm E v w = (case vi_pid v of
       None \<Rightarrow> w
     | Some pid \<Rightarrow>
         (let w1 = tick_host E w in
          if fe_exits E (h_step w) then note_event (EWait pid) w1
          else note_event (EWait pid) (note_event (EKill pid (fe_kill E (h_step w) pid)) w1)))"

definition teardown_tap :: "'n fc_deps \<Rightarrow> 'n vm \<Rightarrow> 'n action" where
  "teardown_tap deps v w = (case (vi_tap v, fd_Tap deps) of
       (Some k, Some tf) \<Rightarrow> (case tf_Teardown tf k w of (w1, r) \<Rightarrow> (note_event (ETapDown k r) w1, r))
     | _ \<Rightarrow> (w, None))"

definition cleanup_cgroup :: "'n vm \<Rightarrow> 'n action" where
  "cleanup_cgroup v w = (case vi_cgroupCleanup v of
       None \<Rightarrow> (w, None)
     | Some cleanup \<Rightarrow> (case cleanup w of (w1, r) \<Rightarrow> (note_event (EDetach (vi_id v) r) w1, r)))"

definition close_stderr :: "'n vm \<Rightarrow> 'n host \<Rightarrow> 'n host" where
  "close_stderr v w = (if vi_stderr v then note_event (ECloseStderr (vi_id v)) w else w)"

text \<open>Actions of which each runs whatever the others return; the errors are collected.\<close>

fun collect :: "'n action list \<Rightarrow> 'n host \<Rightarrow> 'n host \<times> gerr list" where
  "collect [] w = (w, [])"
| "collect (a # as) w = (case a w of (w1, r) \<Rightarrow> (case collect as w1 of (w2, es) \<Rightarrow> (w2, case r of None \<Rightarrow> es | Some e \<Rightarrow> e # es)))"

definition ctrl_alt_del :: "fc_env \<Rightarrow> 'n vm \<Rightarrow> 'n host \<Rightarrow> 'n host" where
  "ctrl_alt_del E v w = (if vi_client v then fst (api_action E ''%w'' sendCtrlAltDel w) else w)"

definition vm_Destroy :: "fc_env \<Rightarrow> 'n fc_deps \<Rightarrow> context_t \<Rightarrow> 'n vm \<Rightarrow> 'n host \<Rightarrow> 'n vm \<times> 'n host \<times> gerr option" where
  "vm_Destroy E deps ctx v w =
     (if vi_dead v then (v, w, Some (Errorf ''vm %s already destroyed'' [vi_id v]))
      else (case collect [cleanup_cgroup v, teardown_tap deps v, cleanupFiles v]
                   (close_stderr v (end_vmm E v (ctrl_alt_del E v w))) of
          (w1, es) \<Rightarrow> (v\<lparr>vi_dead := True\<rparr>, w1, errors_join es)))"

section \<open>The backend\<close>

record 'n fc_state =
  fs_seq :: "64 word"
  fs_cids :: "32 word"
  fs_vms :: "'n vm list"
  fs_host :: "'n host"

definition denyNetworkOrFail :: "policy \<Rightarrow> bool \<Rightarrow> gerr option" where
  "denyNetworkOrFail p0 has_tap =
     (let p = (if DefaultPolicy p0 = [] then Default else p0) in
      case Policy_Validate p of
        Some e \<Rightarrow> Some (Wrapf ''network policy: %w'' [] e)
      | None \<Rightarrow>
          if Allowlist p \<noteq> [] \<and> \<not> has_tap then
            Some (Errorf ''egress allowlist is not empty but no TAP factory is configured'' [])
          else None)"

definition next_cid :: "32 word \<Rightarrow> 32 word" where
  "next_cid cids = (let n = cids + 1 in if n < 3 then n + 3 else n)"

definition new_vm :: "fc_config \<Rightarrow> spec \<Rightarrow> string \<Rightarrow> 32 word \<Rightarrow> 'n vm" where
  "new_vm cfg sp vid cid =
     (let workDir = path_join [fc_WorkDir cfg, vid] in
      \<lparr>vi_id = vid, vi_language = sp_Language sp, vi_sessionID = sp_SessionID sp, vi_limits = sp_Limits sp,
       vi_snapRec = None, vi_jailed = False, vi_hostRootfs = [], vi_cid = cid, vi_port = fc_AgentPort cfg,
       vi_workDir = workDir, vi_apiSock = path_join [workDir, ''api.sock''],
       vi_vsockUDS = path_join [workDir, ''v.sock''], vi_logFile = path_join [workDir, ''firecracker.log''],
       vi_pid = None, vi_client = False, vi_stderr = False, vi_cgroupCleanup = None, vi_tap = None, vi_dead = False\<rparr>)"

text \<open>The record an instance starts with: the restored one, or one prepared for a new session.\<close>

definition first_record :: "'n fc_deps \<Rightarrow> spec \<Rightarrow> string \<Rightarrow> snap_record option \<Rightarrow> 'n host \<Rightarrow> 'n host \<times> snap_record option res" where
  "first_record deps sp vid reco w = (case (reco, fd_Snapshots deps) of
       (None, Some st) \<Rightarrow>
         if sp_SessionID sp = [] then (w, Inr None)
         else (case sn_Prepare st (sp_SessionID sp) vid w of
             (w1, Inr rec) \<Rightarrow> (w1, Inr (Some rec))
           | (w1, Inl e) \<Rightarrow> (w1, if errors_is e ''snapshot.ErrNotImplemented'' then Inr None else Inl e))
     | _ \<Rightarrow> (w, Inr reco))"

definition start_launch :: "fc_config \<Rightarrow> 'n vm \<Rightarrow> 'n host \<Rightarrow> 'n launching" where
  "start_launch cfg v w = \<lparr>la_vm = v, la_host = w, la_paths = no_paths, la_nic = None,
     la_bootArgs = fc_BootArgs cfg, la_cmd = [], la_panic = False\<rparr>"

definition run_launch :: "fc_env \<Rightarrow> fc_config \<Rightarrow> 'n fc_deps \<Rightarrow> context_t \<Rightarrow> spec \<Rightarrow> snap_record option \<Rightarrow> 'n stage" where
  "run_launch E cfg deps ctx sp reco = (case reco of
       None \<Rightarrow> launch E cfg deps ctx sp
     | Some rec \<Rightarrow> launchRestore E cfg deps ctx sp rec)"

text \<open>What \<open>bootOne\<close> does when the launch has ended.\<close>

definition finish_boot :: "'n fc_deps \<Rightarrow> 'n launching \<times> gerr option \<Rightarrow> 'n host \<times> 'n vm res call" where
  "finish_boot deps lr = (case lr of
       (l, None) \<Rightarrow> (la_host l, Ret (Inr (la_vm l)))
     | (l, Some e) \<Rightarrow>
         if la_panic l then (la_host l, Panic ''nil pointer dereference'')
         else (fst (cleanupFiles (la_vm l) (fst (teardown_tap deps (la_vm l) (la_host l)))), Ret (Inl e)))"

definition mk_workdir :: "fc_config \<Rightarrow> string \<Rightarrow> 'n action" where
  "mk_workdir cfg vid w = (if fc_Jailer cfg = [] then
       (case on_fs (os_MkdirAll (path_join [fc_WorkDir cfg, vid])) w of (w1, r) \<Rightarrow> (w1, wrap_err ''vm workdir: %w'' [] r))
     else (w, None))"

definition boot_vm :: "fc_env \<Rightarrow> fc_config \<Rightarrow> 'n fc_deps \<Rightarrow> context_t \<Rightarrow> spec \<Rightarrow> snap_record option \<Rightarrow> string \<Rightarrow> 32 word \<Rightarrow>
    'n host \<Rightarrow> 'n host \<times> 'n vm res call" where
  "boot_vm E cfg deps ctx sp reco vid cid w = (case mk_workdir cfg vid w of
       (w1, Some e) \<Rightarrow> (w1, Ret (Inl e))
     | (w1, None) \<Rightarrow> (case first_record deps sp vid reco w1 of
         (w2, Inl e) \<Rightarrow> (w2, Ret (Inl e))
       | (w2, Inr r0) \<Rightarrow>
           finish_boot deps (run_launch E cfg deps ctx sp reco
             (start_launch cfg ((new_vm cfg sp vid cid)\<lparr>vi_snapRec := r0\<rparr>) w2))))"

definition vm_name :: "64 word \<Rightarrow> string" where
  "vm_name seq = ''fc-'' @ nat_dec (unat seq)"

definition choose_cid :: "snap_record option \<Rightarrow> 32 word \<Rightarrow> 32 word" where
  "choose_cid reco cid = (case reco of Some rec \<Rightarrow> if 3 \<le> sr_GuestCID rec then sr_GuestCID rec else cid | None \<Rightarrow> cid)"

definition bootOne :: "fc_env \<Rightarrow> fc_config \<Rightarrow> 'n fc_deps \<Rightarrow> context_t \<Rightarrow> spec \<Rightarrow> snap_record option \<Rightarrow> 'n fc_state \<Rightarrow>
    'n fc_state \<times> nat res call" where
  "bootOne E cfg deps ctx sp reco s =
     (let seq = fs_seq s + 1; cids = next_cid (fs_cids s);
          s1 = s\<lparr>fs_seq := seq, fs_cids := cids\<rparr>
      in case boot_vm E cfg deps ctx sp reco (vm_name seq) (choose_cid reco cids) (fs_host s) of
           (w, Ret (Inr v)) \<Rightarrow> (s1\<lparr>fs_host := w, fs_vms := fs_vms s @ [v]\<rparr>, Ret (Inr (length (fs_vms s))))
         | (w, Ret (Inl e)) \<Rightarrow> (s1\<lparr>fs_host := w\<rparr>, Ret (Inl e))
         | (w, Panic m) \<Rightarrow> (s1\<lparr>fs_host := w\<rparr>, Panic m))"

definition on_state :: "('n host \<Rightarrow> 'n host \<times> 'a) \<Rightarrow> 'n fc_state \<Rightarrow> 'n fc_state \<times> 'a" where
  "on_state op s = (case op (fs_host s) of (w, r) \<Rightarrow> (s\<lparr>fs_host := w\<rparr>, r))"

text \<open>The part of \<open>Boot\<close> after the checks.\<close>

definition boot_session :: "fc_env \<Rightarrow> fc_config \<Rightarrow> 'n fc_deps \<Rightarrow> context_t \<Rightarrow> spec \<Rightarrow> 'n fc_state \<Rightarrow> 'n fc_state \<times> nat res call" where
  "boot_session E cfg deps ctx sp s = (case fd_Snapshots deps of
       None \<Rightarrow> bootOne E cfg deps ctx sp None s
     | Some st \<Rightarrow>
         if sp_SessionID sp = [] then bootOne E cfg deps ctx sp None s
         else (case on_state (sn_Restore st (sp_SessionID sp)) s of
             (s1, Inr rec) \<Rightarrow>
               if networkMatches (Some rec) (sp_Network sp) then
                 (case bootOne E cfg deps ctx sp (Some rec) s1 of
                    (s2, Ret (Inl _)) \<Rightarrow> bootOne E cfg deps ctx sp None (fst (on_state (sn_Delete st (sp_SessionID sp)) s2))
                  | r \<Rightarrow> r)
               else bootOne E cfg deps ctx sp None (fst (on_state (sn_Delete st (sp_SessionID sp)) s1))
           | (s1, Inl e) \<Rightarrow>
               if errors_is e ''snapshot.ErrNotFound'' \<or> errors_is e ''snapshot.ErrNotImplemented''
               then bootOne E cfg deps ctx sp None s1 else (s1, Ret (Inl e))))"

definition FC_Boot :: "fc_env \<Rightarrow> fc_config \<Rightarrow> 'n fc_deps \<Rightarrow> context_t \<Rightarrow> spec \<Rightarrow> 'n fc_state \<Rightarrow> 'n fc_state \<times> nat res call" where
  "FC_Boot E cfg deps ctx sp s =
     (if \<not> Supported (sp_Language sp) then (s, Ret (Inl (Errorf ''unsupported runtime %q'' [sp_Language sp])))
      else (case Profile_Validate (sp_Limits sp) of
          Some e \<Rightarrow> (s, Ret (Inl (Wrapf ''boot firecracker: %w'' [] e)))
        | None \<Rightarrow> (case on_state (on_fs (Config_Validate cfg)) s of
            (s1, Some e) \<Rightarrow> (s1, Ret (Inl e))
          | (s1, None) \<Rightarrow> (case denyNetworkOrFail (sp_Network sp) (fd_Tap deps \<noteq> None) of
              Some e \<Rightarrow> (s1, Ret (Inl e))
            | None \<Rightarrow> boot_session E cfg deps ctx sp s1))))"

definition FC_ID :: "nat \<Rightarrow> 'n fc_state \<Rightarrow> string" where
  "FC_ID i s = vi_id (fs_vms s ! i)"

definition FC_Execute :: "fc_env \<Rightarrow> 'n fc_deps \<Rightarrow> context_t \<Rightarrow> nat \<Rightarrow> exec_request \<Rightarrow> 'n fc_state \<Rightarrow>
    'n fc_state \<times> (exec_result \<times> gerr option) call" where
  "FC_Execute E deps ctx i req s =
     (if length (fs_vms s) \<le> i then (s, Panic ''nil instance'')
      else (case vm_Execute E deps ctx req (fs_vms s ! i) (fs_host s) of
          (v, w, r) \<Rightarrow> (s\<lparr>fs_vms := (fs_vms s)[i := v], fs_host := w\<rparr>, Ret r)))"

definition FC_Destroy :: "fc_env \<Rightarrow> 'n fc_deps \<Rightarrow> context_t \<Rightarrow> nat \<Rightarrow> 'n fc_state \<Rightarrow> 'n fc_state \<times> gerr option" where
  "FC_Destroy E deps ctx i s =
     (if length (fs_vms s) \<le> i then (s, Some (Errorf ''nil instance'' []))
      else (case vm_Destroy E deps ctx (fs_vms s ! i) (fs_host s) of
          (v, w, r) \<Rightarrow> (s\<lparr>fs_vms := (fs_vms s)[i := v], fs_host := w\<rparr>, r)))"

text \<open>\<open>Ready\<close> only looks at the files.\<close>

definition FC_Ready :: "fc_config \<Rightarrow> 'n fc_state \<Rightarrow> gerr option" where
  "FC_Ready cfg s = snd (Config_Validate cfg (h_fs (fs_host s)))"

definition fc_ops :: "fc_env \<Rightarrow> fc_config \<Rightarrow> 'n fc_deps \<Rightarrow> ('n fc_state, nat) runtime_ops" where
  "fc_ops E cfg deps = \<lparr>rt_Name = ''firecracker'', rt_Boot = FC_Boot E cfg deps, rt_ID = FC_ID,
     rt_Execute = FC_Execute E deps, rt_Destroy = FC_Destroy E deps,
     rt_Ready = Some (FC_Ready cfg), rt_now = (\<lambda>s. h_now (fs_host s))\<rparr>"

definition fill_config :: "go_env \<Rightarrow> fc_config \<Rightarrow> fc_config" where
  "fill_config g c = c
     \<lparr>fc_AgentPort := (if fc_AgentPort c = 0 then DefaultPort else fc_AgentPort c),
      fc_BootTimeout := (if fc_BootTimeout c \<le> 0 then 20 * 10 ^ 9 else fc_BootTimeout c),
      fc_VCPUCount := (if fc_VCPUCount c \<le> 0 then 1 else fc_VCPUCount c),
      fc_BootArgs := (if fc_BootArgs c = [] then defaultBootArgs else fc_BootArgs c),
      fc_Binary := absPath g (fc_Binary c), fc_Kernel := absPath g (fc_Kernel c),
      fc_Rootfs := absPath g (fc_Rootfs c), fc_WorkDir := absPath g (fc_WorkDir c),
      fc_Jailer := (if fc_Jailer c \<noteq> [] then absPath g (fc_Jailer c) else []),
      fc_SnapshotDir := (if fc_SnapshotDir c \<noteq> [] then absPath g (fc_SnapshotDir c) else [])\<rparr>"

end
