(* ===== verification/FC_Facts.thy ===== *)
theory FC_Facts
  imports Firecracker
begin

text \<open>
  What the Firecracker backend owns. The trace of the host tells which VMM processes run and
  which TAP links are up. Stages of a launch are specified by triples with a second
  postcondition for the case of an error; the locale \<open>quiet_deps\<close> is the contract of the
  interfaces of \<open>Config\<close> that these proofs rely on.
\<close>

section \<open>What runs, read off the trace\<close>

text \<open>
  A VMM runs from its start until it is waited for or a signal that kills it is sent; a kill that fails
  leaves it running. A link is up from the moment \<open>Setup\<close> or \<open>Recreate\<close> has returned it until a
  \<open>Teardown\<close> of it returns nil; one that fails leaves it up.
\<close>

fun run_step :: "fc_event \<Rightarrow> int set \<Rightarrow> int set" where
  "run_step (EStart pid _ _) ps = insert pid ps"
| "run_step (EKill pid r) ps = (if r = None then ps - {pid} else ps)"
| "run_step (EWait pid) ps = ps - {pid}"
| "run_step _ ps = ps"

fun tap_step :: "fc_event \<Rightarrow> link set \<Rightarrow> link set" where
  "tap_step (ETapUp k) ks = insert k ks"
| "tap_step (ETapDown k r) ks = (if r = None then ks - {k} else ks)"
| "tap_step _ ks = ks"

definition running :: "fc_event list \<Rightarrow> int set" where
  "running tr = fold run_step tr {}"

definition taps_up :: "fc_event list \<Rightarrow> link set" where
  "taps_up tr = fold tap_step tr {}"

text \<open>What the backend could not end: the kills and the teardowns that failed.\<close>

definition unkilled :: "fc_event list \<Rightarrow> int set" where
  "unkilled tr = {pid. \<exists>e. EKill pid (Some e) \<in> set tr}"

definition stuck_links :: "fc_event list \<Rightarrow> link set" where
  "stuck_links tr = {k. \<exists>e. ETapDown k (Some e) \<in> set tr}"

text \<open>What the backend has started and not tried to end: the invariants below are about it.\<close>

fun held_step :: "fc_event \<Rightarrow> int set \<Rightarrow> int set" where
  "held_step (EStart pid _ _) ps = insert pid ps"
| "held_step (EKill pid _) ps = ps - {pid}"
| "held_step (EWait pid) ps = ps - {pid}"
| "held_step _ ps = ps"

fun link_step :: "fc_event \<Rightarrow> link set \<Rightarrow> link set" where
  "link_step (ETapUp k) ks = insert k ks"
| "link_step (ETapDown k _) ks = ks - {k}"
| "link_step _ ks = ks"

definition held_vmms :: "fc_event list \<Rightarrow> int set" where
  "held_vmms tr = fold held_step tr {}"

definition held_links :: "fc_event list \<Rightarrow> link set" where
  "held_links tr = fold link_step tr {}"

lemma running_held: "running tr \<subseteq> held_vmms tr \<union> unkilled tr"
proof (induction tr rule: rev_induct)
  case (snoc ev tr)
  then show ?case by (cases ev) (auto simp: running_def held_vmms_def unkilled_def split: if_splits option.splits)
qed (simp add: running_def)

lemma taps_up_held: "taps_up tr \<subseteq> held_links tr \<union> stuck_links tr"
proof (induction tr rule: rev_induct)
  case (snoc ev tr)
  then show ?case by (cases ev) (auto simp: taps_up_def held_links_def stuck_links_def split: if_splits option.splits)
qed (simp add: taps_up_def)

lemma held_running: "held_vmms tr \<subseteq> running tr" "held_links tr \<subseteq> taps_up tr"
proof -
  show "held_vmms tr \<subseteq> running tr"
  proof (induction tr rule: rev_induct)
    case (snoc ev tr)
    then show ?case by (cases ev) (auto simp: running_def held_vmms_def)
  qed (simp add: held_vmms_def)
  show "held_links tr \<subseteq> taps_up tr"
  proof (induction tr rule: rev_induct)
    case (snoc ev tr)
    then show ?case by (cases ev) (auto simp: taps_up_def held_links_def)
  qed (simp add: held_links_def)
qed

lemma held_vmms_snoc [simp]: "held_vmms (tr @ [ev]) = held_step ev (held_vmms tr)"
  by (simp add: held_vmms_def)

lemma taps_snoc [simp]: "held_links (tr @ [ev]) = link_step ev (held_links tr)"
  by (simp add: held_links_def)

lemma held_vmms_api [simp]: "held_vmms (tr @ map EApi cs) = held_vmms tr"
  by (induction cs rule: rev_induct) (simp_all flip: append_assoc)

lemma taps_api [simp]: "held_links (tr @ map EApi cs) = held_links tr"
  by (induction cs rule: rev_induct) (simp_all flip: append_assoc)

lemma note_event_sel [simp]:
  "h_trace (note_event ev w) = h_trace w @ [ev]" "h_fs (note_event ev w) = h_fs w" "h_step (note_event ev w) = h_step w"
  "h_now (note_event ev w) = h_now w" "h_net (note_event ev w) = h_net w" "h_pool (note_event ev w) = h_pool w"
  by (simp_all add: note_event_def)

lemma tick_host_sel [simp]: "h_trace (tick_host E w) = h_trace w" "h_fs (tick_host E w) = h_fs w"
  by (simp_all add: tick_host_def)

lemma on_fs_trace [simp]: "h_trace (fst (on_fs op w)) = h_trace w"
  by (simp add: on_fs_def split: prod.split)

lemma on_fs_eq_trace: "on_fs op w = (w', r) \<Longrightarrow> h_trace w' = h_trace w"
  using on_fs_trace [of op w] by simp

section \<open>Triples\<close>

definition triple :: "('n launching \<Rightarrow> bool) \<Rightarrow> 'n stage \<Rightarrow> ('n launching \<Rightarrow> bool) \<Rightarrow> ('n launching \<Rightarrow> bool) \<Rightarrow> bool" where
  "triple P f Q X = (\<forall>l. P l \<longrightarrow> (case f l of (l', None) \<Rightarrow> Q l' | (l', Some _) \<Rightarrow> X l'))"

lemma tripleI: "(\<And>l l' r. P l \<Longrightarrow> f l = (l', r) \<Longrightarrow> if r = None then Q l' else X l') \<Longrightarrow> triple P f Q X"
  by (fastforce simp: triple_def split: option.split prod.split)

lemma triple_ok: "triple P f Q X \<Longrightarrow> P l \<Longrightarrow> f l = (l', None) \<Longrightarrow> Q l'"
  by (fastforce simp: triple_def)

lemma triple_err: "triple P f Q X \<Longrightarrow> P l \<Longrightarrow> f l = (l', Some e) \<Longrightarrow> X l'"
  by (fastforce simp: triple_def)

lemma stages_Nil: "triple P (stages []) P X"
  by (simp add: triple_def)

lemma stages_Cons: "triple P f Q X \<Longrightarrow> triple Q (stages fs) R X \<Longrightarrow> triple P (stages (f # fs)) R X"
  by (rule tripleI) (auto simp: and_then_def split: prod.splits option.splits dest: triple_ok triple_err)

lemma triple_weaken: "triple P f Q X \<Longrightarrow> (\<And>l. P' l \<Longrightarrow> P l) \<Longrightarrow> (\<And>l. Q l \<Longrightarrow> Q' l) \<Longrightarrow> (\<And>l. X l \<Longrightarrow> X' l) \<Longrightarrow> triple P' f Q' X'"
  unfolding triple_def by (fastforce split: prod.splits option.splits)

lemma triple_or_kill: "triple P f Q X \<Longrightarrow> (\<And>l. X l \<Longrightarrow> X' (kill E l)) \<Longrightarrow> triple P (or_kill E f) Q X'"
  unfolding triple_def or_kill_def by (fastforce split: prod.splits option.splits)

lemma triple_dep: "(\<And>l0. triple P (g l0) Q X) \<Longrightarrow> triple P (\<lambda>l. g l l) Q X"
  by (simp add: triple_def)

text \<open>A stage that leaves alone what \<open>view\<close> shows keeps every condition on the view.\<close>

definition keeps :: "('n launching \<Rightarrow> 'a) \<Rightarrow> 'n stage \<Rightarrow> bool" where
  "keeps view f = (\<forall>l. view (fst (f l)) = view l)"

lemma keepsI: "(\<And>l l' r. f l = (l', r) \<Longrightarrow> view l' = view l) \<Longrightarrow> keeps view f"
  by (metis keeps_def prod.collapse)

lemma keepsD: "keeps view f \<Longrightarrow> f l = (l', r) \<Longrightarrow> view l' = view l"
  by (metis keeps_def fst_conv)

lemma keeps_triple: "keeps view f \<Longrightarrow> triple (\<lambda>l. P (view l)) f (\<lambda>l. P (view l)) (\<lambda>l. P (view l))"
  by (rule tripleI) (auto dest: keepsD)

lemma keeps_stages: "(\<And>f. f \<in> set fs \<Longrightarrow> keeps view f) \<Longrightarrow> keeps view (stages fs)"
proof (induction fs)
  case (Cons f fs)
  then have "view (fst (f l)) = view l" "view (fst (stages fs l)) = view l" for l by (auto simp: keeps_def)
  then show ?case by (auto simp: keeps_def and_then_def split: prod.split option.split) (metis fst_conv)+
qed (simp add: keeps_def)

section \<open>The contract of the interfaces\<close>

text \<open>
  The trace records what the backend itself does, so an implementation of \<open>CgroupAttacher\<close>,
  \<open>TapFactory\<close>, \<open>snapshot.Store\<close> or the pool leaves it alone.
\<close>

definition quiet :: "('n host \<Rightarrow> 'n host \<times> 'a) \<Rightarrow> bool" where
  "quiet op = (\<forall>w. h_trace (fst (op w)) = h_trace w)"

lemma quietD: "quiet op \<Longrightarrow> op w = (w', r) \<Longrightarrow> h_trace w' = h_trace w"
  by (metis quiet_def fst_conv)

lemma quiet_on_fs [simp]: "quiet (on_fs op)"
  by (simp add: quiet_def)

locale quiet_deps =
  fixes deps :: "'n fc_deps"
  assumes attach_quiet: "fd_Cgroup deps = Some attach \<Longrightarrow> quiet (attach i pid p)"
    and cleanup_quiet: "fd_Cgroup deps = Some attach \<Longrightarrow> attach i pid p w = (w', Inr cl) \<Longrightarrow> quiet cl"
    and setup_quiet: "fd_Tap deps = Some tf \<Longrightarrow> quiet (tf_Setup tf i pol)"
    and teardown_quiet: "fd_Tap deps = Some tf \<Longrightarrow> quiet (tf_Teardown tf k)"
    and recreate_quiet: "fd_Tap deps = Some tf \<Longrightarrow> tf_Recreate tf = Some rc \<Longrightarrow> quiet (rc k pol)"
    and prepare_quiet: "fd_Snapshots deps = Some st \<Longrightarrow> quiet (sn_Prepare st sid vid)"
    and commit_quiet: "fd_Snapshots deps = Some st \<Longrightarrow> quiet (sn_Commit st rec)"
    and restore_quiet: "fd_Snapshots deps = Some st \<Longrightarrow> quiet (sn_Restore st sid)"
    and delete_quiet: "fd_Snapshots deps = Some st \<Longrightarrow> quiet (sn_Delete st sid)"
    and acquire_quiet: "fd_Pool deps = Some acquire \<Longrightarrow> quiet (acquire dst)"
begin

lemma place_quiet: "quiet (placeRootfs E cfg deps src dst)"
  using acquire_quiet by (auto simp: quiet_def placeRootfs_def split: option.split)

end

section \<open>Stages that start and stop nothing\<close>

text \<open>What a launch has to account for: the trace, the process and the link of the instance.\<close>

type_synonym owned = "int set \<times> int option \<times> link set \<times> link option \<times> bool"

definition owns :: "'n launching \<Rightarrow> owned" where
  "owns l = (held_vmms (h_trace (la_host l)), vi_pid (la_vm l), held_links (h_trace (la_host l)), vi_tap (la_vm l), la_panic l)"

lemma check_disk_owns: "keeps owns (check_disk sp)"
  by (rule keepsI) (auto simp: check_disk_def owns_def Let_def split: prod.splits sum.splits dest!: on_fs_eq_trace)

lemma set_client_owns: "keeps owns set_client"
  by (simp add: keeps_def set_client_def owns_def)

lemma wait_socket_owns: "keeps owns (wait_socket E fmt mk ctx path mx)"
  by (rule keepsI) (auto simp: wait_socket_def owns_def Let_def split: prod.splits)

lemma whileAlive_owns: "keeps owns (whileAlive E ctx calls)"
  by (rule keepsI) (auto simp: whileAlive_def owns_def Let_def split: prod.splits)

lemma wait_agent_owns: "keeps owns (wait_agent E cfg t0 ctx)"
  by (rule keepsI) (auto simp: wait_agent_def owns_def Let_def split: prod.splits)

lemma import_file_owns: "keeps owns (import_file E fmt src name)"
  by (rule keepsI) (auto simp: import_file_def owns_def split: prod.splits dest!: on_fs_eq_trace)

lemma restore_open_owns: "keeps owns (restore_open cfg rec)"
  by (rule keepsI) (auto simp: restore_open_def owns_def Let_def split: prod.splits option.splits if_splits dest!: on_fs_eq_trace)

context quiet_deps
begin

lemma prepareJail_quiet: "quiet (prepareJail on_fs cp layout kern rootfs (placeRootfs E cfg deps))"
  unfolding quiet_def
proof
  fix w
  obtain w' r where "prepareJail on_fs cp layout kern rootfs (placeRootfs E cfg deps) w = (w', r)" by fastforce
  then show "h_trace (fst (prepareJail on_fs cp layout kern rootfs (placeRootfs E cfg deps) w)) = h_trace w"
    by (auto simp: prepareJail_def split: prod.splits option.splits dest!: on_fs_eq_trace quietD [OF place_quiet])
qed

lemma prepare_jailed_owns: "keeps owns (prepare_jailed E cfg deps src)"
  by (rule keepsI) (auto simp: prepare_jailed_def owns_def jail_vm_def split: sum.splits prod.splits option.splits
      dest!: quietD [OF prepareJail_quiet])

lemma prepare_open_owns: "keeps owns (prepare_open E cfg deps src)"
  by (rule keepsI) (auto simp: prepare_open_def owns_def Let_def split: prod.splits option.splits
      dest!: on_fs_eq_trace quietD [OF place_quiet])

lemma preparePaths_owns: "keeps owns (preparePathsFrom E cfg deps src)" "keeps owns (preparePaths E cfg deps)"
  by (simp_all add: preparePathsFrom_def preparePaths_def prepare_jailed_owns prepare_open_owns)

lemma prepareRestore_owns: "keeps owns (prepareRestore E cfg deps rec)"
  unfolding prepareRestore_def
  by (auto simp: restore_open_owns intro!: keeps_stages preparePaths_owns import_file_owns)

lemma attachCgroup_owns: "keeps owns (attachCgroup deps sp)"
  by (rule keepsI) (auto simp: attachCgroup_def owns_def split: prod.splits option.splits sum.splits
      dest!: quietD [OF attach_quiet])

end

section \<open>A launch accounts for what it starts\<close>

text \<open>
  The stages of a launch, seen from \<open>owns\<close>: nothing of its own yet, perhaps a link, a process,
  and, after an error, no process. \<open>R\<close> and \<open>T\<close> are what belongs to others; \<open>h\<close> tells whether
  there is a TAP factory.
\<close>

fun fresh :: "int set \<Rightarrow> link set \<Rightarrow> owned \<Rightarrow> bool" where
  "fresh R T (r, p, t, k, b) = (r \<subseteq> R \<and> p = None \<and> t \<subseteq> T \<and> k = None \<and> \<not> b)"

fun idle :: "bool \<Rightarrow> int set \<Rightarrow> link set \<Rightarrow> owned \<Rightarrow> bool" where
  "idle h R T (r, p, t, k, b) = (r \<subseteq> R \<and> p = None \<and> t \<subseteq> T \<union> set_option k \<and> (k \<noteq> None \<longrightarrow> h) \<and> \<not> b)"

fun up :: "bool \<Rightarrow> int set \<Rightarrow> link set \<Rightarrow> owned \<Rightarrow> bool" where
  "up h R T (r, p, t, k, b) = (p \<noteq> None \<and> r \<subseteq> R \<union> set_option p \<and> t \<subseteq> T \<union> set_option k \<and> (k \<noteq> None \<longrightarrow> h) \<and> \<not> b)"

fun failed :: "bool \<Rightarrow> int set \<Rightarrow> link set \<Rightarrow> owned \<Rightarrow> bool" where
  "failed h R T (r, p, t, k, b) = (r \<subseteq> R \<and> t \<subseteq> T \<union> set_option k \<and> (k \<noteq> None \<longrightarrow> h) \<and> (b \<longrightarrow> k = None))"

lemma fresh_idle: "fresh R T x \<Longrightarrow> idle h R T x" and fresh_failed: "fresh R T x \<Longrightarrow> failed h R T x"
  and idle_failed: "idle h R T x \<Longrightarrow> failed h R T x"
  by (cases x; auto)+

lemma up_kill: "up h R T (owns l) \<Longrightarrow> failed h R T (owns (kill E l))"
  by (auto simp: kill_def owns_def split: option.splits)

lemma start_vmm_starts: "triple (\<lambda>l. idle h R T (owns l)) (start_vmm E cfg fmt) (\<lambda>l. up h R T (owns l)) (\<lambda>l. failed h R T (owns l))"
  by (rule tripleI) (auto simp: start_vmm_def owns_def Let_def split: sum.splits prod.splits option.splits dest!: on_fs_eq_trace)

lemma keeps_before: "keeps owns f \<Longrightarrow> triple (\<lambda>l. fresh R T (owns l)) f (\<lambda>l. fresh R T (owns l)) (\<lambda>l. failed h R T (owns l))"
  by (rule triple_weaken [OF keeps_triple [of owns f "fresh R T"]]) (auto dest: fresh_failed)

lemma keeps_idle: "keeps owns f \<Longrightarrow> triple (\<lambda>l. idle h R T (owns l)) f (\<lambda>l. idle h R T (owns l)) (\<lambda>l. failed h R T (owns l))"
  by (rule triple_weaken [OF keeps_triple [of owns f "idle h R T"]]) (auto dest: idle_failed)

lemma keeps_or_kill: "keeps owns f \<Longrightarrow> triple (\<lambda>l. up h R T (owns l)) (or_kill E f) (\<lambda>l. up h R T (owns l)) (\<lambda>l. failed h R T (owns l))"
  by (rule triple_or_kill [OF keeps_triple [of owns f "up h R T"]]) (auto dest: up_kill)

lemma set_client_up: "triple (\<lambda>l. up h R T (owns l)) set_client (\<lambda>l. up h R T (owns l)) (\<lambda>l. failed h R T (owns l))"
  by (simp add: triple_def set_client_def owns_def)

lemma wait_guest_up: "triple (\<lambda>l. up h R T (owns l)) (wait_guest E cfg ctx) (\<lambda>l. up h R T (owns l)) (\<lambda>l. failed h R T (owns l))"
proof -
  have "triple (\<lambda>l. up h R T (owns l)) (stages [or_kill E (wait_socket E fmt mk ctx path mx), or_kill E (wait_agent E cfg t0 ctx)])
      (\<lambda>l. up h R T (owns l)) (\<lambda>l. failed h R T (owns l))" for fmt mk path mx t0
    by (intro stages_Cons [OF keeps_or_kill] stages_Nil wait_socket_owns wait_agent_owns)
  note s = this [unfolded triple_def, rule_format]
  show ?thesis unfolding triple_def wait_guest_def Let_def by (intro allI impI) (rule s)
qed

context quiet_deps
begin

lemma setup_tap_accounts:
  "triple (\<lambda>l. fresh R T (owns l)) (setup_tap deps sp) (\<lambda>l. idle (fd_Tap deps \<noteq> None) R T (owns l)) (\<lambda>l. failed (fd_Tap deps \<noteq> None) R T (owns l))"
  by (rule tripleI) (auto simp: setup_tap_def owns_def split: if_splits option.splits prod.splits sum.splits dest!: quietD [OF setup_quiet])

lemma recreate_tap_accounts:
  "triple (\<lambda>l. fresh R T (owns l)) (recreate_tap deps sp rec) (\<lambda>l. idle (fd_Tap deps \<noteq> None) R T (owns l)) (\<lambda>l. failed (fd_Tap deps \<noteq> None) R T (owns l))"
  by (rule tripleI) (auto simp: recreate_tap_def owns_def split: if_splits option.splits prod.splits dest!: quietD [OF recreate_quiet])

lemma alive_or_kill:
  "triple (\<lambda>l. up (fd_Tap deps \<noteq> None) R T (owns l)) (or_kill E (\<lambda>l. whileAlive E (ctx l) (calls l) l)) (\<lambda>l. up (fd_Tap deps \<noteq> None) R T (owns l)) (\<lambda>l. failed (fd_Tap deps \<noteq> None) R T (owns l))"
  by (rule keeps_or_kill) (use whileAlive_owns in \<open>auto simp: keeps_def\<close>)

lemma launch_accounts:
  "triple (\<lambda>l. fresh R T (owns l)) (launch E cfg deps ctx sp) (\<lambda>l. up (fd_Tap deps \<noteq> None) R T (owns l)) (\<lambda>l. failed (fd_Tap deps \<noteq> None) R T (owns l))"
  unfolding launch_def
  by (rule stages_Cons keeps_before preparePaths_owns check_disk_owns setup_tap_accounts start_vmm_starts keeps_or_kill
      attachCgroup_owns wait_socket_owns set_client_up alive_or_kill wait_guest_up stages_Nil)+

lemma restore_accounts:
  "triple (\<lambda>l. fresh R T (owns l)) (launchRestore E cfg deps ctx sp rec) (\<lambda>l. up (fd_Tap deps \<noteq> None) R T (owns l)) (\<lambda>l. failed (fd_Tap deps \<noteq> None) R T (owns l))"
proof -
  have "triple (\<lambda>l. fresh R T (owns l)) (stages
      [recreate_tap deps sp rec, prepareRestore E cfg deps rec, start_vmm E cfg fmt,
       or_kill E (attachCgroup deps sp), or_kill E (wait_socket E fmt' mk ctx path mx), set_client,
       or_kill E (\<lambda>l. whileAlive E ctx (restore_calls cfg rec l) l), wait_guest E cfg ctx])
      (\<lambda>l. up (fd_Tap deps \<noteq> None) R T (owns l)) (\<lambda>l. failed (fd_Tap deps \<noteq> None) R T (owns l))" for fmt fmt' mk path mx
    by (intro stages_Cons [OF recreate_tap_accounts] stages_Cons [OF keeps_idle [OF prepareRestore_owns]]
        stages_Cons [OF start_vmm_starts] stages_Cons [OF keeps_or_kill] attachCgroup_owns wait_socket_owns
        stages_Cons [OF set_client_up] stages_Cons [OF alive_or_kill] stages_Cons [OF wait_guest_up] stages_Nil)
  then show ?thesis
    by (auto simp: triple_def launchRestore_def dest: fresh_failed)
qed

lemma run_launch_accounts:
  "triple (\<lambda>l. fresh R T (owns l)) (run_launch E cfg deps ctx sp reco) (\<lambda>l. up (fd_Tap deps \<noteq> None) R T (owns l)) (\<lambda>l. failed (fd_Tap deps \<noteq> None) R T (owns l))"
  by (cases reco) (simp_all only: run_launch_def option.case launch_accounts restore_accounts)

end

section \<open>What every stage keeps\<close>

text \<open>The stages a launch is made of. What each of them and \<open>kill\<close> keep, a whole launch keeps.\<close>

inductive basic_stage :: "fc_env \<Rightarrow> fc_config \<Rightarrow> 'n fc_deps \<Rightarrow> spec \<Rightarrow> snap_record option \<Rightarrow> 'n stage \<Rightarrow> bool"
  for E cfg deps sp reco where
  "basic_stage E cfg deps sp reco (prepare_jailed E cfg deps src)"
| "basic_stage E cfg deps sp reco (prepare_open E cfg deps src)"
| "reco = None \<Longrightarrow> basic_stage E cfg deps sp reco (check_disk sp)"
| "reco = None \<Longrightarrow> basic_stage E cfg deps sp reco (setup_tap deps sp)"
| "reco = Some rec \<Longrightarrow> basic_stage E cfg deps sp reco (recreate_tap deps sp rec)"
| "basic_stage E cfg deps sp reco (import_file E fmt src name)"
| "reco = Some rec \<Longrightarrow> basic_stage E cfg deps sp reco (restore_open cfg rec)"
| "basic_stage E cfg deps sp reco (start_vmm E cfg fmt)"
| "basic_stage E cfg deps sp reco (attachCgroup deps sp)"
| "basic_stage E cfg deps sp reco (wait_socket E fmt mk ctx path mx)"
| "basic_stage E cfg deps sp reco set_client"
| "reco = None \<Longrightarrow> basic_stage E cfg deps sp reco (\<lambda>l. whileAlive E ctx (boot_calls cfg sp l) l)"
| "reco = None \<Longrightarrow> basic_stage E cfg deps sp reco (\<lambda>l. whileAlive E (c l) [startInstance] l)"
| "reco = Some rec \<Longrightarrow> basic_stage E cfg deps sp reco (\<lambda>l. whileAlive E ctx (restore_calls cfg rec l) l)"
| "basic_stage E cfg deps sp reco (wait_agent E cfg t0 ctx)"

definition stays :: "('n launching \<Rightarrow> bool) \<Rightarrow> 'n stage \<Rightarrow> bool" where
  "stays P f = (\<forall>l. P l \<longrightarrow> P (fst (f l)))"

lemma staysI: "(\<And>l l' r. P l \<Longrightarrow> f l = (l', r) \<Longrightarrow> P l') \<Longrightarrow> stays P f"
  by (metis stays_def prod.collapse)

lemma staysD: "stays P f \<Longrightarrow> P l \<Longrightarrow> f l = (l', r) \<Longrightarrow> P l'"
  by (metis stays_def fst_conv)

lemma stays_stages: "(\<And>f. f \<in> set fs \<Longrightarrow> stays P f) \<Longrightarrow> stays P (stages fs)"
proof (induction fs)
  case (Cons f fs)
  then have "P l \<Longrightarrow> P (fst (f l))" "P l \<Longrightarrow> P (fst (stages fs l))" for l by (auto simp: stays_def)
  then show ?case by (auto simp: stays_def and_then_def split: prod.split option.split) (metis fst_conv)+
qed (simp add: stays_def)

lemma run_launch_stays:
  assumes basic: "\<And>f. basic_stage E cfg deps sp reco f \<Longrightarrow> stays P f" and kill: "\<And>l. P l \<Longrightarrow> P (kill E l)"
  shows "stays P (run_launch E cfg deps ctx sp reco)"
proof -
  have k: "stays P (or_kill E f)" if "basic_stage E cfg deps sp reco f" for f
  proof (rule staysI)
    fix l l' r assume "P l" and o: "or_kill E f l = (l', r)"
    obtain l1 r1 where f: "f l = (l1, r1)" by fastforce
    then have "P l1" using staysD [OF basic [OF that] \<open>P l\<close>] by blast
    with kill f o show "P l'" by (auto simp: or_kill_def split: option.splits)
  qed
  have "stays P (stages [or_kill E (wait_socket E fmt mk ctx path mx), or_kill E (wait_agent E cfg t0 ctx)])" for fmt mk path mx t0
    by (rule stays_stages) (auto intro!: k basic_stage.intros)
  note g = this [unfolded stays_def, rule_format]
  have g: "stays P (wait_guest E cfg ctx)" unfolding stays_def wait_guest_def Let_def by (intro allI impI) (rule g)
  have p: "stays P (preparePathsFrom E cfg deps src)" for src
    by (simp add: preparePathsFrom_def basic basic_stage.intros)
  show ?thesis
  proof (cases reco)
    case None
    have "stays P (launch E cfg deps ctx sp)"
      unfolding launch_def preparePaths_def
      using None by (intro stays_stages) (auto intro!: k p g intro: basic basic_stage.intros)
    with None show ?thesis by (simp add: run_launch_def)
  next
    case (Some rec)
    have "stays P (prepareRestore E cfg deps rec)"
      using Some unfolding prepareRestore_def by (auto intro!: stays_stages p basic [OF basic_stage.intros(6)] basic [OF basic_stage.intros(7)])
    then have "stays P (stages
        [recreate_tap deps sp rec, prepareRestore E cfg deps rec, start_vmm E cfg fmt,
         or_kill E (attachCgroup deps sp), or_kill E (wait_socket E fmt' mk ctx path mx), set_client,
         or_kill E (\<lambda>l. whileAlive E ctx (restore_calls cfg rec l) l), wait_guest E cfg ctx])" for fmt fmt' mk path mx
      using Some by (intro stays_stages) (auto intro!: k g intro: basic basic_stage.intros)
    with Some show ?thesis by (auto simp: stays_def run_launch_def launchRestore_def)
  qed
qed

lemmas stage_defs = prepare_jailed_def jail_vm_def prepare_open_def check_disk_def setup_tap_def recreate_tap_def
  import_file_def restore_open_def start_vmm_def attachCgroup_def wait_socket_def set_client_def whileAlive_def
  wait_agent_def Let_def

text \<open>A launch does not change who the instance is.\<close>

definition ident :: "'n vm \<Rightarrow> string \<times> string \<times> string \<times> profile \<times> 32 word \<times> nat \<times> bool" where
  "ident v = (vi_id v, vi_language v, vi_sessionID v, vi_limits v, vi_cid v, vi_port v, vi_dead v)"

lemma run_launch_ident: "stays (\<lambda>l. ident (la_vm l) = x) (run_launch E cfg deps ctx sp reco)"
proof (rule run_launch_stays)
  fix f assume "basic_stage E cfg deps sp reco f"
  then show "stays (\<lambda>l. ident (la_vm l) = x) f"
    by (cases rule: basic_stage.cases; intro staysI;
        auto simp: ident_def stage_defs split: prod.splits sum.splits option.splits if_splits)
qed (auto simp: ident_def kill_def split: option.split)

text \<open>The cleanup an instance holds comes from the attacher.\<close>

definition quiet_vm :: "'n vm \<Rightarrow> bool" where
  "quiet_vm v = (case vi_cgroupCleanup v of None \<Rightarrow> True | Some cl \<Rightarrow> quiet cl)"

lemma quiet_vm_upd [simp]:
  "quiet_vm (v\<lparr>vi_jailed := a\<rparr>) = quiet_vm v" "quiet_vm (v\<lparr>vi_workDir := b\<rparr>) = quiet_vm v"
  "quiet_vm (v\<lparr>vi_apiSock := b\<rparr>) = quiet_vm v" "quiet_vm (v\<lparr>vi_vsockUDS := b\<rparr>) = quiet_vm v"
  "quiet_vm (v\<lparr>vi_logFile := b\<rparr>) = quiet_vm v" "quiet_vm (v\<lparr>vi_hostRootfs := b\<rparr>) = quiet_vm v"
  "quiet_vm (v\<lparr>vi_pid := p\<rparr>) = quiet_vm v" "quiet_vm (v\<lparr>vi_stderr := a\<rparr>) = quiet_vm v"
  "quiet_vm (v\<lparr>vi_client := a\<rparr>) = quiet_vm v" "quiet_vm (v\<lparr>vi_tap := k\<rparr>) = quiet_vm v"
  "quiet_vm (v\<lparr>vi_snapRec := r\<rparr>) = quiet_vm v" "quiet_vm (v\<lparr>vi_dead := a\<rparr>) = quiet_vm v"
  "quiet_vm (v\<lparr>vi_cgroupCleanup := Some cl\<rparr>) = quiet cl"
  by (simp_all add: quiet_vm_def)

context quiet_deps
begin

lemma run_launch_quiet: "stays (\<lambda>l. quiet_vm (la_vm l)) (run_launch E cfg deps ctx sp reco)"
proof (rule run_launch_stays)
  fix f assume "basic_stage E cfg deps sp reco f"
  then show "stays (\<lambda>l. quiet_vm (la_vm l)) f"
    by (cases rule: basic_stage.cases; intro staysI;
        auto simp: stage_defs split: prod.splits sum.splits option.splits if_splits dest: cleanup_quiet)
qed (auto simp: kill_def split: option.split)

end

section \<open>A boot accounts for what it starts\<close>

lemma os_pair: "quiet op \<Longrightarrow> h_trace (fst (op w)) = h_trace w"
  by (simp add: quiet_def)

lemma cleanupFiles_trace: "h_trace (fst (cleanupFiles v w)) = h_trace w @ [ERemoveAll (vi_workDir v) (snd (cleanupFiles v w))]"
  by (auto simp: cleanupFiles_def Let_def split: option.split prod.split dest: on_fs_eq_trace)

lemma mk_workdir_quiet: "quiet (mk_workdir cfg vid)"
  by (auto simp: quiet_def mk_workdir_def split: prod.split dest: on_fs_eq_trace)

definition owned_by :: "bool \<Rightarrow> 'n vm \<Rightarrow> int set \<Rightarrow> link set \<Rightarrow> fc_event list \<Rightarrow> bool" where
  "owned_by h v R T tr = (held_vmms tr \<subseteq> R \<union> set_option (vi_pid v) \<and> held_links tr \<subseteq> T \<union> set_option (vi_tap v)
     \<and> vi_pid v \<noteq> None \<and> (vi_tap v \<noteq> None \<longrightarrow> h) \<and> quiet_vm v \<and> \<not> vi_dead v)"

context quiet_deps
begin

lemma teardown_trace:
  "fd_Tap deps \<noteq> None \<or> vi_tap v = None \<Longrightarrow>
     h_trace (fst (teardown_tap deps v w)) = h_trace w @ (case vi_tap v of None \<Rightarrow> [] | Some k \<Rightarrow> [ETapDown k (snd (teardown_tap deps v w))])"
  by (cases "vi_tap v"; cases "fd_Tap deps") (auto simp: teardown_tap_def split: prod.split dest: quietD [OF teardown_quiet])

lemma first_record_quiet: "quiet (first_record deps sp vid reco)"
  using prepare_quiet unfolding quiet_def first_record_def
  by (auto split: option.split prod.split sum.split) (metis fst_conv)+

lemma boot_vm_accounts:
  assumes "boot_vm E cfg deps ctx sp reco vid cid w = (w', x)" and "held_vmms (h_trace w) \<subseteq> R" and "held_links (h_trace w) \<subseteq> T"
  shows "case x of Ret (Inr v) \<Rightarrow> owned_by (fd_Tap deps \<noteq> None) v R T (h_trace w') \<and> ident v = ident (new_vm cfg sp vid cid :: 'n vm)
    | _ \<Rightarrow> held_vmms (h_trace w') \<subseteq> R \<and> held_links (h_trace w') \<subseteq> T"
proof -
  obtain w1 r1 where m: "mk_workdir cfg vid w = (w1, r1)" by fastforce
  obtain w2 r2 where f: "first_record deps sp vid reco w1 = (w2, r2)" by fastforce
  have tr: "h_trace w1 = h_trace w" "h_trace w2 = h_trace w"
    using quietD [OF mk_workdir_quiet m] quietD [OF first_record_quiet f] by simp_all
  show ?thesis
  proof (cases "r1 = None \<and> ok r2")
    case False
    then have "h_trace w' = h_trace w \<and> (\<exists>e. x = Ret (Inl e))"
      using assms(1) m f tr by (auto simp: boot_vm_def split: option.splits sum.splits)
    with assms(2,3) show ?thesis by auto
  next
    case True
    then obtain r0 where r: "r1 = None" "r2 = Inr r0" by (cases r2) auto
    define l0 where "l0 = start_launch cfg ((new_vm cfg sp vid cid)\<lparr>vi_snapRec := r0\<rparr>) w2"
    obtain l r3 where l: "run_launch E cfg deps ctx sp reco l0 = (l, r3)" by fastforce
    have x: "finish_boot deps (l, r3) = (w', x)" using assms(1) m f r l by (simp add: boot_vm_def l0_def)
    have v0: "la_vm l0 = (new_vm cfg sp vid cid)\<lparr>vi_snapRec := r0\<rparr>" "la_host l0 = w2" "\<not> la_panic l0"
      by (simp_all add: l0_def start_launch_def)
    have fr: "fresh R T (owns l0)" using assms(2,3) tr by (simp add: owns_def v0 new_vm_def Let_def)
    have id0: "ident (la_vm l0) = ident (new_vm cfg sp vid cid :: 'n vm)" by (simp add: v0 ident_def)
    have id: "ident (la_vm l) = ident (new_vm cfg sp vid cid :: 'n vm)" using staysD [OF run_launch_ident id0 l] .
    have q0: "quiet_vm (la_vm l0)" by (simp add: v0) (simp add: quiet_vm_def new_vm_def Let_def)
    have q: "quiet_vm (la_vm l)" using staysD [OF run_launch_quiet q0 l] .
    show ?thesis
    proof (cases r3)
      case None
      have u: "up (fd_Tap deps \<noteq> None) R T (owns l)" using triple_ok [OF run_launch_accounts fr] l None by simp
      have d: "\<not> vi_dead (la_vm l)" using id by (simp add: ident_def new_vm_def Let_def)
      from x None have "w' = la_host l" "x = Ret (Inr (la_vm l))" by (simp_all add: finish_boot_def)
      with u d id q show ?thesis by (simp add: owned_by_def owns_def)
    next
      case (Some e)
      have fa: "failed (fd_Tap deps \<noteq> None) R T (owns l)" using triple_err [OF run_launch_accounts fr] l Some by simp
      then have t: "fd_Tap deps \<noteq> None \<or> vi_tap (la_vm l) = None" by (auto simp: owns_def)
      have "held_vmms (h_trace w') \<subseteq> R \<and> held_links (h_trace w') \<subseteq> T \<and> (\<forall>v. x \<noteq> Ret (Inr v))"
        using x Some fa by (cases "la_panic l")
          (auto simp: finish_boot_def owns_def cleanupFiles_trace teardown_trace [OF t] simp flip: append_assoc split: option.splits)
      then show ?thesis by (auto split: call.split sum.split)
    qed
  qed
qed

end

section \<open>Executing starts and stops nothing\<close>

definition calm :: "('n host \<Rightarrow> 'n host \<times> 'a) \<Rightarrow> bool" where
  "calm op = (\<forall>w. held_vmms (h_trace (fst (op w))) = held_vmms (h_trace w) \<and> held_links (h_trace (fst (op w))) = held_links (h_trace w))"

lemma quiet_calm: "quiet op \<Longrightarrow> calm op"
  by (simp add: quiet_def calm_def)

lemma calmD: "calm op \<Longrightarrow> op w = (w', r) \<Longrightarrow> held_vmms (h_trace w') = held_vmms (h_trace w) \<and> held_links (h_trace w') = held_links (h_trace w)"
  by (metis calm_def fst_conv)

lemma calm_actions: "(\<And>a. a \<in> set as \<Longrightarrow> calm a) \<Longrightarrow> calm (actions as)"
proof (induction as)
  case (Cons a as)
  then have "calm a" "calm (actions as)" by auto
  then show ?case by (auto simp: calm_def split: prod.split option.split) (metis fst_conv)+
qed (simp add: calm_def)

lemma api_action_calm: "calm (api_action E fmt call)"
  by (simp add: calm_def api_action_def Let_def)

lemma snapshot_actions_quiet:
  "quiet (export_file E fmt src dst)" "quiet (rebase_diff E base diff)" "quiet (remove_quietly p)"
proof -
  show "quiet (export_file E fmt src dst)"
    by (auto simp: quiet_def export_file_def split: prod.split dest: on_fs_eq_trace)
  show "quiet (rebase_diff E base diff)"
    by (auto simp: quiet_def rebase_diff_def Let_def split: prod.splits sum.splits dest!: on_fs_eq_trace)
  show "quiet (remove_quietly p)" by (simp add: quiet_def remove_quietly_def)
qed

lemma snap_actions_calm: "a \<in> set (snap_actions E v rec) \<Longrightarrow> calm a"
  by (auto simp: snap_actions_def snap_exports_def api_action_calm quiet_calm [OF snapshot_actions_quiet(1)]
      quiet_calm [OF snapshot_actions_quiet(2)] quiet_calm [OF snapshot_actions_quiet(3)] split: prod.splits if_splits)

text \<open>The fields of an instance that the account of the backend depends on.\<close>

definition core :: "'n vm \<Rightarrow> int option \<times> link option \<times> 'n action option \<times> bool" where
  "core v = (vi_pid v, vi_tap v, vi_cgroupCleanup v, vi_dead v)"

context quiet_deps
begin

lemma saveSnapshot_calm:
  assumes "fd_Snapshots deps = Some st" and "saveSnapshot E st v w = (v', w', r)"
  shows "held_vmms (h_trace w') = held_vmms (h_trace w)" "held_links (h_trace w') = held_links (h_trace w)" "core v' = core v" "ident v' = ident v"
proof -
  obtain w0 r0 where b: "snap_base st v w = (w0, r0)" by fastforce
  have w0: "h_trace w0 = h_trace w"
    using b quietD [OF prepare_quiet [OF assms(1)]] by (auto simp: snap_base_def split: option.splits)
  have a: "calm (actions (snap_actions E v rec))" for rec by (intro calm_actions snap_actions_calm)
  have "held_vmms (h_trace w') = held_vmms (h_trace w) \<and> held_links (h_trace w') = held_links (h_trace w) \<and> core v' = core v \<and> ident v' = ident v"
    using assms(2) b w0 by (auto simp: saveSnapshot_def core_def ident_def Let_def split: sum.splits prod.splits option.splits
        dest!: calmD [OF a] quietD [OF commit_quiet [OF assms(1)]])
  then show "held_vmms (h_trace w') = held_vmms (h_trace w)" "held_links (h_trace w') = held_links (h_trace w)" "core v' = core v" "ident v' = ident v"
    by blast+
qed

lemma vm_Execute_calm:
  assumes "vm_Execute E deps ctx req v w = (v', w', r)"
  shows "held_vmms (h_trace w') = held_vmms (h_trace w) \<and> held_links (h_trace w') = held_links (h_trace w) \<and> core v' = core v \<and> ident v' = ident v"
proof -
  have m: "held_vmms (h_trace w2) = held_vmms (h_trace w1) \<and> held_links (h_trace w2) = held_links (h_trace w1) \<and> core v2 = core v1 \<and> ident v2 = ident v1"
    if "maybeSnapshot E deps v1 w1 = (v2, w2)" for v1 v2 w1 w2
    using that by (auto simp: maybeSnapshot_def split: option.splits if_splits prod.splits dest: saveSnapshot_calm)
  from assms show ?thesis
    by (auto simp: vm_Execute_def Let_def split: if_splits sum.splits option.splits prod.splits dest!: m)
qed

end

section \<open>What \<open>Destroy\<close> does\<close>

text \<open>
  The events of a teardown: the VMM is gone, then each resource is released, with what its release
  returned: \<open>r1\<close> for the cgroup, \<open>r2\<close> for the link and \<open>r3\<close> for the files.
\<close>

definition teardown_events :: "bool \<Rightarrow> gerr option \<Rightarrow> gerr option \<Rightarrow> gerr option \<Rightarrow> gerr option \<Rightarrow> 'n vm \<Rightarrow> fc_event list" where
  "teardown_events exits rk r1 r2 r3 v =
     (if vi_client v then [EApi sendCtrlAltDel] else [])
     @ (case vi_pid v of None \<Rightarrow> [] | Some p \<Rightarrow> (if exits then [] else [EKill p rk]) @ [EWait p])
     @ (if vi_stderr v then [ECloseStderr (vi_id v)] else [])
     @ (if vi_cgroupCleanup v = None then [] else [EDetach (vi_id v) r1])
     @ (case vi_tap v of None \<Rightarrow> [] | Some k \<Rightarrow> [ETapDown k r2])
     @ [ERemoveAll (vi_workDir v) r3]"

lemma teardown_held:
  "held_vmms (tr @ teardown_events exits rk r1 r2 r3 v) = held_vmms tr - set_option (vi_pid v)"
  "held_links (tr @ teardown_events exits rk r1 r2 r3 v) = held_links tr - set_option (vi_tap v)"
  by (auto simp: held_vmms_def held_links_def teardown_events_def split: option.split)

lemma teardown_ends:
  "running (tr @ teardown_events exits rk r1 r2 r3 v) = running tr - set_option (vi_pid v)"
  "taps_up (tr @ teardown_events exits rk r1 r2 r3 v) = (if r2 = None then taps_up tr - set_option (vi_tap v) else taps_up tr)"
  by (auto simp: running_def taps_up_def teardown_events_def split: option.split)

lemma ctrl_alt_del_trace: "h_trace (ctrl_alt_del E v w) = h_trace w @ (if vi_client v then [EApi sendCtrlAltDel] else [])"
  by (simp add: ctrl_alt_del_def api_action_def Let_def)

lemma end_vmm_trace: "h_trace (end_vmm E v w) = h_trace w
    @ (case vi_pid v of None \<Rightarrow> [] | Some p \<Rightarrow> (if fe_exits E (h_step w) then [] else [EKill p (fe_kill E (h_step w) p)]) @ [EWait p])"
  by (simp add: end_vmm_def Let_def split: option.split)

lemma close_stderr_trace: "h_trace (close_stderr v w) = h_trace w @ (if vi_stderr v then [ECloseStderr (vi_id v)] else [])"
  by (simp add: close_stderr_def)

text \<open>A removal that returns nil leaves nothing below the directory.\<close>

lemma cleanupFiles_ok: "cleanupFiles v w = (w', None) \<Longrightarrow> below (path_clean (vi_workDir v)) q \<Longrightarrow> fs_tree (h_fs w') q = None"
  by (auto simp: cleanupFiles_def Let_def on_fs_def split: prod.splits dest!: os_RemoveAll_ok)

context quiet_deps
begin

lemma vm_Destroy_trace:
  assumes "\<not> vi_dead v" and "vm_Destroy E deps ctx v w = (v', w', r)" and "quiet_vm v"
    and "fd_Tap deps \<noteq> None \<or> vi_tap v = None"
  shows "\<exists>exits rk r1 r2 r3. v' = v\<lparr>vi_dead := True\<rparr> \<and> h_trace w' = h_trace w @ teardown_events exits rk r1 r2 r3 v
    \<and> (r = None \<longleftrightarrow> r1 = None \<and> r2 = None \<and> r3 = None)
    \<and> (r3 = None \<longrightarrow> (\<forall>q. below (path_clean (vi_workDir v)) q \<longrightarrow> fs_tree (h_fs w') q = None))"
proof -
  define w0 where "w0 = close_stderr v (end_vmm E v (ctrl_alt_del E v w))"
  obtain exits rk where w0: "h_trace w0 = h_trace w @ (if vi_client v then [EApi sendCtrlAltDel] else [])
     @ (case vi_pid v of None \<Rightarrow> [] | Some p \<Rightarrow> (if exits then [] else [EKill p rk]) @ [EWait p])
     @ (if vi_stderr v then [ECloseStderr (vi_id v)] else [])"
    using that [of "fe_exits E (h_step (ctrl_alt_del E v w))" "fe_kill E (h_step (ctrl_alt_del E v w)) (the (vi_pid v))"]
    by (cases "vi_pid v") (simp_all add: w0_def close_stderr_trace end_vmm_trace ctrl_alt_del_trace)
  obtain w1 r1 where c: "cleanup_cgroup v w0 = (w1, r1)" by fastforce
  obtain w2 r2 where t: "teardown_tap deps v w1 = (w2, r2)" by fastforce
  obtain w3 r3 where f: "cleanupFiles v w2 = (w3, r3)" by fastforce
  have w1: "h_trace w1 = h_trace w0 @ (if vi_cgroupCleanup v = None then [] else [EDetach (vi_id v) r1])"
    using c assms(3) by (auto simp: cleanup_cgroup_def quiet_vm_def split: option.splits prod.splits dest: quietD)
  have w2: "h_trace w2 = h_trace w1 @ (case vi_tap v of None \<Rightarrow> [] | Some k \<Rightarrow> [ETapDown k r2])"
    using teardown_trace [OF assms(4), of w1] t by (auto split: option.splits)
  have w3: "h_trace w3 = h_trace w2 @ [ERemoveAll (vi_workDir v) r3]" using cleanupFiles_trace [of v w2] f by simp
  have v': "v' = v\<lparr>vi_dead := True\<rparr>" and w': "w' = w3"
    and r: "r = errors_join (snd (collect [cleanup_cgroup v, teardown_tap deps v, cleanupFiles v] w0))"
    using assms(1,2) c t f by (auto simp: vm_Destroy_def simp flip: w0_def split: prod.splits)
  have "r = None \<longleftrightarrow> r1 = None \<and> r2 = None \<and> r3 = None"
    unfolding r by (cases r1; cases r2; cases r3) (simp_all add: c t f)
  moreover have "h_trace w' = h_trace w @ teardown_events exits rk r1 r2 r3 v"
    by (simp only: w' w3 w2 w1 w0 teardown_events_def append_assoc)
  moreover have "\<forall>q. below (path_clean (vi_workDir v)) q \<longrightarrow> fs_tree (h_fs w') q = None" if "r3 = None"
    using cleanupFiles_ok [of v w2 w3] f that w' by simp
  ultimately show ?thesis using v' by blast
qed

end

end
