(* ===== verification/FC_Backend.thy ===== *)
theory FC_Backend
  imports FC_Facts
begin

text \<open>
  The Firecracker backend as a runtime. Its invariant says that every VMM that it has not tried to end
  and every TAP link that it has not tried to tear down belongs to an instance that is not destroyed; under the contract of its
  interfaces the backend satisfies \<open>vm_runtime\<close>, so what is proved of requests against any
  runtime holds of it.
\<close>

section \<open>The invariant\<close>

definition live_pids :: "'n vm list \<Rightarrow> int set" where
  "live_pids vs = {p. \<exists>v \<in> set vs. \<not> vi_dead v \<and> vi_pid v = Some p}"

definition live_taps :: "'n vm list \<Rightarrow> link set" where
  "live_taps vs = {k. \<exists>v \<in> set vs. \<not> vi_dead v \<and> vi_tap v = Some k}"

definition vm_sound :: "bool \<Rightarrow> 'n vm \<Rightarrow> bool" where
  "vm_sound h v = (quiet_vm v \<and> (vi_tap v \<noteq> None \<longrightarrow> h) \<and> vi_pid v \<noteq> None \<and> 3 \<le> vi_cid v)"

definition fc_inv :: "'n fc_deps \<Rightarrow> 'n fc_state \<Rightarrow> bool" where
  "fc_inv deps s = (held_vmms (h_trace (fs_host s)) \<subseteq> live_pids (fs_vms s)
     \<and> held_links (h_trace (fs_host s)) \<subseteq> live_taps (fs_vms s)
     \<and> list_all (vm_sound (fd_Tap deps \<noteq> None)) (fs_vms s))"

definition fc_known :: "'n fc_state \<Rightarrow> nat set" where
  "fc_known s = {..<length (fs_vms s)}"

definition fc_live :: "'n fc_state \<Rightarrow> nat set" where
  "fc_live s = {i. i < length (fs_vms s) \<and> \<not> vi_dead (fs_vms s ! i)}"

text \<open>What a boot may do to the state: one new live instance when it succeeds, none otherwise.\<close>

definition boot_effect :: "'n fc_state \<Rightarrow> 'n fc_state \<Rightarrow> nat res call \<Rightarrow> bool" where
  "boot_effect s s' x = (case x of
       Ret (Inr i) \<Rightarrow> i = length (fs_vms s) \<and> (\<exists>v. fs_vms s' = fs_vms s @ [v] \<and> \<not> vi_dead v)
     | _ \<Rightarrow> fs_vms s' = fs_vms s)"

lemma next_cid_reserved: "3 \<le> next_cid c"
proof -
  have "3 \<le> n + 3" if "n < (3 :: 32 word)" for n
    using that by (simp add: word_le_nat_alt word_less_nat_alt unat_word_ariths)
  from this [of "c + 1"] show ?thesis by (auto simp: next_cid_def Let_def add.assoc)
qed

lemma live_snoc: "\<not> vi_dead v \<Longrightarrow> live_pids (vs @ [v]) = live_pids vs \<union> set_option (vi_pid v)"
  "\<not> vi_dead v \<Longrightarrow> live_taps (vs @ [v]) = live_taps vs \<union> set_option (vi_tap v)"
  by (auto simp: live_pids_def live_taps_def)

text \<open>Two states that agree on what the backend owns.\<close>

abbreviation same_vms :: "'n fc_state \<Rightarrow> 'n fc_state \<Rightarrow> bool" where
  "same_vms s s1 \<equiv> fs_vms s1 = fs_vms s"

definition same :: "'n fc_state \<Rightarrow> 'n fc_state \<Rightarrow> bool" where
  "same s s1 = (same_vms s s1 \<and> fs_seq s1 = fs_seq s \<and> h_trace (fs_host s1) = h_trace (fs_host s))"

lemma same_refl [simp]: "same s s"
  by (simp add: same_def)

lemma same_trans: "same a b \<Longrightarrow> same b c \<Longrightarrow> same a c"
  by (simp add: same_def)

lemma same_inv: "fc_inv deps s \<Longrightarrow> same s s1 \<Longrightarrow> fc_inv deps s1"
  by (simp add: same_def fc_inv_def)

lemma same_vms_effect: "same_vms s s1 \<Longrightarrow> boot_effect s1 s' x \<Longrightarrow> boot_effect s s' x"
  by (simp add: boot_effect_def split: call.splits sum.splits)

lemma same_effect: "same s s1 \<Longrightarrow> boot_effect s1 s' x \<Longrightarrow> boot_effect s s' x"
  by (rule same_vms_effect) (auto simp: same_def)

lemma on_state_same: "quiet op \<Longrightarrow> on_state op s = (s', r) \<Longrightarrow> same s s'"
  by (auto simp: on_state_def same_def split: prod.splits dest!: quietD)

context quiet_deps
begin

text \<open>The ways through \<open>Boot\<close>: refused, a cold boot, a restore, or a cold boot after a failed restore.\<close>

lemma boot_session_cases:
  assumes "boot_session E cfg deps ctx sp s = (s', x)"
  obtains e where "same s s'" "x = Ret (Inl e)"
    | s1 where "same s s1" "bootOne E cfg deps ctx sp None s1 = (s', x)"
    | s1 rec where "same s s1" "networkMatches (Some rec) (sp_Network sp)" "bootOne E cfg deps ctx sp (Some rec) s1 = (s', x)"
    | s1 rec s2 e s3 where "same s s1" "networkMatches (Some rec) (sp_Network sp)"
        "bootOne E cfg deps ctx sp (Some rec) s1 = (s2, Ret (Inl e))" "same s2 s3" "bootOne E cfg deps ctx sp None s3 = (s', x)"
proof (cases "fd_Snapshots deps = None \<or> sp_SessionID sp = []")
  case True
  then show ?thesis using that(2) [of s] assms by (auto simp: boot_session_def split: option.splits)
next
  case False
  then obtain st where st: "fd_Snapshots deps = Some st" and sid: "sp_SessionID sp \<noteq> []" by auto
  obtain s1 r where o: "on_state (sn_Restore st (sp_SessionID sp)) s = (s1, r)" by fastforce
  have s1: "same s s1" using on_state_same [OF restore_quiet [OF st] o] .
  have d: "same s2 (fst (on_state (sn_Delete st (sp_SessionID sp)) s2))" for s2
    using on_state_same [OF delete_quiet [OF st] surjective_pairing] .
  show ?thesis
  proof (cases r)
    case (Inl e)
    then show ?thesis using assms st sid o s1 that(1) [of e] that(2) [of s1] by (auto simp: boot_session_def split: if_splits)
  next
    case (Inr rec)
    obtain s2 y where b: "bootOne E cfg deps ctx sp (Some rec) s1 = (s2, y)" by fastforce
    note B = assms [unfolded boot_session_def] 
    show ?thesis
    proof (cases "networkMatches (Some rec) (sp_Network sp)")
      case True
      then show ?thesis using B st sid o Inr b s1 that(3) [OF s1 True] that(4) [OF s1 True] d
        by (auto split: call.splits sum.splits)
    next
      case False
      then show ?thesis using B st sid o Inr that(2) [OF same_trans [OF s1 d]] by auto
    qed
  qed
qed

lemma FC_Boot_cases:
  assumes "FC_Boot E cfg deps ctx sp s = (s', x)"
  obtains e where "same s s'" "x = Ret (Inl e)"
    | s1 where "same s s1" "bootOne E cfg deps ctx sp None s1 = (s', x)"
    | s1 rec where "same s s1" "networkMatches (Some rec) (sp_Network sp)" "bootOne E cfg deps ctx sp (Some rec) s1 = (s', x)"
    | s1 rec s2 e s3 where "same s s1" "networkMatches (Some rec) (sp_Network sp)"
        "bootOne E cfg deps ctx sp (Some rec) s1 = (s2, Ret (Inl e))" "same s2 s3" "bootOne E cfg deps ctx sp None s3 = (s', x)"
proof -
  obtain s0 r where o: "on_state (on_fs (Config_Validate cfg)) s = (s0, r)" by fastforce
  have s0: "same s s0" using on_state_same [OF quiet_on_fs o] .
  consider "boot_session E cfg deps ctx sp s0 = (s', x)" | e where "same s s'" "x = Ret (Inl e)"
    using assms o s0 by (auto simp: FC_Boot_def split: if_splits option.splits)
  then show ?thesis
  proof cases
    case 1
    then show ?thesis
      by (rule boot_session_cases) (use that same_trans [OF s0] in \<open>blast+\<close>)
  qed (use that(1) in blast)
qed

lemma bootOne_inv:
  assumes "fc_inv deps s" and "bootOne E cfg deps ctx sp reco s = (s', x)"
  shows "fc_inv deps s' \<and> boot_effect s s' x"
proof -
  define cid where "cid = choose_cid reco (next_cid (fs_cids s))"
  define vid where "vid = vm_name (fs_seq s + 1)"
  have cid: "3 \<le> cid" by (simp add: cid_def choose_cid_def next_cid_reserved split: option.split)
  obtain w y where b: "boot_vm E cfg deps ctx sp reco vid cid (fs_host s) = (w, y)" by fastforce
  have inv: "held_vmms (h_trace (fs_host s)) \<subseteq> live_pids (fs_vms s)" "held_links (h_trace (fs_host s)) \<subseteq> live_taps (fs_vms s)"
    "list_all (vm_sound (fd_Tap deps \<noteq> None)) (fs_vms s)"
    using assms(1) by (auto simp: fc_inv_def)
  note acc = boot_vm_accounts [OF b inv(1,2)]
  show ?thesis
  proof (cases "\<exists>v. y = Ret (Inr v)")
    case True
    then obtain v where y: "y = Ret (Inr v)" by blast
    then have o: "owned_by (fd_Tap deps \<noteq> None) v (live_pids (fs_vms s)) (live_taps (fs_vms s)) (h_trace w)"
      and i: "ident v = ident (new_vm cfg sp vid cid :: 'n vm)" using acc by auto
    have "vi_cid v = cid" using i by (simp add: ident_def new_vm_def Let_def)
    with o cid have "vm_sound (fd_Tap deps \<noteq> None) v" "\<not> vi_dead v" by (auto simp: owned_by_def vm_sound_def)
    moreover have "fs_vms s' = fs_vms s @ [v]" "fs_host s' = w" "x = Ret (Inr (length (fs_vms s)))"
      using assms(2) b y by (auto simp: bootOne_def Let_def simp flip: vid_def cid_def)
    ultimately show ?thesis
      using o inv(3) by (auto simp: fc_inv_def boot_effect_def owned_by_def live_snoc)
  next
    case False
    then have "held_vmms (h_trace w) \<subseteq> live_pids (fs_vms s) \<and> held_links (h_trace w) \<subseteq> live_taps (fs_vms s)"
      using acc by (auto split: call.splits sum.splits)
    moreover have "fs_vms s' = fs_vms s" "fs_host s' = w" "\<forall>i. x \<noteq> Ret (Inr i)"
      using assms(2) b False by (auto simp: bootOne_def Let_def simp flip: vid_def cid_def split: call.splits sum.splits)
    ultimately show ?thesis using inv(3) by (auto simp: fc_inv_def boot_effect_def split: call.splits sum.splits)
  qed
qed

lemma FC_Boot_inv:
  assumes "fc_inv deps s" and "FC_Boot E cfg deps ctx sp s = (s', x)"
  shows "fc_inv deps s' \<and> boot_effect s s' x"
proof (rule FC_Boot_cases [OF assms(2)])
  fix s1 assume "same s s1" and b: "bootOne E cfg deps ctx sp None s1 = (s', x)"
  then show ?thesis using bootOne_inv [OF same_inv b] assms(1) same_effect by blast
next
  fix s1 rec assume "same s s1" and b: "bootOne E cfg deps ctx sp (Some rec) s1 = (s', x)"
  then show ?thesis using bootOne_inv [OF same_inv b] assms(1) same_effect by blast
next
  fix s1 rec s2 e s3
  assume s: "same s s1" "same s2 s3" and b: "bootOne E cfg deps ctx sp (Some rec) s1 = (s2, Ret (Inl e))"
    "bootOne E cfg deps ctx sp None s3 = (s', x)"
  have "fc_inv deps s2 \<and> boot_effect s1 s2 (Ret (Inl e))" using bootOne_inv [OF same_inv b(1)] s assms(1) by blast
  moreover from this have "same_vms s s3" using s by (simp add: same_def boot_effect_def)
  ultimately show ?thesis using bootOne_inv [OF same_inv b(2)] s same_vms_effect by blast
qed (use assms(1) in \<open>auto simp: same_inv boot_effect_def same_def\<close>)

end

section \<open>Execute and Destroy\<close>

lemma live_core:
  "live_pids vs = {p. \<exists>k c. (Some p, k, c, False) \<in> core ` set vs}"
  "live_taps vs = {k. \<exists>p c. (p, Some k, c, False) \<in> core ` set vs}"
  by (force simp: live_pids_def live_taps_def core_def image_iff)+

lemma live_update_core:
  assumes "core v = core (vs ! i)"
  shows "live_pids (vs[i := v]) = live_pids vs" "live_taps (vs[i := v]) = live_taps vs"
proof -
  have "map core (vs[i := v]) = map core vs" using assms by (metis list_update_id map_update)
  then have "core ` set (vs[i := v]) = core ` set vs" by (metis list.set_map)
  then show "live_pids (vs[i := v]) = live_pids vs" "live_taps (vs[i := v]) = live_taps vs"
    by (simp_all add: live_core)
qed

lemma update_others: "v \<in> set vs \<Longrightarrow> v \<noteq> vs ! i \<Longrightarrow> v \<in> set (vs[i := x])"
  by (metis in_set_conv_nth length_list_update nth_list_update_neq)

lemma live_update_dead:
  "live_pids vs - set_option (vi_pid (vs ! i)) \<subseteq> live_pids (vs[i := x])"
  "live_taps vs - set_option (vi_tap (vs ! i)) \<subseteq> live_taps (vs[i := x])"
proof -
  show "live_pids vs - set_option (vi_pid (vs ! i)) \<subseteq> live_pids (vs[i := x])"
    using update_others [of _ vs i x] unfolding live_pids_def by fastforce
  show "live_taps vs - set_option (vi_tap (vs ! i)) \<subseteq> live_taps (vs[i := x])"
    using update_others [of _ vs i x] unfolding live_taps_def by fastforce
qed

lemma sound_core: "core v' = core v \<Longrightarrow> ident v' = ident v \<Longrightarrow> vm_sound h v' = vm_sound h v"
  by (simp add: core_def ident_def vm_sound_def quiet_vm_def)

context quiet_deps
begin

lemma FC_Execute_inv:
  assumes "fc_inv deps s" and "FC_Execute E deps ctx i req s = (s', x)"
  shows "fc_inv deps s'" "fc_known s' = fc_known s" "fc_live s' = fc_live s"
proof -
  have "fc_inv deps s' \<and> fc_known s' = fc_known s \<and> fc_live s' = fc_live s"
  proof (cases "i < length (fs_vms s)")
    case True
    obtain v w r where e: "vm_Execute E deps ctx req (fs_vms s ! i) (fs_host s) = (v, w, r)" by (metis prod_cases3)
    note c = vm_Execute_calm [OF e]
    have s': "s' = s\<lparr>fs_vms := (fs_vms s)[i := v], fs_host := w\<rparr>"
      using assms(2) e True by (auto simp: FC_Execute_def)
    have "vm_sound (fd_Tap deps \<noteq> None) v"
      using assms(1) True c sound_core [of v "fs_vms s ! i"] by (auto simp: fc_inv_def list_all_length)
    moreover have "vi_dead v = vi_dead (fs_vms s ! i)" using c by (simp add: core_def)
    ultimately show ?thesis
      using assms(1) c True
      by (auto simp: s' fc_inv_def live_update_core fc_known_def fc_live_def nth_list_update list_all_length)
  qed (use assms in \<open>simp add: FC_Execute_def\<close>)
  then show "fc_inv deps s'" "fc_known s' = fc_known s" "fc_live s' = fc_live s" by blast+
qed

lemma FC_Destroy_inv:
  assumes "fc_inv deps s" and "FC_Destroy E deps ctx i s = (s', x)"
  shows "fc_inv deps s'" "fc_known s' = fc_known s" "fc_live s' = fc_live s - {i}"
proof -
  have "fc_inv deps s' \<and> fc_known s' = fc_known s \<and> fc_live s' = fc_live s - {i}"
  proof (cases "i < length (fs_vms s) \<and> \<not> vi_dead (fs_vms s ! i)")
    case True
    define v where "v = fs_vms s ! i"
    obtain v' w r where e: "vm_Destroy E deps ctx v (fs_host s) = (v', w, r)" by (metis prod_cases3)
    have snd: "vm_sound (fd_Tap deps \<noteq> None) v" using assms(1) True by (auto simp: fc_inv_def list_all_length v_def)
    then have q: "quiet_vm v" "fd_Tap deps \<noteq> None \<or> vi_tap v = None" by (auto simp: vm_sound_def)
    obtain exits rk r1 r2 r3 where v': "v' = v\<lparr>vi_dead := True\<rparr>" and t: "h_trace w = h_trace (fs_host s) @ teardown_events exits rk r1 r2 r3 v"
      using vm_Destroy_trace [OF _ e q] True unfolding v_def by blast
    have s': "s' = s\<lparr>fs_vms := (fs_vms s)[i := v\<lparr>vi_dead := True\<rparr>], fs_host := w\<rparr>"
      using assms(2) e True by (auto simp: FC_Destroy_def v' simp flip: v_def)
    have "vm_sound (fd_Tap deps \<noteq> None) (v\<lparr>vi_dead := True\<rparr>)" using snd by (simp add: vm_sound_def)
    then have "list_all (vm_sound (fd_Tap deps \<noteq> None)) (fs_vms s')"
      using assms(1) True by (auto simp: s' fc_inv_def list_all_length nth_list_update)
    moreover have "held_vmms (h_trace w) \<subseteq> live_pids (fs_vms s')" "held_links (h_trace w) \<subseteq> live_taps (fs_vms s')"
      using assms(1) live_update_dead [of "fs_vms s" i "v\<lparr>vi_dead := True\<rparr>"]
      by (auto simp: s' t teardown_held fc_inv_def simp flip: v_def)
    ultimately show ?thesis using True by (auto simp: s' fc_inv_def fc_known_def fc_live_def nth_list_update)
  next
    case False
    then have "s' = s" using assms(2)
      by (auto simp: FC_Destroy_def vm_Destroy_def split: if_splits prod.splits)
    with False assms(1) show ?thesis by (auto simp: fc_live_def)
  qed
  then show "fc_inv deps s'" "fc_known s' = fc_known s" "fc_live s' = fc_live s - {i}" by blast+
qed

end

text \<open>The contract of the interfaces gives the contract of the runtime.\<close>

sublocale quiet_deps \<subseteq> fc: vm_runtime "fc_ops E cfg deps" "fc_inv deps" fc_known fc_live for E cfg
proof unfold_locales
  fix r r' c s i
  assume inv: "fc_inv deps r" and b: "rt_Boot (fc_ops E cfg deps) c s r = (r', Ret (Inr i))"
  then have "boot_effect r r' (Ret (Inr i))" using FC_Boot_inv by (fastforce simp: fc_ops_def)
  then show "i \<notin> fc_known r \<and> fc_known r' = insert i (fc_known r) \<and> fc_live r' = insert i (fc_live r)"
    by (auto simp: boot_effect_def fc_known_def fc_live_def nth_append less_Suc_eq)
next
  fix r r' c s x
  assume inv: "fc_inv deps r" and b: "rt_Boot (fc_ops E cfg deps) c s r = (r', x)" and x: "\<forall>i. x \<noteq> Ret (Inr i)"
  then have "boot_effect r r' x" using FC_Boot_inv by (fastforce simp: fc_ops_def)
  with x show "fc_known r' = fc_known r \<and> fc_live r' = fc_live r"
    by (auto simp: boot_effect_def fc_known_def fc_live_def split: call.splits sum.splits)
next
  fix r :: "'n fc_state" and c i q
  show "fc_live r \<subseteq> fc_known r" by (auto simp: fc_live_def fc_known_def)
  assume inv: "fc_inv deps r"
  show "fc_inv deps (fst (rt_Boot (fc_ops E cfg deps) c s r))" for s
    using FC_Boot_inv [OF inv surjective_pairing] by (simp add: fc_ops_def)
  note ex = FC_Execute_inv [OF inv surjective_pairing, of E c i q]
  show "fc_inv deps (fst (rt_Execute (fc_ops E cfg deps) c i q r))"
    "fc_known (fst (rt_Execute (fc_ops E cfg deps) c i q r)) = fc_known r \<and> fc_live (fst (rt_Execute (fc_ops E cfg deps) c i q r)) = fc_live r"
    using ex by (simp_all add: fc_ops_def)
  note de = FC_Destroy_inv [OF inv surjective_pairing, of E c i]
  show "fc_inv deps (fst (rt_Destroy (fc_ops E cfg deps) c i r))"
    "fc_known (fst (rt_Destroy (fc_ops E cfg deps) c i r)) = fc_known r \<and> fc_live (fst (rt_Destroy (fc_ops E cfg deps) c i r)) = fc_live r - {i}"
    using de by (simp_all add: fc_ops_def)
qed

end
