(* ===== verification/Cgroup.thy ===== *)
theory Cgroup
  imports Go_FS Resources
begin

text \<open>
  Package \<open>internal/resources\<close>, file \<open>cgroup.go\<close>: attaching a process tree to a cgroup. The
  cgroup hierarchy is part of the file system; what is read of \<open>/proc\<close> is an input, the list of
  its entries with the content of their \<open>stat\<close> files. Go iterates a map in any order, a new one
  at each pass: the order is the parameter \<open>ord\<close>.
\<close>

section \<open>Fields of a line\<close>

definition at_space :: "string \<Rightarrow> bool" where
  "at_space s = list_ex (\<lambda>p. prefix p s) space_encodings"

fun next_word :: "string \<Rightarrow> string \<times> string" where
  "next_word [] = ([], [])"
| "next_word (c # cs) =
     (if at_space (c # cs) then ([], c # cs)
      else case next_word cs of (w, r) \<Rightarrow> (c # w, r))"

lemma length_next_word: "length (fst (next_word s)) + length (snd (next_word s)) = length s"
  by (induction s) (auto split: prod.split)

lemma at_space_strip: "at_space s \<longleftrightarrow> trim_left_space s \<noteq> s"
proof
  assume "at_space s"
  then obtain p where "p \<in> set space_encodings" "prefix p s" by (auto simp: at_space_def list_ex_iff)
  with trim_left_space_done [of p s] show "trim_left_space s \<noteq> s" by auto
next
  assume "trim_left_space s \<noteq> s"
  then show "at_space s"
    using trim_left_space_fixed [of s] by (auto simp: at_space_def list_ex_iff)
qed

lemma next_word_progress: "trim_left_space s = t \<Longrightarrow> t \<noteq> [] \<Longrightarrow> length (snd (next_word t)) < length t"
proof -
  assume t: "trim_left_space s = t" "t \<noteq> []"
  then have "\<not> at_space t"
    using trim_left_space_done by (auto simp: at_space_def list_ex_iff)
  then have "fst (next_word t) \<noteq> []"
    using t(2) by (cases t) (auto split: prod.split)
  then show ?thesis using length_next_word [of t] by (cases "fst (next_word t)") auto
qed

lemma length_trim_left: "length (trim_left_space s) \<le> length s"
  using strip_suffix [of space_encodings s] by (simp add: trim_left_space_def suffix_length_le)

text \<open>\<open>strings.Fields\<close>.\<close>

function strings_fields :: "string \<Rightarrow> string list" where
  "strings_fields s = (let t = trim_left_space s in
     if t = [] then [] else fst (next_word t) # strings_fields (snd (next_word t)))"
  by pat_completeness auto
termination
proof (relation "measure length")
  fix s t
  assume "t = trim_left_space s" "t \<noteq> []"
  then have "length (snd (next_word t)) < length t" using next_word_progress by blast
  also have "\<dots> \<le> length s" using length_trim_left \<open>t = _\<close> by simp
  finally show "(snd (next_word t), s) \<in> measure length" by simp
qed simp

declare strings_fields.simps [simp del]

section \<open>The process table\<close>

record proc_table =
  pt_entries :: "gerr + string list"
  pt_stat :: "int \<Rightarrow> string res"

definition procPPid :: "proc_table \<Rightarrow> int \<Rightarrow> int res" where
  "procPPid P pid = (case pt_stat P pid of
       Inl e \<Rightarrow> Inl e
     | Inr s \<Rightarrow> (case cut_last CHR '')'' s of
           None \<Rightarrow> Inl (Errorf ''parse /proc/%d/stat'' [int_dec pid])
         | Some (_, rest) \<Rightarrow>
             if rest = [] then Inl (Errorf ''parse /proc/%d/stat'' [int_dec pid])
             else (case strings_fields rest of
                 _ # f1 # _ \<Rightarrow> (case atoi f1 of
                     None \<Rightarrow> Inl (Errorf ''strconv.Atoi: parsing %q'' [f1])
                   | Some v \<Rightarrow> Inr v)
               | _ \<Rightarrow> Inl (Errorf ''parse /proc/%d/stat fields'' [int_dec pid]))))"

fun ppid_map :: "proc_table \<Rightarrow> string list \<Rightarrow> (int \<times> int) list \<Rightarrow> (int \<times> int) list" where
  "ppid_map P [] m = m"
| "ppid_map P (name # ns) m = (case atoi name of
       None \<Rightarrow> ppid_map P ns m
     | Some pid \<Rightarrow> (case procPPid P pid of
           Inl _ \<Rightarrow> ppid_map P ns m
         | Inr parent \<Rightarrow> ppid_map P ns (al_put pid parent m)))"

text \<open>One pass over the map, in the order given; \<open>seen\<close> holds the root and \<open>out\<close>.\<close>

fun desc_pass :: "(int \<times> int) list \<Rightarrow> int list \<times> int list \<times> bool \<Rightarrow> int list \<times> int list \<times> bool" where
  "desc_pass [] st = st"
| "desc_pass ((pid, parent) # m) (seen, out, changed) =
     (if pid \<in> set seen \<or> parent \<notin> set seen then desc_pass m (seen, out, changed)
      else desc_pass m (pid # seen, out @ [pid], True))"

text \<open>
  The loop runs until a pass changes nothing. Every changing pass adds a process of the table,
  so the number of entries and one more passes are enough: \<open>desc_loop_fixed\<close> below.
\<close>

fun desc_loop :: "(nat \<Rightarrow> (int \<times> int) list) \<Rightarrow> nat \<Rightarrow> nat \<Rightarrow> int list \<times> int list \<Rightarrow> int list option" where
  "desc_loop ord 0 k (seen, out) = None"
| "desc_loop ord (Suc fuel) k (seen, out) = (case desc_pass (ord k) (seen, out, False) of
       (seen', out', changed) \<Rightarrow>
         if changed then desc_loop ord fuel (Suc k) (seen', out') else Some out')"

definition descendantPIDs :: "proc_table \<Rightarrow> ((int \<times> int) list \<Rightarrow> nat \<Rightarrow> (int \<times> int) list) \<Rightarrow> int \<Rightarrow> int list" where
  "descendantPIDs P ord root = (case pt_entries P of
       Inl _ \<Rightarrow> []
     | Inr names \<Rightarrow>
         (let ppid = ppid_map P names [] in
          case desc_loop (ord ppid) (Suc (length ppid)) 0 ([root], []) of
            None \<Rightarrow> []
          | Some out \<Rightarrow> out))"

section \<open>Names and places\<close>

definition sanitizeID :: "string \<Rightarrow> string" where
  "sanitizeID vid =
     (let b = concat (map (\<lambda>r. if alnum r \<or> r = 45 \<or> r = 95 then encode_rune r else ''_'') (runes vid))
      in if b = [] then ''vm'' else b)"

text \<open>\<open>strings.SplitN(line, ":", 3)\<close>: at most three parts.\<close>

definition split3 :: "char \<Rightarrow> string \<Rightarrow> string list" where
  "split3 d s = (case cut_first d s of
       None \<Rightarrow> [s]
     | Some (a, r) \<Rightarrow> (case cut_first d r of
           None \<Rightarrow> [a, r]
         | Some (b, c) \<Rightarrow> [a, b, c]))"

fun cgroup_line :: "string \<Rightarrow> string list \<Rightarrow> string option" where
  "cgroup_line root [] = None"
| "cgroup_line root (line # ls) = (case split3 CHR '':'' line of
       [p0, p1, rel] \<Rightarrow>
         if p1 = [] \<or> p0 = ''0'' then Some (if rel = ''/'' then root else path_join [root, rel])
         else cgroup_line root ls
     | _ \<Rightarrow> cgroup_line root ls)"

definition currentCgroupDir :: "string \<Rightarrow> string \<Rightarrow> fs \<Rightarrow> fs \<times> string res" where
  "currentCgroupDir root self0 s =
     (let self = (if self0 = [] then ''/proc/self/cgroup'' else self0) in
      case os_ReadFile self s of
        (s1, Inl e) \<Rightarrow> (s1, Inl e)
      | (s1, Inr data) \<Rightarrow> (s1, case cgroup_line root (split_on (CHR 0x0A) data) of
            Some d \<Rightarrow> Inr d
          | None \<Rightarrow> Inl (Errorf ''no cgroup v2 line in %s'' [self])))"

section \<open>Attaching\<close>

record cgroup_v2 =
  cg_Require :: bool
  cg_Root :: string
  cg_Self :: string

definition group_dir :: "string \<Rightarrow> string \<Rightarrow> string" where
  "group_dir parent vid = path_join [parent, ''warden-'' @ sanitizeID vid]"

text \<open>The cleanup that \<open>Attach\<close> returns: nothing to do, or the removal of a directory.\<close>

datatype cleanup = NoCleanup | RemoveGroup string string int

definition writeCgroup :: "string \<Rightarrow> string \<Rightarrow> string \<Rightarrow> fs \<Rightarrow> fs \<times> gerr option" where
  "writeCgroup dir file v s = os_WriteFile (path_join [dir, file]) (v @ [CHR 0x0A]) s"

fun move_loop :: "string \<Rightarrow> int list \<Rightarrow> nat \<Rightarrow> gerr option \<Rightarrow> fs \<Rightarrow> fs \<times> nat \<times> gerr option" where
  "move_loop dir [] moved lasterr s = (s, moved, lasterr)"
| "move_loop dir (pid # ps) moved lasterr s = (case writeCgroup dir ''cgroup.procs'' (int_dec pid) s of
       (s1, Some e) \<Rightarrow> move_loop dir ps moved (Some e) s1
     | (s1, None) \<Rightarrow> move_loop dir ps (Suc moved) lasterr s1)"

definition moveProcs :: "string \<Rightarrow> int list \<Rightarrow> fs \<Rightarrow> fs \<times> gerr option" where
  "moveProcs dir pids s = (case move_loop dir pids 0 None s of (s1, moved, lasterr) \<Rightarrow>
     (s1, if moved = 0 then (case lasterr of Some e \<Rightarrow> Some e | None \<Rightarrow> Some (Errorf ''no processes to move'' []))
          else None))"

definition missing :: "cgroup_v2 \<Rightarrow> string \<Rightarrow> gerr \<Rightarrow> cleanup res" where
  "missing c what e =
     (if cg_Require c then Inl (Wrapf ''cgroup v2 %s: %w'' [what] e) else Inr NoCleanup)"

text \<open>
  \<open>os.Remove\<close> of a directory: the program falls back to \<open>RemoveAll\<close> when it fails, and both
  leave the directory absent when they succeed.
\<close>

definition os_Remove :: "string \<Rightarrow> fs \<Rightarrow> fs \<times> gerr option" where
  "os_Remove p s = (case fault_now s of
       Some (e, _) \<Rightarrow> (tick s, Some e)
     | None \<Rightarrow>
         if fs_tree s (path_clean p) = None then (tick s, Some ErrNotExist)
         else if \<exists>q. q \<noteq> path_clean p \<and> below (path_clean p) q \<and> fs_tree s q \<noteq> None
         then (tick s, Some (Errorf ''directory not empty'' []))
         else ((tick s)\<lparr>fs_tree := (fs_tree s)(path_clean p := None)\<rparr>, None))"

fun write_back :: "string \<Rightarrow> int list \<Rightarrow> fs \<Rightarrow> fs" where
  "write_back parent [] s = s"
| "write_back parent (p # ps) s =
     write_back parent ps (fst (os_WriteFile (path_join [parent, ''cgroup.procs'']) (int_dec p) s))"

definition run_cleanup :: "cleanup \<Rightarrow> (int \<Rightarrow> int list) \<Rightarrow> fs \<Rightarrow> fs \<times> gerr option" where
  "run_cleanup c descendants s = (case c of
       NoCleanup \<Rightarrow> (s, None)
     | RemoveGroup parent dir pid \<Rightarrow>
         (case os_Remove dir (write_back parent (pid # descendants pid) s) of
            (s2, None) \<Rightarrow> (s2, None)
          | (s2, Some _) \<Rightarrow> os_RemoveAll dir s2))"

text \<open>The three required limits, in the order of the code.\<close>

definition required_limits :: "profile \<Rightarrow> (string \<times> string) list" where
  "required_limits p =
     [(''memory.max'', int_dec (MemoryBytes p)),
      (''cpu.max'', int_dec (CPUQuotaUs p) @ '' '' @ int_dec (CPUPeriodUs p)),
      (''pids.max'', int_dec (PIDsMax p))]"

fun write_limits :: "string \<Rightarrow> (string \<times> string) list \<Rightarrow> fs \<Rightarrow> fs \<times> (string \<times> gerr) option" where
  "write_limits dir [] s = (s, None)"
| "write_limits dir ((file, v) # ls) s = (case writeCgroup dir file v s of
       (s1, Some e) \<Rightarrow> (s1, Some (file, e))
     | (s1, None) \<Rightarrow> write_limits dir ls s1)"

definition Attach :: "cgroup_v2 \<Rightarrow> (int \<Rightarrow> int list) \<Rightarrow> string \<Rightarrow> int \<Rightarrow> profile \<Rightarrow> fs \<Rightarrow> fs \<times> cleanup res" where
  "Attach c descendants vid pid p s = (case Profile_Validate p of
       Some e \<Rightarrow> (s, Inl e)
     | None \<Rightarrow>
         (let root = (if cg_Root c = [] then ''/sys/fs/cgroup'' else cg_Root c) in
          case currentCgroupDir root (cg_Self c) s of
            (s1, Inl e) \<Rightarrow> (s1, missing c ''resolve current cgroup'' e)
          | (s1, Inr parent) \<Rightarrow>
              (let dir = group_dir parent vid;
                   cl = RemoveGroup parent dir pid
               in case os_Mkdir dir s1 of
                    (s2, mk) \<Rightarrow>
                      if (case mk of None \<Rightarrow> False | Some e \<Rightarrow> \<not> IsExist e) then
                        (s2, missing c (''create '' @ dir) (the mk))
                      else (case write_limits dir (required_limits p) s2 of
                          (s3, Some (file, e)) \<Rightarrow> (fst (run_cleanup cl descendants s3), missing c file e)
                        | (s3, None) \<Rightarrow>
                            (let s4 = fst (writeCgroup dir ''memory.swap.max'' ''0'' s3);
                                 s5 = fst (writeCgroup dir ''memory.oom.group'' ''1'' s4)
                             in case moveProcs dir (pid # descendants pid) s5 of
                                  (s6, Some e) \<Rightarrow> (fst (run_cleanup cl descendants s6), missing c ''cgroup.procs'' e)
                                | (s6, None) \<Rightarrow> (s6, Inr cl))))))"

section \<open>Descendants\<close>

definition child :: "(int \<times> int) list \<Rightarrow> (int \<times> int) set" where
  "child m = {(parent, pid). (pid, parent) \<in> set m}"

definition desc_inv :: "(int \<times> int) list \<Rightarrow> int \<Rightarrow> int list \<times> int list \<Rightarrow> bool" where
  "desc_inv m root st = (case st of (seen, out) \<Rightarrow> set seen = insert root (set out) \<and> distinct out \<and> root \<notin> set out
     \<and> set out \<subseteq> (child m)\<^sup>+ `` {root} \<and> set out \<subseteq> fst ` set m)"

lemma desc_pass_spec:
  assumes "desc_inv m root (seen, out)" and "set xs \<subseteq> set m" and "desc_pass xs (seen, out, ch) = (seen', out', ch')"
  shows "desc_inv m root (seen', out') \<and> (\<exists>new. out' = out @ new \<and> (ch' \<longleftrightarrow> ch \<or> new \<noteq> [])
    \<and> (new = [] \<longrightarrow> seen' = seen \<and> (\<forall>(pid, parent) \<in> set xs. parent \<in> set seen \<longrightarrow> pid \<in> set seen)))"
  using assms
proof (induction xs arbitrary: seen out ch)
  case (Cons x xs)
  obtain pid parent where x: "x = (pid, parent)" by fastforce
  show ?case
  proof (cases "pid \<in> set seen \<or> parent \<notin> set seen")
    case True
    then have "desc_pass xs (seen, out, ch) = (seen', out', ch')" using Cons.prems(3) x by simp
    from Cons.IH [OF Cons.prems(1) _ this] Cons.prems(2) True show ?thesis by (auto simp: x)
  next
    case False
    have "(root, parent) \<in> (child m)\<^sup>*"
      using Cons.prems(1) False by (auto simp: desc_inv_def intro: trancl_into_rtrancl)
    moreover have "(parent, pid) \<in> child m" using Cons.prems(2) by (auto simp: child_def x)
    ultimately have "(root, pid) \<in> (child m)\<^sup>+" by (rule rtrancl_into_trancl1)
    moreover have "pid \<in> fst ` set m" using Cons.prems(2) by (force simp: x)
    ultimately have inv: "desc_inv m root (pid # seen, out @ [pid])"
      using Cons.prems(1) False by (auto simp: desc_inv_def)
    have "desc_pass xs (pid # seen, out @ [pid], True) = (seen', out', ch')" using Cons.prems(3) False x by simp
    from Cons.IH [OF inv _ this] Cons.prems(2) show ?thesis by auto
  qed
qed auto

lemma desc_loop_fixed:
  assumes "desc_inv m root (seen, out)" and "\<And>k. set (ord k) = set m" and "length m < fuel + length out"
  shows "\<exists>seen' out'. desc_loop ord fuel k (seen, out) = Some out' \<and> desc_inv m root (seen', out')
    \<and> (\<forall>(pid, parent) \<in> set m. parent \<in> set seen' \<longrightarrow> pid \<in> set seen')"
  using assms(1,3)
proof (induction fuel arbitrary: k seen out)
  case 0
  have "length out = card (set out)" using 0(1) by (simp add: desc_inv_def distinct_card)
  also have "\<dots> \<le> card (fst ` set m)" using 0(1) by (intro card_mono) (auto simp: desc_inv_def)
  also have "\<dots> \<le> length m" by (metis card_image_le card_length finite_set le_trans)
  finally show ?case using 0(2) by simp
next
  case (Suc fuel)
  obtain seen' out' ch where p: "desc_pass (ord k) (seen, out, False) = (seen', out', ch)"
    using prod_cases3 by blast
  obtain new where s: "desc_inv m root (seen', out')" "out' = out @ new" "ch \<longleftrightarrow> new \<noteq> []"
      "new = [] \<Longrightarrow> seen' = seen \<and> (\<forall>(pid, parent) \<in> set m. parent \<in> set seen \<longrightarrow> pid \<in> set seen)"
    using desc_pass_spec [OF Suc.prems(1) _ p] assms(2) by auto
  show ?case
  proof (cases ch)
    case True
    then have "length m < fuel + length out'" using Suc.prems(2) s(2,3) by (cases new) auto
    then show ?thesis using Suc.IH [OF s(1)] True p by simp
  next
    case False
    then show ?thesis using s p by auto
  qed
qed

lemma closed_reach:
  assumes "\<forall>(pid, parent) \<in> set m. parent \<in> S \<longrightarrow> pid \<in> S" and "root \<in> S"
  shows "(child m)\<^sup>* `` {root} \<subseteq> S"
proof
  fix x assume "x \<in> (child m)\<^sup>* `` {root}"
  then have "(root, x) \<in> (child m)\<^sup>*" by simp
  then show "x \<in> S" by induction (use assms in \<open>auto simp: child_def\<close>)
qed

lemma desc_loop_descendants:
  assumes "\<And>k. set (ord k) = set m"
  shows "\<exists>out. desc_loop ord (Suc (length m)) 0 ([root], []) = Some out \<and> distinct out
    \<and> set out = (child m)\<^sup>+ `` {root} - {root}"
proof -
  have "desc_inv m root ([root], [])" by (simp add: desc_inv_def)
  then obtain seen out where r: "desc_loop ord (Suc (length m)) 0 ([root], []) = Some out" "desc_inv m root (seen, out)"
      "\<forall>(pid, parent) \<in> set m. parent \<in> set seen \<longrightarrow> pid \<in> set seen"
    using desc_loop_fixed [where ord = ord and m = m and root = root and seen = "[root]" and out = "[]"
        and fuel = "Suc (length m)" and k = 0] assms by auto
  have "(child m)\<^sup>* `` {root} \<subseteq> set seen"
    using closed_reach [OF r(3)] r(2) by (auto simp: desc_inv_def)
  moreover have "(child m)\<^sup>+ `` {root} \<subseteq> (child m)\<^sup>* `` {root}" by (auto intro: trancl_into_rtrancl)
  ultimately have "(child m)\<^sup>+ `` {root} - {root} \<subseteq> set out"
    using r(2) by (auto simp: desc_inv_def)
  then show ?thesis using r(1,2) by (auto simp: desc_inv_def)
qed

text \<open>
  C35. \<open>descendantPIDs\<close> finds exactly the proper descendants of the process in the parent
  relation it read, each once, in whatever order the map is iterated at each pass; the loop
  ends within as many passes as there are processes and one more.
\<close>

theorem descendantPIDs_are_the_descendants:
  assumes "pt_entries P = Inr names" and "\<And>m k. set (ord m k) = set m"
  shows "distinct (descendantPIDs P ord root)
    \<and> set (descendantPIDs P ord root) = (child (ppid_map P names []))\<^sup>+ `` {root} - {root}
    \<and> desc_loop (ord (ppid_map P names [])) (Suc (length (ppid_map P names []))) 0 ([root], []) \<noteq> None"
  using desc_loop_descendants [where ord = "ord (ppid_map P names [])" and m = "ppid_map P names []" and root = root] assms(2)
  by (auto simp: descendantPIDs_def assms(1) Let_def)

definition sample_procs :: proc_table where
  "sample_procs = \<lparr>pt_entries = Inr [''1'', ''7'', ''self'', ''8''],
     pt_stat = (\<lambda>pid. if pid = 7 then Inr ''7 (a b) S 1 0'' else if pid = 8 then Inr ''8 (x) y) R 7 0'' else Inr ''1 (init) S 0 0'')\<rparr>"

lemma sample_ppid: "ppid_map sample_procs [''1'', ''7'', ''self'', ''8''] [] = [(8, 7), (7, 1), (1, 0)]"
proof -
  have a: "atoi ''1'' = Some 1" "atoi ''7'' = Some 7" "atoi ''8'' = Some 8" "atoi ''0'' = Some 0" by code_simp+
  have n: "atoi ''self'' = None" by (simp add: atoi_def all_digits_def char_class_defs)
  have c: "cut_last CHR '')'' ''7 (a b) S 1 0'' = Some (''7 (a b'', '' S 1 0'')"
    "cut_last CHR '')'' ''8 (x) y) R 7 0'' = Some (''8 (x) y'', '' R 7 0'')"
    "cut_last CHR '')'' ''1 (init) S 0 0'' = Some (''1 (init'', '' S 0 0'')" by code_simp+
  have f: "strings_fields '' S 1 0'' = [''S'', ''1'', ''0'']" "strings_fields '' R 7 0'' = [''R'', ''7'', ''0'']"
    "strings_fields '' S 0 0'' = [''S'', ''0'', ''0'']" by code_simp+
  have s: "pt_stat sample_procs 1 = Inr ''1 (init) S 0 0''" "pt_stat sample_procs 7 = Inr ''7 (a b) S 1 0''"
    "pt_stat sample_procs 8 = Inr ''8 (x) y) R 7 0''" by (simp_all add: sample_procs_def)
  show ?thesis by (simp add: a n procPPid_def s c f al_put_def al_del_def)
qed

theorem descendantPIDs_are_the_descendants_witness:
  "descendantPIDs sample_procs (\<lambda>m k. rev m) 1 = [7, 8]
   \<and> {7, 8} = (child [(8, 7), (7, 1), (1, 0)])\<^sup>+ `` {1} - {1}"
proof -
  have e: "pt_entries sample_procs = Inr [''1'', ''7'', ''self'', ''8'']" by (simp add: sample_procs_def)
  have "descendantPIDs sample_procs (\<lambda>m k. rev m) 1 = [7, 8]"
    unfolding descendantPIDs_def e sum.case sample_ppid by simp
  then show ?thesis
    using descendantPIDs_are_the_descendants [OF e, of "\<lambda>m k. rev m" 1] unfolding sample_ppid by simp
qed

section \<open>The parent of a process\<close>

lemma at_space_plain: "0x20 < byte c \<Longrightarrow> byte c < 0x80 \<Longrightarrow> \<not> at_space (c # cs)"
proof
  assume c: "0x20 < byte c" "byte c < 0x80" and "at_space (c # cs)"
  then obtain p where p: "p \<in> set space_encodings" "prefix p (c # cs)" by (auto simp: at_space_def list_ex_iff)
  then obtain x xs where "p = x # xs" using space_encodings_nonempty [OF p(1)] by (meson list.exhaust)
  then have "hd p = c" using p(2) by simp
  with c space_encoding_ends(1) [OF p(1)] show False by simp
qed

lemma at_space_blank: "at_space (CHR '' '' # cs)"
  by (simp add: at_space_def space_encodings_def)

lemma trim_left_blank: "trim_left_space (CHR '' '' # s) = trim_left_space s"
proof -
  have "find (\<lambda>p. p \<noteq> [] \<and> prefix p (CHR '' '' # s)) space_encodings = Some [CHR 0x20]"
    by (simp add: space_encodings_def)
  then show ?thesis by (simp add: trim_left_space_def strip.simps [of _ "CHR '' '' # s"])
qed

lemma trim_left_plain: "0x20 < byte c \<Longrightarrow> byte c < 0x80 \<Longrightarrow> trim_left_space (c # cs) = c # cs"
  using at_space_plain at_space_strip by blast

lemma next_word_plain:
  "\<forall>c \<in> set w. 0x20 < byte c \<and> byte c < 0x80 \<Longrightarrow> next_word (w @ CHR '' '' # r) = (w, CHR '' '' # r)"
  by (induction w) (auto simp: at_space_plain at_space_blank)

lemma strings_fields_word:
  assumes "\<forall>c \<in> set w. 0x20 < byte c \<and> byte c < 0x80" and "w \<noteq> []"
  shows "strings_fields (CHR '' '' # w @ CHR '' '' # r) = w # strings_fields (CHR '' '' # r)"
proof -
  have "trim_left_space (CHR '' '' # w @ CHR '' '' # r) = w @ CHR '' '' # r"
    using assms trim_left_plain by (cases w) (auto simp: trim_left_blank)
  then show ?thesis
    using next_word_plain [OF assms(1)] assms(2)
    by (subst strings_fields.simps) simp
qed

text \<open>
  Whatever the command name is, blanks and closing parentheses included, the parent is
  read back from the line the kernel writes, as long as no closing parenthesis follows.
\<close>

theorem procPPid_reads_any_command:
  assumes "pt_stat P pid = Inr (int_dec pid @ '' ('' @ comm @ '') '' @ [st] @ '' '' @ nat_dec ppid @ '' '' @ rest)"
    and "CHR '')'' \<notin> set rest" and "alnum (byte st)" and "ppid < 2 ^ 63"
  shows "procPPid P pid = Inr (int ppid)"
proof -
  let ?tail = "CHR '' '' # [st] @ CHR '' '' # nat_dec ppid @ CHR '' '' # rest"
  have plain: "alnum b \<Longrightarrow> 0x20 < b \<and> b < 0x80" for b by (auto simp: char_class_defs)
  have digits: "\<forall>c \<in> set (nat_dec ppid). alnum (byte c)" using nat_dec_digits by (auto simp: alnum_def)
  have "CHR '')'' \<notin> set ?tail"
    using assms(2,3) digits by (auto simp: char_class_defs)
  then have "cut_last CHR '')'' ((int_dec pid @ '' ('' @ comm) @ CHR '')'' # ?tail) = Some (int_dec pid @ '' ('' @ comm, ?tail)"
    by (rule cut_last_append)
  then have c: "cut_last CHR '')'' (int_dec pid @ '' ('' @ comm @ '') '' @ [st] @ '' '' @ nat_dec ppid @ '' '' @ rest)
      = Some (int_dec pid @ '' ('' @ comm, ?tail)" by simp
  have "strings_fields ?tail = [st] # nat_dec ppid # strings_fields (CHR '' '' # rest)"
    using strings_fields_word [of "[st]" "nat_dec ppid @ CHR '' '' # rest"] plain [OF assms(3)]
      strings_fields_word [of "nat_dec ppid" rest] digits plain by simp
  then show ?thesis
    unfolding procPPid_def assms(1) sum.case c option.case prod.case by (simp add: atoi_nat_dec [OF assms(4)])
qed

theorem procPPid_reads_any_command_witness:
  "procPPid \<lparr>pt_entries = Inr [], pt_stat = \<lambda>_. Inr (int_dec 8 @ '' ('' @ ''x) y (z'' @ '') '' @ ''R'' @ '' '' @ nat_dec 7 @ '' '' @ ''0 0'')\<rparr> 8
     = Inr 7"
  using procPPid_reads_any_command [of _ 8 "''x) y (z''" "CHR ''R''" 7 "''0 0''"] by (simp add: char_class_defs)

section \<open>Attaching\<close>

lemma sanitizeID_chars: "\<forall>c \<in> set (sanitizeID vid). alnum (byte c) \<or> byte c = 45 \<or> byte c = 95" "sanitizeID vid \<noteq> []"
proof -
  let ?f = "\<lambda>r. if alnum r \<or> r = 45 \<or> r = 95 then encode_rune r else ''_''"
  have one: "\<forall>c \<in> set (?f r). alnum (byte c) \<or> byte c = 45 \<or> byte c = 95" for r
    using alnum_ascii [of r] by auto
  have vm: "\<forall>c \<in> set ''vm''. alnum (byte c) \<or> byte c = 45 \<or> byte c = 95" by (simp add: char_class_defs)
  define b where "b = concat (map ?f (runes vid))"
  have "\<forall>c \<in> set b. alnum (byte c) \<or> byte c = 45 \<or> byte c = 95"
    unfolding b_def set_concat set_map using one by blast
  then show "\<forall>c \<in> set (sanitizeID vid). alnum (byte c) \<or> byte c = 45 \<or> byte c = 95"
    unfolding sanitizeID_def Let_def b_def [symmetric] using vm by (simp split: if_split)
  show "sanitizeID vid \<noteq> []" by (simp add: sanitizeID_def Let_def)
qed

lemma group_name: "path_name (''warden-'' @ sanitizeID vid)"
proof -
  have w: "CHR ''/'' \<notin> set ''warden-''" by simp
  have "CHR ''/'' \<notin> set (sanitizeID vid)"
    using sanitizeID_chars(1) [of vid] by (fastforce simp: char_class_defs)
  then show ?thesis using w unfolding path_name_def set_append by simp
qed

lemma writeCgroup_ok:
  "writeCgroup dir file v s = (s', None) \<Longrightarrow> fs_tree s' = (fs_tree s)(path_clean (path_join [dir, file]) \<mapsto> File (v @ [CHR 0x0A]))"
  using os_WriteFile_ok by (auto simp: writeCgroup_def)

lemma writeCgroup_frame:
  "q \<noteq> path_clean (path_join [dir, file]) \<Longrightarrow> fs_tree (fst (writeCgroup dir file v s)) q = fs_tree s q"
  using os_WriteFile_frame [OF surjective_pairing] by (simp add: writeCgroup_def)

lemma move_loop_frame:
  "q \<noteq> path_clean (path_join [dir, ''cgroup.procs'']) \<Longrightarrow> fs_tree (fst (move_loop dir ps n e s)) q = fs_tree s q"
proof (induction dir ps n e s rule: move_loop.induct)
  case (2 dir pid ps n e s)
  obtain s1 r where w: "writeCgroup dir ''cgroup.procs'' (int_dec pid) s = (s1, r)" by fastforce
  have "fs_tree s1 q = fs_tree s q" using writeCgroup_frame [OF 2(3), of "int_dec pid" s] w by simp
  with 2 w show ?case by (cases r) auto
qed simp

lemma moveProcs_frame:
  "q \<noteq> path_clean (path_join [dir, ''cgroup.procs'']) \<Longrightarrow> fs_tree (fst (moveProcs dir ps s)) q = fs_tree s q"
  using move_loop_frame [of q dir ps 0 None s] by (cases "move_loop dir ps 0 None s") (simp add: moveProcs_def)

lemma move_loop_count: "n \<le> fst (snd (move_loop dir ps n e s))"
proof (induction dir ps n e s rule: move_loop.induct)
  case (2 dir pid ps n e s)
  obtain s1 r where w: "writeCgroup dir ''cgroup.procs'' (int_dec pid) s = (s1, r)" by fastforce
  with 2 show ?case by (cases r) (auto intro: Suc_leD)
qed simp

lemma path_clean_nonempty: "path_clean s \<noteq> []"
proof -
  obtain r cs where p: "path_parts s = (r, cs)" by fastforce
  have "c \<noteq> []" if "c \<in> set cs" for c
    using normal_parts_no_sep [OF path_parts_normal, of c s] that p by simp
  then have "\<not> r \<Longrightarrow> cs \<noteq> [] \<Longrightarrow> join_with ''/'' cs \<noteq> []"
    by (cases cs; cases "tl cs") auto
  then show ?thesis by (auto simp: path_clean_def p)
qed

lemma group_dir_nonempty: "group_dir parent vid \<noteq> []"
  using path_clean_nonempty by (auto simp: group_dir_def path_join_def split: list.split)

lemma group_file_inject:
  "path_name f \<Longrightarrow> path_name g \<Longrightarrow> d = group_dir parent vid \<Longrightarrow>
     path_clean (path_join [d, f]) = path_clean (path_join [d, g]) \<longleftrightarrow> f = g"
  using path_clean_join path_join_inject group_dir_nonempty by metis

lemma write_limits_ok:
  assumes "write_limits d ls s = (s', None)" and "distinct (map fst ls)" and "\<forall>l \<in> set ls. path_name (fst l)"
    and d: "d = group_dir parent vid"
  shows "\<forall>(f, v) \<in> set ls. fs_tree s' (path_clean (path_join [d, f])) = Some (File (v @ [CHR 0x0A]))"
    and "\<And>q. (\<forall>l \<in> set ls. q \<noteq> path_clean (path_join [d, fst l])) \<Longrightarrow> fs_tree s' q = fs_tree s q"
proof -
  have "(\<forall>(f, v) \<in> set ls. fs_tree s' (path_clean (path_join [d, f])) = Some (File (v @ [CHR 0x0A])))
    \<and> (\<forall>q. (\<forall>l \<in> set ls. q \<noteq> path_clean (path_join [d, fst l])) \<longrightarrow> fs_tree s' q = fs_tree s q)"
    using assms(1-3)
  proof (induction ls arbitrary: s)
    case (Cons l ls)
    obtain f v where l: "l = (f, v)" by fastforce
    obtain s1 where w: "writeCgroup d f v s = (s1, None)" "write_limits d ls s1 = (s', None)"
      using Cons.prems(1) l by (auto split: prod.splits option.splits)
    note t = writeCgroup_ok [OF w(1)]
    have IH: "\<forall>(f, v) \<in> set ls. fs_tree s' (path_clean (path_join [d, f])) = Some (File (v @ [CHR 0x0A]))"
      "\<And>q. (\<forall>l \<in> set ls. q \<noteq> path_clean (path_join [d, fst l])) \<Longrightarrow> fs_tree s' q = fs_tree s1 q"
      using Cons.IH [OF w(2)] Cons.prems(2,3) by auto
    have "\<forall>l \<in> set ls. path_clean (path_join [d, f]) \<noteq> path_clean (path_join [d, fst l])"
      using group_file_inject [OF _ _ d] Cons.prems(2,3) l by (metis fst_conv distinct.simps(2) image_eqI list.set_intros list.simps(9) set_map)
    then have "fs_tree s' (path_clean (path_join [d, f])) = Some (File (v @ [CHR 0x0A]))"
      using IH(2) t by simp
    moreover have "fs_tree s' q = fs_tree s q"
      if "q \<noteq> path_clean (path_join [d, f])" "\<forall>l \<in> set ls. q \<noteq> path_clean (path_join [d, fst l])" for q
      using IH(2) [OF that(2)] t that(1) by simp
    ultimately show ?case using IH(1) l by auto
  qed simp
  then show "\<forall>(f, v) \<in> set ls. fs_tree s' (path_clean (path_join [d, f])) = Some (File (v @ [CHR 0x0A]))"
    "\<And>q. (\<forall>l \<in> set ls. q \<noteq> path_clean (path_join [d, fst l])) \<Longrightarrow> fs_tree s' q = fs_tree s q" by blast+
qed

lemma limit_names:
  "distinct (map fst (required_limits p))" "\<forall>l \<in> set (required_limits p). path_name (fst l)"
  "path_name ''memory.swap.max''" "path_name ''memory.oom.group''" "path_name ''cgroup.procs''"
  by (simp_all add: required_limits_def path_name_def)

text \<open>
  C24. When the limits are required, \<open>Attach\<close> succeeds only with them in force: the profile is
  enforceable, the group of the VM holds exactly its memory, cpu and pids limit, and the
  cleanup returned is the removal of that group.
\<close>

theorem Attach_enforces_limits:
  assumes "Attach c descendants vid pid p s = (s', Inr cl)" and "cg_Require c"
  shows "\<exists>parent dir. dir = group_dir parent vid \<and> cl = RemoveGroup parent dir pid
    \<and> enforceable p
    \<and> fs_tree s' (path_clean (path_join [dir, ''memory.max''])) = Some (File (int_dec (MemoryBytes p) @ [CHR 0x0A]))
    \<and> fs_tree s' (path_clean (path_join [dir, ''cpu.max''])) =
        Some (File (int_dec (CPUQuotaUs p) @ '' '' @ int_dec (CPUPeriodUs p) @ [CHR 0x0A]))
    \<and> fs_tree s' (path_clean (path_join [dir, ''pids.max''])) = Some (File (int_dec (PIDsMax p) @ [CHR 0x0A]))"
proof -
  have v: "Profile_Validate p = None"
    using assms(1) by (auto simp: Attach_def split: option.splits)
  obtain s1 parent where cur: "currentCgroupDir (if cg_Root c = [] then ''/sys/fs/cgroup'' else cg_Root c) (cg_Self c) s = (s1, Inr parent)"
    using assms by (auto simp: Attach_def v Let_def missing_def split: prod.splits sum.splits)
  define d where "d = group_dir parent vid"
  obtain s2 mk where mk: "os_Mkdir d s1 = (s2, mk)" by fastforce
  have mk_ok: "\<not> (case mk of None \<Rightarrow> False | Some e \<Rightarrow> \<not> IsExist e)"
    using assms by (auto simp: Attach_def v Let_def cur d_def [symmetric] mk missing_def split: if_splits)
  obtain s3 where lim: "write_limits d (required_limits p) s2 = (s3, None)"
    using assms mk_ok
    by (auto simp: Attach_def v Let_def cur d_def [symmetric] mk missing_def simp del: write_limits.simps
        split: if_splits prod.splits option.splits)
  define s5 where "s5 = fst (writeCgroup d ''memory.oom.group'' ''1'' (fst (writeCgroup d ''memory.swap.max'' ''0'' s3)))"
  have mv: "moveProcs d (pid # descendants pid) s5 = (s', None)" and cl: "cl = RemoveGroup parent d pid"
    using assms mk_ok
    by (auto simp: Attach_def v Let_def cur d_def [symmetric] mk lim missing_def s5_def [symmetric]
        split: if_splits prod.splits option.splits)
  have keep: "fs_tree s' (path_clean (path_join [d, f])) = fs_tree s3 (path_clean (path_join [d, f]))"
    if "f \<in> {''memory.max'', ''cpu.max'', ''pids.max''}" for f
  proof -
    have n: "path_name f" "f \<noteq> ''memory.swap.max''" "f \<noteq> ''memory.oom.group''" "f \<noteq> ''cgroup.procs''"
      using that by (auto simp: path_name_def)
    note inj = group_file_inject [OF n(1) _ d_def]
    have "fs_tree s' (path_clean (path_join [d, f])) = fs_tree s5 (path_clean (path_join [d, f]))"
      using moveProcs_frame [of _ d "pid # descendants pid" s5] inj [OF limit_names(5)] n(4) mv by (metis fst_conv)
    then show ?thesis
      using inj [OF limit_names(3)] inj [OF limit_names(4)] n(2,3) by (simp add: s5_def writeCgroup_frame)
  qed
  have "\<forall>(f, v) \<in> set (required_limits p). fs_tree s3 (path_clean (path_join [d, f])) = Some (File (v @ [CHR 0x0A]))"
    by (rule write_limits_ok(1) [OF lim limit_names(1,2) d_def])
  then show ?thesis
    using keep cl v by (intro exI [of _ parent] exI [of _ d]) (simp add: required_limits_def d_def validate_iff)
qed

definition cgroup_sample :: cgroup_v2 where
  "cgroup_sample = \<lparr>cg_Require = True, cg_Root = ''/c'', cg_Self = ''/s''\<rparr>"

definition cgroup_fs :: fs where
  "cgroup_fs = \<lparr>fs_tree = [''/c'' \<mapsto> Dir, ''/s'' \<mapsto> File ''0::/''], fs_fault = (\<lambda>_. None), fs_count = 0, fs_gone = \<lambda>_ _. False\<rparr>"

lemma cgroup_paths:
  "group_dir ''/c'' ''a'' = ''/c/warden-a''" "path_clean ''/s'' = ''/s''" "path_clean ''/c/warden-a'' = ''/c/warden-a''"
  "path_dir ''/c/warden-a'' = ''/c''"
proof -
  have "sanitizeID ''a'' = ''a''"
    by (simp add: sanitizeID_def runes_ascii char_class_defs of_char_def char_of_def bit_0)
  moreover have "path_join [''/c'', ''warden-'' @ ''a''] = ''/c/warden-a''" by code_simp
  ultimately show "group_dir ''/c'' ''a'' = ''/c/warden-a''" by (simp only: group_dir_def)
  show "path_clean ''/s'' = ''/s''" "path_clean ''/c/warden-a'' = ''/c/warden-a''" "path_dir ''/c/warden-a'' = ''/c''"
    by code_simp+
qed

lemma tick_fault: "fs_fault (tick s) = fs_fault s"
  by (simp add: tick_def)

lemma put_fault: "fs_fault (put p n s) = fs_fault s"
  by (simp add: put_def)

lemma cgroup_files:
  "path_join [''/c/warden-a'', ''memory.max''] = ''/c/warden-a/memory.max''" "path_clean ''/c/warden-a/memory.max'' = ''/c/warden-a/memory.max''"
  "path_dir ''/c/warden-a/memory.max'' = ''/c/warden-a''"
  "path_join [''/c/warden-a'', ''cpu.max''] = ''/c/warden-a/cpu.max''" "path_clean ''/c/warden-a/cpu.max'' = ''/c/warden-a/cpu.max''"
  "path_dir ''/c/warden-a/cpu.max'' = ''/c/warden-a''"
  "path_join [''/c/warden-a'', ''pids.max''] = ''/c/warden-a/pids.max''" "path_clean ''/c/warden-a/pids.max'' = ''/c/warden-a/pids.max''"
  "path_dir ''/c/warden-a/pids.max'' = ''/c/warden-a''"
  "path_join [''/c/warden-a'', ''memory.swap.max''] = ''/c/warden-a/memory.swap.max''" "path_clean ''/c/warden-a/memory.swap.max'' = ''/c/warden-a/memory.swap.max''"
  "path_dir ''/c/warden-a/memory.swap.max'' = ''/c/warden-a''"
  "path_join [''/c/warden-a'', ''memory.oom.group''] = ''/c/warden-a/memory.oom.group''" "path_clean ''/c/warden-a/memory.oom.group'' = ''/c/warden-a/memory.oom.group''"
  "path_dir ''/c/warden-a/memory.oom.group'' = ''/c/warden-a''"
  "path_join [''/c/warden-a'', ''cgroup.procs''] = ''/c/warden-a/cgroup.procs''" "path_clean ''/c/warden-a/cgroup.procs'' = ''/c/warden-a/cgroup.procs''"
  "path_dir ''/c/warden-a/cgroup.procs'' = ''/c/warden-a''"
  by code_simp+

lemma cgroup_line_sample: "cgroup_line ''/c'' (split_on (CHR 0x0A) ''0::/'') = Some ''/c''"
  by code_simp

lemma writeCgroup_sample:
  "path_join [''/c/warden-a'', f] = q \<Longrightarrow> path_clean q = q \<Longrightarrow> path_dir q = ''/c/warden-a'' \<Longrightarrow>
   fs_tree s ''/c/warden-a'' = Some Dir \<Longrightarrow> fs_fault s = (\<lambda>_. None) \<Longrightarrow> fs_tree s q = None \<Longrightarrow>
   writeCgroup ''/c/warden-a'' f v s = (put q (File (v @ [CHR 0x0A])) (tick s), None)"
  by (simp only: writeCgroup_def os_WriteFile_def parent_ok_def fault_now_def) simp

lemma Attach_sample: "\<exists>s'. Attach cgroup_sample (\<lambda>_. []) ''a'' 1 DefaultProfile cgroup_fs = (s', Inr (RemoveGroup ''/c'' ''/c/warden-a'' 1))"
proof -
  have v: "Profile_Validate DefaultProfile = None" by (simp add: Profile_Validate_def DefaultProfile_def)
  have f: "fs_tree cgroup_fs = [''/c'' \<mapsto> Dir, ''/s'' \<mapsto> File ''0::/'']" "fs_fault cgroup_fs = (\<lambda>_. None)"
    by (simp_all add: cgroup_fs_def)
  have cur: "currentCgroupDir ''/c'' ''/s'' cgroup_fs = (tick cgroup_fs, Inr ''/c'')"
    using cgroup_line_sample
    by (simp add: currentCgroupDir_def os_ReadFile_def fault_now_def f cgroup_paths del: cgroup_line.simps)
  define s2 where "s2 = put ''/c/warden-a'' Dir (tick (tick cgroup_fs))"
  have mk: "os_Mkdir ''/c/warden-a'' (tick cgroup_fs) = (s2, None)"
    by (simp add: os_Mkdir_def fault_now_def f cgroup_paths parent_ok_def s2_def tick_fault)
  have t2: "fs_tree s2 = [''/c'' \<mapsto> Dir, ''/s'' \<mapsto> File ''0::/'', ''/c/warden-a'' \<mapsto> Dir]" "fs_fault s2 = (\<lambda>_. None)"
    by (simp_all add: s2_def f put_fault tick_fault)
  note w = writeCgroup_sample [OF cgroup_files(1-3)] writeCgroup_sample [OF cgroup_files(4-6)]
    writeCgroup_sample [OF cgroup_files(7-9)] writeCgroup_sample [OF cgroup_files(10-12)]
    writeCgroup_sample [OF cgroup_files(13-15)] writeCgroup_sample [OF cgroup_files(16-18)]
  have "\<exists>s3. write_limits ''/c/warden-a'' (required_limits DefaultProfile) s2 = (s3, None) \<and> fs_fault s3 = (\<lambda>_. None)
      \<and> fs_tree s3 ''/c/warden-a'' = Some Dir \<and> fs_tree s3 ''/c/warden-a/memory.swap.max'' = None
      \<and> fs_tree s3 ''/c/warden-a/memory.oom.group'' = None \<and> fs_tree s3 ''/c/warden-a/cgroup.procs'' = None"
    by (simp add: required_limits_def w t2 put_fault tick_fault)
  then obtain s3 where l: "write_limits ''/c/warden-a'' (required_limits DefaultProfile) s2 = (s3, None)"
    and t3: "fs_fault s3 = (\<lambda>_. None)" "fs_tree s3 ''/c/warden-a'' = Some Dir" "fs_tree s3 ''/c/warden-a/memory.swap.max'' = None"
      "fs_tree s3 ''/c/warden-a/memory.oom.group'' = None" "fs_tree s3 ''/c/warden-a/cgroup.procs'' = None" by blast
  have c: "cg_Root cgroup_sample = ''/c''" "cg_Self cgroup_sample = ''/s''" by (simp_all add: cgroup_sample_def)
  show ?thesis
    by (simp add: Attach_def v c Let_def cur mk cgroup_paths l w t3 put_fault tick_fault moveProcs_def)
qed

theorem Attach_enforces_limits_witness:
  "\<exists>s'. Attach cgroup_sample (\<lambda>_. []) ''a'' 1 DefaultProfile cgroup_fs = (s', Inr (RemoveGroup ''/c'' ''/c/warden-a'' 1))
    \<and> fs_tree s' (path_clean (path_join [''/c/warden-a'', ''pids.max''])) = Some (File (int_dec (PIDsMax DefaultProfile) @ [CHR 0x0A]))"
proof -
  obtain s' where a: "Attach cgroup_sample (\<lambda>_. []) ''a'' 1 DefaultProfile cgroup_fs = (s', Inr (RemoveGroup ''/c'' ''/c/warden-a'' 1))"
    using Attach_sample by blast
  have "cg_Require cgroup_sample" by (simp add: cgroup_sample_def)
  from Attach_enforces_limits [OF a this] a show ?thesis by (intro exI [of _ s']) (auto simp del: append_Cons)
qed

end
