(* ===== verification/Runtime_Stub.thy ===== *)
theory Runtime_Stub
  imports Runtime_Iface "HOL-Library.Word"
begin

text \<open>
  Package \<open>internal/runtime\<close>, file \<open>stub.go\<close>: the stub backend. Its state is the heap of
  instances, the 64-bit counter and the clock; a handle is the position of an instance in the
  heap. Interprets \<open>vm_runtime\<close>.
\<close>

section \<open>The backend\<close>

record stub_instance =
  si_id :: string
  si_spec :: spec
  si_dead :: bool

record stub =
  st_seq :: "64 word"
  st_heap :: "stub_instance list"
  st_now :: int

definition NewStub :: "int \<Rightarrow> stub" where
  "NewStub now = \<lparr>st_seq = 0, st_heap = [], st_now = now\<rparr>"

definition Stub_Boot :: "context_t \<Rightarrow> spec \<Rightarrow> stub \<Rightarrow> stub \<times> nat res call" where
  "Stub_Boot ctx sp s =
     (if \<not> Supported (sp_Language sp) then
        (s, Ret (Inl (Errorf ''unsupported runtime %q'' [sp_Language sp])))
      else case Profile_Validate (sp_Limits sp) of
          Some e \<Rightarrow> (s, Ret (Inl (Wrapf ''boot stub: %w'' [] e)))
        | None \<Rightarrow>
            let n = st_seq s + 1;
                inst = \<lparr>si_id = ''stub-'' @ nat_dec (unat n), si_spec = sp, si_dead = False\<rparr>
            in (s\<lparr>st_seq := n, st_heap := st_heap s @ [inst]\<rparr>, Ret (Inr (length (st_heap s)))))"

definition Stub_ID :: "nat \<Rightarrow> stub \<Rightarrow> string" where
  "Stub_ID i s = si_id (st_heap s ! i)"

text \<open>
  \<open>time.Duration.String\<close> is the parameter \<open>dur\<close>; the text of a context error is
  \<open>err_text\<close>.
\<close>

definition stub_stdout :: "(int \<Rightarrow> string) \<Rightarrow> stub_instance \<Rightarrow> exec_request \<Rightarrow> string" where
  "stub_stdout dur inst req =
     ''[warden-stub] vm='' @ si_id inst @ '' language='' @ sp_Language (si_spec inst)
     @ '' session='' @ sp_SessionID (si_spec inst) @ '' bytes='' @ nat_dec (length (xr_Code req))
     @ '' timeout='' @ dur (xr_Timeout req) @ [CHR 0x0A]
     @ ''[warden-stub] guest code was NOT executed; Firecracker is not wired yet'' @ [CHR 0x0A]"

definition Stub_Execute :: "(int \<Rightarrow> string) \<Rightarrow> (gerr \<Rightarrow> string) \<Rightarrow> context_t \<Rightarrow> nat \<Rightarrow> exec_request \<Rightarrow> stub \<Rightarrow>
    stub \<times> (exec_result \<times> gerr option) call" where
  "Stub_Execute dur err_text ctx i req0 s =
     (if length (st_heap s) \<le> i then (s, Panic ''nil instance'')
      else
        let inst = st_heap s ! i in
        if si_dead inst then
          (s, Ret (zero_result, Some (Errorf ''vm %s already destroyed'' [si_id inst])))
        else
          let req = (if xr_Timeout req0 \<le> 0 then req0\<lparr>xr_Timeout := 30 * 10 ^ 9\<rparr> else req0) in
          case ctx_err (st_now s) ctx of
            Some e \<Rightarrow> (s, Ret (zero_result\<lparr>rs_VMID := si_id inst, rs_Stderr := err_text e,
                                        rs_ExitCode := -1, rs_TimedOut := True\<rparr>, None))
          | None \<Rightarrow> (s, Ret (\<lparr>rs_Stdout = stub_stdout dur inst req, rs_Stderr = [], rs_ExitCode = 0,
                            rs_VMID = si_id inst, rs_TimedOut = False\<rparr>, None)))"

definition Stub_Destroy :: "context_t \<Rightarrow> nat \<Rightarrow> stub \<Rightarrow> stub \<times> gerr option" where
  "Stub_Destroy ctx i s =
     (if length (st_heap s) \<le> i then (s, Some (Errorf ''nil instance'' []))
      else
        let inst = st_heap s ! i in
        if si_dead inst then (s, Some (Errorf ''vm %s already destroyed'' [si_id inst]))
        else (s\<lparr>st_heap := (st_heap s)[i := inst\<lparr>si_dead := True\<rparr>]\<rparr>, None))"

definition stub_ops :: "(int \<Rightarrow> string) \<Rightarrow> (gerr \<Rightarrow> string) \<Rightarrow> (stub, nat) runtime_ops" where
  "stub_ops dur err_text = \<lparr>rt_Name = ''stub'', rt_Boot = Stub_Boot, rt_ID = Stub_ID,
     rt_Execute = Stub_Execute dur err_text, rt_Destroy = Stub_Destroy,
     rt_Ready = Some (\<lambda>_. None), rt_now = st_now\<rparr>"

section \<open>Facts\<close>

definition stub_live :: "stub \<Rightarrow> nat set" where
  "stub_live s = {i. i < length (st_heap s) \<and> \<not> si_dead (st_heap s ! i)}"

definition stub_inv :: "stub \<Rightarrow> bool" where
  "stub_inv s = (st_seq s = of_nat (length (st_heap s))
     \<and> list_all2 (\<lambda>n inst. si_id inst = ''stub-'' @ nat_dec (unat (of_nat (Suc n) :: 64 word)))
         [0..<length (st_heap s)] (st_heap s))"

lemma stub_inv_New: "stub_inv (NewStub now)"
  by (simp add: stub_inv_def NewStub_def)

lemma stub_inv_nth:
  "stub_inv s \<Longrightarrow> i < length (st_heap s) \<Longrightarrow>
     si_id (st_heap s ! i) = ''stub-'' @ nat_dec (unat (of_nat (Suc i) :: 64 word))"
  by (auto simp: stub_inv_def list_all2_conv_all_nth)

lemma Stub_Boot_Inr:
  assumes "Stub_Boot c sp s = (s', Ret (Inr i))"
  shows "i = length (st_heap s)" "st_seq s' = st_seq s + 1" "st_now s' = st_now s"
    "st_heap s' = st_heap s @ [\<lparr>si_id = ''stub-'' @ nat_dec (unat (st_seq s + 1)), si_spec = sp, si_dead = False\<rparr>]"
    "Supported (sp_Language sp)" "enforceable (sp_Limits sp)"
  using assms by (auto simp: Stub_Boot_def Let_def validate_iff split: if_splits option.splits)

lemma Stub_Boot_fail: "Stub_Boot c sp s = (s', x) \<Longrightarrow> \<forall>i. x \<noteq> Ret (Inr i) \<Longrightarrow> s' = s"
  by (auto simp: Stub_Boot_def Let_def split: if_splits option.splits)

lemma fst_Stub_Execute [simp]: "fst (Stub_Execute dur et c i q s) = s"
  by (simp add: Stub_Execute_def Let_def split: option.split)

lemma stub_live_Destroy: "stub_live (fst (Stub_Destroy c i s)) = stub_live s - {i}"
  by (auto simp: stub_live_def Stub_Destroy_def Let_def nth_list_update)

lemma stub_inv_Boot: "stub_inv s \<Longrightarrow> stub_inv (fst (Stub_Boot c sp s))"
  by (auto simp: Stub_Boot_def Let_def stub_inv_def list_all2_append add.commute split: option.split)

lemma stub_inv_Destroy: "stub_inv s \<Longrightarrow> stub_inv (fst (Stub_Destroy c i s))"
  by (auto simp: Stub_Destroy_def Let_def stub_inv_def list_all2_conv_all_nth nth_list_update)

definition stub_known :: "stub \<Rightarrow> nat set" where
  "stub_known s = {..<length (st_heap s)}"

lemma stub_live_known: "stub_live s \<subseteq> stub_known s"
  by (auto simp: stub_live_def stub_known_def)

lemma stub_known_Destroy: "stub_known (fst (Stub_Destroy c i s)) = stub_known s"
  by (simp add: stub_known_def Stub_Destroy_def Let_def)

interpretation stub: vm_runtime "stub_ops dur et" stub_inv stub_known stub_live for dur et
proof unfold_locales
  fix r r' :: stub and c s i
  assume "rt_Boot (stub_ops dur et) c s r = (r', Ret (Inr i))"
  then have "Stub_Boot c s r = (r', Ret (Inr i))" by (simp add: stub_ops_def)
  note b = Stub_Boot_Inr [OF this]
  show "i \<notin> stub_known r \<and> stub_known r' = insert i (stub_known r) \<and> stub_live r' = insert i (stub_live r)"
    by (auto simp: stub_live_def stub_known_def b(1,4) nth_append less_Suc_eq)
next
  fix r r' :: stub and c s x
  assume "rt_Boot (stub_ops dur et) c s r = (r', x)" "\<forall>i. x \<noteq> Ret (Inr i)"
  then show "stub_known r' = stub_known r \<and> stub_live r' = stub_live r"
    using Stub_Boot_fail by (fastforce simp: stub_ops_def)
qed (simp_all add: stub_ops_def stub_inv_Boot stub_inv_Destroy stub_live_Destroy stub_known_Destroy
    stub_live_known)

section \<open>Properties\<close>

text \<open>
  The stub never looks at the code: with the same length and timeout, two programs get
  the same answer and leave the same state.
\<close>

theorem Stub_Execute_ignores_code:
  assumes "length (xr_Code q) = length (xr_Code q')" and "xr_Timeout q = xr_Timeout q'"
  shows "Stub_Execute dur et ctx i q s = Stub_Execute dur et ctx i q' s"
  using assms by (simp add: Stub_Execute_def stub_stdout_def Let_def split: option.split)

definition sample_spec :: spec where
  "sample_spec = \<lparr>sp_Language = ''python'', sp_SessionID = [], sp_Limits = DefaultProfile,
     sp_Seccomp = \<lparr>DefaultAction = ''SCMP_ACT_ERRNO'', Architectures = [],
       Syscalls = [\<lparr>sc_Action = ''SCMP_ACT_ALLOW'', sc_Names = [''read'']\<rparr>]\<rparr>,
     sp_Network = Default\<rparr>"

theorem Stub_Execute_ignores_code_witness:
  "fst (Stub_Boot Background sample_spec (NewStub 0)) \<noteq> NewStub 0
   \<and> Stub_Execute int_dec (\<lambda>_. []) Background 0 \<lparr>xr_Code = ''ab'', xr_Timeout = 5\<rparr>
       (fst (Stub_Boot Background sample_spec (NewStub 0)))
     = Stub_Execute int_dec (\<lambda>_. []) Background 0 \<lparr>xr_Code = ''xy'', xr_Timeout = 5\<rparr>
       (fst (Stub_Boot Background sample_spec (NewStub 0)))"
proof -
  have "fst (Stub_Boot Background sample_spec (NewStub 0)) \<noteq> NewStub 0"
    using enforceable_DefaultProfile
    by (simp add: Stub_Boot_def NewStub_def sample_spec_def Supported_def LangPython_def Let_def
        validate_iff [THEN iffD2])
  then show ?thesis
    using Stub_Execute_ignores_code [of "\<lparr>xr_Code = ''ab'', xr_Timeout = 5\<rparr>" "\<lparr>xr_Code = ''xy'', xr_Timeout = 5\<rparr>"]
    by simp
qed

text \<open>
  The life of a stub instance: a boot of a supported language under an enforceable
  profile always succeeds; the instance then answers, and once destroyed it answers neither
  \<open>Execute\<close> nor a second \<open>Destroy\<close>.
\<close>

theorem Stub_lifecycle:
  assumes "Supported (sp_Language sp)" and "enforceable (sp_Limits sp)"
  shows "\<exists>s1 i. Stub_Boot c sp s = (s1, Ret (Inr i)) \<and> i \<in> stub_live s1
     \<and> (\<exists>r. Stub_Execute dur et c1 i q s1 = (s1, Ret (r, None)) \<and> rs_VMID r = Stub_ID i s1)
     \<and> (\<exists>s2. Stub_Destroy c2 i s1 = (s2, None) \<and> stub_live s2 = stub_live s
          \<and> snd (Stub_Destroy c3 i s2) \<noteq> None
          \<and> Stub_Execute dur et c4 i q s2 =
              (s2, Ret (zero_result, Some (Errorf ''vm %s already destroyed'' [Stub_ID i s1]))))"
proof -
  define inst where "inst = \<lparr>si_id = ''stub-'' @ nat_dec (unat (st_seq s + 1)), si_spec = sp, si_dead = False\<rparr>"
  define s1 where "s1 = s\<lparr>st_seq := st_seq s + 1, st_heap := st_heap s @ [inst]\<rparr>"
  let ?i = "length (st_heap s)"
  have b: "Stub_Boot c sp s = (s1, Ret (Inr ?i))"
    using assms by (simp add: Stub_Boot_def s1_def inst_def Let_def validate_iff [THEN iffD2])
  have h: "st_heap s1 ! ?i = inst" "?i < length (st_heap s1)" by (simp_all add: s1_def)
  define s2 where "s2 = s1\<lparr>st_heap := (st_heap s1)[?i := inst\<lparr>si_dead := True\<rparr>]\<rparr>"
  have d: "Stub_Destroy c2 ?i s1 = (s2, None)"
    using h by (simp add: Stub_Destroy_def s2_def inst_def Let_def)
  have h2: "st_heap s2 ! ?i = inst\<lparr>si_dead := True\<rparr>" "?i < length (st_heap s2)"
    using h by (simp_all add: s2_def)
  have "stub_live s2 = stub_live s"
    by (auto simp: stub_live_def s2_def s1_def nth_append nth_list_update less_Suc_eq)
  moreover have "\<exists>r. Stub_Execute dur et c1 ?i q s1 = (s1, Ret (r, None)) \<and> rs_VMID r = Stub_ID ?i s1"
    using h by (simp add: Stub_Execute_def Stub_ID_def inst_def Let_def split: option.split)
  moreover have "?i \<in> stub_live s1" using h by (simp add: stub_live_def inst_def)
  ultimately show ?thesis using b d h h2
    by (intro exI [of _ s1] exI [of _ ?i])
      (simp add: Stub_Destroy_def Stub_Execute_def Stub_ID_def Let_def)
qed

theorem Stub_lifecycle_witness:
  "\<exists>s1 i. Stub_Boot Background sample_spec (NewStub 0) = (s1, Ret (Inr i)) \<and> i \<in> stub_live s1
     \<and> snd (Stub_Destroy Background i s1) = None"
  using Stub_lifecycle [of sample_spec Background "NewStub 0" int_dec "\<lambda>_. []" Background
      "\<lparr>xr_Code = [], xr_Timeout = 1\<rparr>" Background Background Background] enforceable_DefaultProfile
  by (force simp: sample_spec_def Supported_def LangPython_def)

end
