(* ===== verification/Runtime_Gate.thy ===== *)
theory Runtime_Gate
  imports Runtime_Stub
begin

text \<open>
  Package \<open>internal/runtime\<close>, file \<open>gate.go\<close>: a runtime with a bounded number of live
  instances. Two models of the same code. The functional one wraps any runtime and is used by
  the server: the outcome of the \<open>select\<close> is the parameter \<open>sel\<close>, a choice among the cases
  that are ready. The second is a step relation in which any number of callers run \<open>Boot\<close> and
  \<open>Destroy\<close> at once, interleaved at the operations on the channel; there the bound and the
  absence of lost slots are invariants of the reachable states.
\<close>

section \<open>The wrapper\<close>

text \<open>A lease pairs the inner instance with the state of its \<open>OnceFunc\<close>: fired or not.\<close>

record ('r, 'i) gate =
  ga_inner :: 'r
  ga_Max :: int
  ga_Wait :: int
  ga_sem :: nat
  ga_leases :: "('i \<times> bool) list"

definition NewGate :: "'r \<Rightarrow> int \<Rightarrow> int \<Rightarrow> ('r, 'i) gate" where
  "NewGate inner mx wait = \<lparr>ga_inner = inner, ga_Max = (if mx < 1 then 1 else mx),
     ga_Wait = (if wait \<le> 0 then 15 * 10 ^ 9 else wait), ga_sem = 0, ga_leases = []\<rparr>"

datatype select = Slot | CtxDone gerr | TimerFired

type_synonym ('r, 'i) chooser = "context_t \<Rightarrow> ('r, 'i) gate \<Rightarrow> select"

text \<open>A send on the channel is ready only while it has room.\<close>

definition fair_select :: "('r, 'i) chooser \<Rightarrow> bool" where
  "fair_select sel = (\<forall>c g. sel c g = Slot \<longrightarrow> int (ga_sem g) < ga_Max g)"

definition Gate_Boot :: "('r, 'i) runtime_ops \<Rightarrow> ('r, 'i) chooser \<Rightarrow> context_t \<Rightarrow> spec \<Rightarrow>
    ('r, 'i) gate \<Rightarrow> ('r, 'i) gate \<times> nat res call" where
  "Gate_Boot ops sel ctx sp g = (case sel ctx g of
       CtxDone e \<Rightarrow> (g, Ret (Inl e))
     | TimerFired \<Rightarrow> (g, Ret (Inl (Wrapf ''%w (max %d)'' [int_dec (ga_Max g)] ErrBusy)))
     | Slot \<Rightarrow>
         (let g1 = g\<lparr>ga_sem := Suc (ga_sem g)\<rparr> in
          case rt_Boot ops ctx sp (ga_inner g1) of
            (r, Panic m) \<Rightarrow> (g1\<lparr>ga_inner := r\<rparr>, Panic m)
          | (r, Ret (Inl e)) \<Rightarrow> (g1\<lparr>ga_inner := r, ga_sem := ga_sem g\<rparr>, Ret (Inl e))
          | (r, Ret (Inr i)) \<Rightarrow>
              (g1\<lparr>ga_inner := r, ga_leases := ga_leases g @ [(i, False)]\<rparr>, Ret (Inr (length (ga_leases g))))))"

definition Gate_Execute :: "('r, 'i) runtime_ops \<Rightarrow> context_t \<Rightarrow> nat \<Rightarrow> exec_request \<Rightarrow>
    ('r, 'i) gate \<Rightarrow> ('r, 'i) gate \<times> (exec_result \<times> gerr option) call" where
  "Gate_Execute ops ctx l q g =
     (if length (ga_leases g) \<le> l then (g, Panic ''nil instance'')
      else case rt_Execute ops ctx (fst (ga_leases g ! l)) q (ga_inner g) of
          (r, x) \<Rightarrow> (g\<lparr>ga_inner := r\<rparr>, x))"

definition release :: "nat \<Rightarrow> ('r, 'i) gate \<Rightarrow> ('r, 'i) gate" where
  "release l g = (case ga_leases g ! l of (i, fired) \<Rightarrow>
     if fired then g
     else g\<lparr>ga_sem := ga_sem g - 1, ga_leases := (ga_leases g)[l := (i, True)]\<rparr>)"

definition Gate_Destroy :: "('r, 'i) runtime_ops \<Rightarrow> context_t \<Rightarrow> nat \<Rightarrow> ('r, 'i) gate \<Rightarrow>
    ('r, 'i) gate \<times> gerr option" where
  "Gate_Destroy ops ctx l g =
     (if length (ga_leases g) \<le> l then (g, Some (Errorf ''nil instance'' []))
      else case rt_Destroy ops ctx (fst (ga_leases g ! l)) (ga_inner g) of
          (r, x) \<Rightarrow> (release l (g\<lparr>ga_inner := r\<rparr>), x))"

definition Gate_ID :: "('r, 'i) runtime_ops \<Rightarrow> nat \<Rightarrow> ('r, 'i) gate \<Rightarrow> string" where
  "Gate_ID ops l g = rt_ID ops (fst (ga_leases g ! l)) (ga_inner g)"

definition gate_ops :: "('r, 'i) runtime_ops \<Rightarrow> ('r, 'i) chooser \<Rightarrow> (('r, 'i) gate, nat) runtime_ops" where
  "gate_ops ops sel = \<lparr>rt_Name = rt_Name ops, rt_Boot = Gate_Boot ops sel, rt_ID = Gate_ID ops,
     rt_Execute = Gate_Execute ops, rt_Destroy = Gate_Destroy ops,
     rt_Ready = Some (\<lambda>g. case rt_Ready ops of None \<Rightarrow> None | Some f \<Rightarrow> f (ga_inner g)),
     rt_now = (\<lambda>g. rt_now ops (ga_inner g))\<rparr>"

section \<open>A gated runtime is a runtime\<close>

definition open_leases :: "('r, 'i) gate \<Rightarrow> 'i list" where
  "open_leases g = map fst (filter (\<lambda>p. \<not> snd p) (ga_leases g))"

definition gate_known :: "('r, 'i) gate \<Rightarrow> nat set" where
  "gate_known g = {..<length (ga_leases g)}"

definition gate_live :: "('r, 'i) gate \<Rightarrow> nat set" where
  "gate_live g = {l. l < length (ga_leases g) \<and> \<not> snd (ga_leases g ! l)}"

lemma gate_live_known: "gate_live g \<subseteq> gate_known g"
  by (auto simp: gate_live_def gate_known_def)

lemma set_open_leases: "set (open_leases g) = {i. (i, False) \<in> set (ga_leases g)}"
  by (force simp: open_leases_def)

lemma open_leases_update:
  assumes "l < length xs" and "xs ! l = (i, False)"
  shows "length (filter (\<lambda>p. \<not> snd p) (xs[l := (i, True)])) = length (filter (\<lambda>p. \<not> snd p) xs) - 1"
    and "1 \<le> length (filter (\<lambda>p. \<not> snd p) xs)"
proof -
  have xs: "xs = take l xs @ (i, False) # drop (Suc l) xs"
    using assms id_take_nth_drop by metis
  have u: "xs[l := (i, True)] = take l xs @ (i, True) # drop (Suc l) xs"
    using assms(1) by (simp add: upd_conv_take_nth_drop)
  show "length (filter (\<lambda>p. \<not> snd p) (xs[l := (i, True)])) = length (filter (\<lambda>p. \<not> snd p) xs) - 1"
    unfolding u by (subst (3) xs) simp
  show "1 \<le> length (filter (\<lambda>p. \<not> snd p) xs)"
    by (subst xs) simp
qed

lemma update_fired_set:
  assumes "l < length xs" "xs ! l = (i, False)" "distinct (map fst xs)"
  shows "{j. (j, False) \<in> set (xs[l := (i, True)])} = {j. (j, False) \<in> set xs} - {i}"
proof -
  have "(j, False) \<in> set (xs[l := (i, True)]) \<longleftrightarrow> (j, False) \<in> set xs \<and> j \<noteq> i" for j
  proof
    assume "(j, False) \<in> set (xs[l := (i, True)])"
    then obtain k where k: "k < length xs" "(xs[l := (i, True)]) ! k = (j, False)"
      by (auto simp: in_set_conv_nth)
    then have "k \<noteq> l" "xs ! k = (j, False)" using assms(1) by (auto simp: nth_list_update split: if_splits)
    moreover have "j \<noteq> i"
      using assms k(1) calculation nth_eq_iff_index_eq [OF assms(3), of k l] by auto
    ultimately show "(j, False) \<in> set xs \<and> j \<noteq> i" using k(1) nth_mem by metis
  next
    assume "(j, False) \<in> set xs \<and> j \<noteq> i"
    then obtain k where k: "k < length xs" "xs ! k = (j, False)" "k \<noteq> l"
      using assms(2) by (metis fst_conv in_set_conv_nth)
    then show "(j, False) \<in> set (xs[l := (i, True)])"
      by (metis length_list_update nth_list_update_neq nth_mem)
  qed
  then show ?thesis by auto
qed

lemma map_fst_update: "l < length xs \<Longrightarrow> fst (xs ! l) = i \<Longrightarrow> map fst (xs[l := (i, b)]) = map fst xs"
  by (metis fst_conv list_update_id map_update nth_map)

text \<open>
  The contract of a runtime with a gate in front of it. Its invariant: the live inner
  instances are those of the leases that have not fired, and there are at most as many of them
  as tokens in the channel, of which there are at most \<open>Max\<close>.
\<close>

definition gate_inv :: "('r \<Rightarrow> bool) \<Rightarrow> ('r \<Rightarrow> 'i set) \<Rightarrow> ('r \<Rightarrow> 'i set) \<Rightarrow> ('r, 'i) gate \<Rightarrow> bool" where
  "gate_inv iv kn lv g = (iv (ga_inner g) \<and> 1 \<le> ga_Max g \<and> distinct (map fst (ga_leases g))
     \<and> fst ` set (ga_leases g) \<subseteq> kn (ga_inner g) \<and> lv (ga_inner g) = set (open_leases g)
     \<and> length (open_leases g) \<le> ga_sem g \<and> int (ga_sem g) \<le> ga_Max g)"

locale gated_runtime = vm_runtime ops inv known live
  for ops :: "('r, 'i) runtime_ops" and inv known live +
  fixes sel :: "('r, 'i) chooser"
  assumes fair: "fair_select sel"
begin

lemma gate_inv_New: "inv r \<Longrightarrow> live r = {} \<Longrightarrow> gate_inv inv known live (NewGate r mx wait)"
  by (simp add: gate_inv_def NewGate_def open_leases_def)

lemma gate_bound: "gate_inv inv known live g \<Longrightarrow> finite (live (ga_inner g)) \<and> int (card (live (ga_inner g))) \<le> ga_Max g"
proof -
  assume g: "gate_inv inv known live g"
  then have "card (live (ga_inner g)) \<le> length (open_leases g)"
    by (simp add: gate_inv_def card_length)
  with g show ?thesis by (auto simp: gate_inv_def)
qed

lemma gate_inv_Boot: "gate_inv inv known live g \<Longrightarrow> gate_inv inv known live (fst (Gate_Boot ops sel c s g))"
proof -
  assume g: "gate_inv inv known live g"
  show ?thesis
  proof (cases "sel c g")
    case Slot
    then have room: "int (Suc (ga_sem g)) \<le> ga_Max g"
      using fair by (fastforce simp: fair_select_def)
    obtain r x where b: "rt_Boot ops c s (ga_inner g) = (r, x)" by fastforce
    have i: "inv (ga_inner g)" using g by (simp add: gate_inv_def)
    have r: "inv r" using boot_inv [OF i, of c s] b by simp
    show ?thesis
    proof (cases "\<exists>h. x = Ret (Inr h)")
      case True
      then obtain h where x: "x = Ret (Inr h)" by blast
      have "h \<notin> known (ga_inner g) \<and> known r = insert h (known (ga_inner g)) \<and> live r = insert h (live (ga_inner g))"
        using boot_ok [OF i] b x by blast
      then show ?thesis using g room r
        by (auto simp: Gate_Boot_def Slot b x gate_inv_def open_leases_def Let_def)
    next
      case False
      then have "known r = known (ga_inner g) \<and> live r = live (ga_inner g)"
        using boot_fail [OF i b] by blast
      then show ?thesis using g room r False
        by (auto simp: Gate_Boot_def Slot b gate_inv_def open_leases_def Let_def split: call.split sum.split)
    qed
  qed (use g in \<open>simp_all add: Gate_Boot_def\<close>)
qed

lemma gate_inv_Execute: "gate_inv inv known live g \<Longrightarrow> gate_inv inv known live (fst (Gate_Execute ops c l q g))"
proof -
  assume g: "gate_inv inv known live g"
  let ?i = "fst (ga_leases g ! l)"
  obtain r x where e: "rt_Execute ops c ?i q (ga_inner g) = (r, x)" by fastforce
  have "inv r" "known r = known (ga_inner g)" "live r = live (ga_inner g)"
    using g exec_inv [of "ga_inner g" c ?i q] exec_keeps [of "ga_inner g" c ?i q] e
    by (simp_all add: gate_inv_def)
  then show ?thesis using g by (auto simp: Gate_Execute_def e gate_inv_def open_leases_def)
qed

lemma gate_inv_Destroy: "gate_inv inv known live g \<Longrightarrow> gate_inv inv known live (fst (Gate_Destroy ops c l g))"
proof (cases "l < length (ga_leases g)")
  case True
  assume g: "gate_inv inv known live g"
  obtain i f where l: "ga_leases g ! l = (i, f)" by fastforce
  obtain r x where d: "rt_Destroy ops c i (ga_inner g) = (r, x)" by fastforce
  have r: "inv r" "known r = known (ga_inner g)" "live r = live (ga_inner g) - {i}"
    using g destroy_inv [of "ga_inner g" c i] destroy_dead [of "ga_inner g" c i] d
    by (simp_all add: gate_inv_def)
  have dist: "distinct (map fst (ga_leases g))" using g by (simp add: gate_inv_def)
  show ?thesis
  proof (cases f)
    case True
    then have "i \<notin> live (ga_inner g)"
      using g l \<open>l < _\<close> dist eq_key_imp_eq_value [OF dist, of i True False] nth_mem
      by (fastforce simp: gate_inv_def set_open_leases)
    then show ?thesis using g r True \<open>l < _\<close>
      by (auto simp: Gate_Destroy_def l d release_def gate_inv_def open_leases_def)
  next
    case False
    then have lf: "ga_leases g ! l = (i, False)" using l by simp
    note u = open_leases_update [OF \<open>l < _\<close> lf] update_fired_set [OF \<open>l < _\<close> lf dist]
    have m: "map fst ((ga_leases g)[l := (i, True)]) = map fst (ga_leases g)"
      using map_fst_update [of l "ga_leases g" i True] \<open>l < _\<close> l by simp
    then have "fst ` set ((ga_leases g)[l := (i, True)]) = fst ` set (ga_leases g)"
      by (metis list.set_map)
    then show ?thesis using g r False \<open>l < _\<close> u m
      by (simp add: Gate_Destroy_def l d release_def gate_inv_def set_open_leases) (auto simp: open_leases_def)
  qed
qed (simp add: Gate_Destroy_def)

lemma gate_boot_ok:
  assumes "gate_inv inv known live g" and "Gate_Boot ops sel c s g = (g', Ret (Inr l))"
  shows "l \<notin> gate_known g \<and> gate_known g' = insert l (gate_known g) \<and> gate_live g' = insert l (gate_live g)"
  using assms(2)
  by (auto simp: Gate_Boot_def gate_known_def gate_live_def Let_def nth_append less_Suc_eq
      split: select.splits prod.splits call.splits sum.splits)

lemma gate_boot_fail:
  assumes "Gate_Boot ops sel c s g = (g', x)" and "\<forall>l. x \<noteq> Ret (Inr l)"
  shows "gate_known g' = gate_known g \<and> gate_live g' = gate_live g"
  using assms
  by (auto simp: Gate_Boot_def gate_known_def gate_live_def Let_def
      split: select.splits prod.splits call.splits sum.splits)

lemma gate_execute_keeps:
  "gate_known (fst (Gate_Execute ops c l q g)) = gate_known g
   \<and> gate_live (fst (Gate_Execute ops c l q g)) = gate_live g"
  by (simp add: Gate_Execute_def gate_known_def gate_live_def split: prod.split)

lemma gate_destroy_dead:
  "gate_known (fst (Gate_Destroy ops c l g)) = gate_known g
   \<and> gate_live (fst (Gate_Destroy ops c l g)) = gate_live g - {l}"
  by (auto simp: Gate_Destroy_def gate_known_def gate_live_def release_def nth_list_update
      split: prod.splits if_splits)

end

sublocale gated_runtime \<subseteq> gated: vm_runtime "gate_ops ops sel" "gate_inv inv known live" gate_known gate_live
proof unfold_locales
  fix r r' c s i
  assume "gate_inv inv known live r" "rt_Boot (gate_ops ops sel) c s r = (r', Ret (Inr i))"
  then show "i \<notin> gate_known r \<and> gate_known r' = insert i (gate_known r) \<and> gate_live r' = insert i (gate_live r)"
    using gate_boot_ok by (simp add: gate_ops_def)
next
  fix r r' c s x
  assume "rt_Boot (gate_ops ops sel) c s r = (r', x)" "\<forall>i. x \<noteq> Ret (Inr i)"
  then show "gate_known r' = gate_known r \<and> gate_live r' = gate_live r"
    using gate_boot_fail [of c s r r' x] by (simp add: gate_ops_def)
qed (simp_all add: gate_ops_def gate_inv_Boot gate_inv_Execute gate_inv_Destroy gate_execute_keeps
    gate_destroy_dead gate_live_known)

text \<open>The gate in front of the stub, with the select that takes a free slot at once.\<close>

definition eager_select :: "('r, 'i) chooser" where
  "eager_select c g = (if int (ga_sem g) < ga_Max g then Slot else TimerFired)"

text \<open>The same as a fact about the locale predicates, for runtimes that are built at run time.\<close>

context gated_runtime
begin

lemma gate_is_runtime: "vm_runtime (gate_ops ops sel) (gate_inv inv known live) gate_known gate_live"
  by (rule gated.vm_runtime_axioms)

end

interpretation stub_gate: gated_runtime "stub_ops dur et" stub_inv stub_known stub_live eager_select for dur et
  by unfold_locales (simp add: fair_select_def eager_select_def)

section \<open>Concurrent callers\<close>

text \<open>
  Any number of callers share one gate. A caller waits at the \<open>select\<close>; gives up; holds a
  slot while the inner boot runs; holds a lease; is inside a call of \<open>Destroy\<close> whose deferred
  release has not run yet; or its \<open>OnceFunc\<close> has fired. \<open>Destroy\<close> may be called again after
  that. When the inner boot panics, \<open>Boot\<close> does not return and the slot is not released. Other
  callers may take any steps in between.
\<close>

datatype caller = Outside | Waiting | GaveUp | Booting | Leased | Destroying | Fired | Redestroying | Panicked

record gate_sys =
  gs_sem :: nat
  gs_pc :: "nat \<Rightarrow> caller"

definition at_pc :: "gate_sys \<Rightarrow> nat \<Rightarrow> caller \<Rightarrow> gate_sys" where
  "at_pc s t p = s\<lparr>gs_pc := (gs_pc s)(t := p)\<rparr>"

inductive gate_step :: "nat \<Rightarrow> gate_sys \<Rightarrow> gate_sys \<Rightarrow> bool" for mx where
  call_boot: "gs_pc s t = Outside \<Longrightarrow> gate_step mx s (at_pc s t Waiting)"
| acquire: "gs_pc s t = Waiting \<Longrightarrow> gs_sem s < mx \<Longrightarrow>
    gate_step mx s ((at_pc s t Booting)\<lparr>gs_sem := Suc (gs_sem s)\<rparr>)"
| give_up: "gs_pc s t = Waiting \<Longrightarrow> gate_step mx s (at_pc s t GaveUp)"
| boot_ok: "gs_pc s t = Booting \<Longrightarrow> gate_step mx s (at_pc s t Leased)"
| boot_err: "gs_pc s t = Booting \<Longrightarrow> gate_step mx s ((at_pc s t Outside)\<lparr>gs_sem := gs_sem s - 1\<rparr>)"
| boot_panic: "gs_pc s t = Booting \<Longrightarrow> gate_step mx s (at_pc s t Panicked)"
| call_destroy: "gs_pc s t = Leased \<Longrightarrow> gate_step mx s (at_pc s t Destroying)"
| fire: "gs_pc s t = Destroying \<Longrightarrow> gate_step mx s ((at_pc s t Fired)\<lparr>gs_sem := gs_sem s - 1\<rparr>)"
| again: "gs_pc s t = Fired \<Longrightarrow> gate_step mx s (at_pc s t Redestroying)"
| no_fire: "gs_pc s t = Redestroying \<Longrightarrow> gate_step mx s (at_pc s t Fired)"

inductive_simps gate_step_iff: "gate_step mx s s'"

definition gate_start :: gate_sys where
  "gate_start = \<lparr>gs_sem = 0, gs_pc = (\<lambda>_. Outside)\<rparr>"

abbreviation gate_reach :: "nat \<Rightarrow> gate_sys \<Rightarrow> bool" where
  "gate_reach mx \<equiv> (gate_step mx)\<^sup>*\<^sup>* gate_start"

definition holders :: "gate_sys \<Rightarrow> nat set" where
  "holders s = {t. gs_pc s t \<in> {Booting, Leased, Destroying}}"

definition panicked :: "gate_sys \<Rightarrow> nat set" where
  "panicked s = {t. gs_pc s t = Panicked}"

text \<open>The callers whose token is in the channel.\<close>

definition taken :: "gate_sys \<Rightarrow> nat set" where
  "taken s = {t. gs_pc s t \<in> {Booting, Leased, Destroying, Panicked}}"

definition slots_ok :: "nat \<Rightarrow> gate_sys \<Rightarrow> bool" where
  "slots_ok mx s = (finite (taken s) \<and> card (taken s) = gs_sem s \<and> gs_sem s \<le> mx)"

lemma taken_at_pc:
  "taken (at_pc s t p) = (if p \<in> {Booting, Leased, Destroying, Panicked} then insert t (taken s) else taken s - {t})"
  by (auto simp: taken_def at_pc_def)

lemma taken_sem [simp]: "taken (s\<lparr>gs_sem := n\<rparr>) = taken s"
  by (simp add: taken_def)

lemma gs_sem_at_pc [simp]: "gs_sem (at_pc s t p) = gs_sem s"
  by (simp add: at_pc_def)

lemma slots_ok_step: "gate_step mx s s' \<Longrightarrow> slots_ok mx s \<Longrightarrow> slots_ok mx s'"
proof (induction rule: gate_step.induct)
  case (acquire s t)
  then have "t \<notin> taken s" by (simp add: taken_def)
  with acquire show ?case by (simp add: slots_ok_def taken_at_pc)
next
  case (boot_err s t)
  then have "t \<in> taken s" by (simp add: taken_def)
  with boot_err show ?case by (auto simp: slots_ok_def taken_at_pc)
next
  case (fire s t)
  then have "t \<in> taken s" by (simp add: taken_def)
  with fire show ?case by (auto simp: slots_ok_def taken_at_pc)
next
  case (boot_ok s t)
  then have "insert t (taken s) = taken s" by (auto simp: taken_def)
  with boot_ok show ?case by (simp add: slots_ok_def taken_at_pc)
next
  case (boot_panic s t)
  then have "insert t (taken s) = taken s" by (auto simp: taken_def)
  with boot_panic show ?case by (simp add: slots_ok_def taken_at_pc)
next
  case (call_destroy s t)
  then have "insert t (taken s) = taken s" by (auto simp: taken_def)
  with call_destroy show ?case by (simp add: slots_ok_def taken_at_pc)
qed (simp_all add: slots_ok_def taken_at_pc, auto simp: taken_def)

lemma slots_ok_reach: "gate_reach mx s \<Longrightarrow> slots_ok mx s"
proof (induction rule: rtranclp_induct)
  case base
  then show ?case by (simp add: slots_ok_def gate_start_def taken_def)
next
  case (step y z)
  then show ?case using slots_ok_step by blast
qed

section \<open>Properties\<close>

text \<open>
  C12. With any number of concurrent callers, interleaved in any way, the callers that boot, hold
  or tear down an instance are never more than the maximum. The tokens in the channel are one for
  each of them and one for each boot that panicked: a slot is lost to a panic of the inner boot and
  to nothing else, and a repeated \<open>Destroy\<close> never gives a slot back twice.
\<close>

theorem Gate_concurrency_bound:
  assumes "gate_reach mx s"
  shows "finite (holders s) \<and> finite (panicked s) \<and> gs_sem s = card (holders s) + card (panicked s) \<and> gs_sem s \<le> mx"
proof -
  have t: "taken s = holders s \<union> panicked s" "holders s \<inter> panicked s = {}" by (auto simp: taken_def holders_def panicked_def)
  have ok: "finite (taken s)" "card (taken s) = gs_sem s" "gs_sem s \<le> mx"
    using slots_ok_reach [OF assms] by (simp_all add: slots_ok_def)
  have fin: "finite (holders s)" "finite (panicked s)" using ok(1) by (simp_all add: t(1))
  have "card (taken s) = card (holders s) + card (panicked s)"
    unfolding t(1) by (rule card_Un_disjoint [OF fin t(2)])
  with ok fin show ?thesis by simp
qed

definition two_callers :: gate_sys where
  "two_callers = \<lparr>gs_sem = 2, gs_pc = (\<lambda>_. Outside)(0 := Leased, 1 := Panicked)\<rparr>"

theorem Gate_concurrency_bound_witness:
  "gate_reach 2 two_callers \<and> holders two_callers = {0} \<and> panicked two_callers = {1}
     \<and> gs_sem two_callers = card (holders two_callers) + card (panicked two_callers)"
proof -
  let ?s1 = "at_pc gate_start 0 Waiting"
  let ?s2 = "(at_pc ?s1 0 Booting)\<lparr>gs_sem := Suc (gs_sem ?s1)\<rparr>"
  let ?s3 = "at_pc (at_pc ?s2 0 Leased) 1 Waiting"
  let ?s4 = "(at_pc ?s3 1 Booting)\<lparr>gs_sem := Suc (gs_sem ?s3)\<rparr>"
  have "gate_step 2 gate_start ?s1" by (rule call_boot) (simp add: gate_start_def)
  moreover have "gate_step 2 ?s1 ?s2" by (rule acquire) (simp_all add: gate_start_def at_pc_def)
  moreover have "gate_step 2 ?s2 (at_pc ?s2 0 Leased)" by (rule gate_step.boot_ok) (simp add: at_pc_def)
  moreover have "gate_step 2 (at_pc ?s2 0 Leased) ?s3" by (rule call_boot) (simp add: gate_start_def at_pc_def)
  moreover have "gate_step 2 ?s3 ?s4" by (rule acquire) (simp_all add: gate_start_def at_pc_def)
  moreover have "gate_step 2 ?s4 (at_pc ?s4 1 Panicked)" by (rule boot_panic) (simp add: at_pc_def)
  moreover have "at_pc ?s4 1 Panicked = two_callers"
    by (simp add: two_callers_def gate_start_def at_pc_def fun_upd_twist)
  ultimately have r: "gate_reach 2 two_callers"
    by (metis rtranclp.rtrancl_into_rtrancl rtranclp.rtrancl_refl)
  moreover have "holders two_callers = {0}" "panicked two_callers = {1}" by (auto simp: holders_def panicked_def two_callers_def)
  ultimately show ?thesis using Gate_concurrency_bound [OF r] by simp
qed

end
