(* ===== verification/FC_Wiring.thy ===== *)
theory FC_Wiring
  imports FC_Backend Cgroup Runtime_Gate
begin

text \<open>
  The interfaces of the Firecracker \<open>Config\<close> connected to the program's own implementations:
  \<open>network.TAP\<close>, \<open>resources.CgroupV2\<close>, \<open>snapshot.DirStore\<close> and \<open>FilePool\<close>, as
  \<open>NewFirecrackerWithConfig\<close> and \<open>main\<close> connect them. The connected backend satisfies
  \<open>quiet_deps\<close>, hence \<open>vm_runtime\<close>, alone and behind the gate.
\<close>

section \<open>The implementations as interfaces\<close>

text \<open>The network of the host: the counter of \<open>TAP\<close> and the kernel's state.\<close>

type_synonym 'w net_host = "(32 word \<times> 'w) host"

definition tap_interface :: "unicode_tables \<Rightarrow> 'w tap \<Rightarrow> (32 word \<times> 'w) tap_factory" where
  "tap_interface u t =
     \<lparr>tf_Setup = (\<lambda>vid p w. case Setup u t vid p (h_net w) of (n, r) \<Rightarrow> (w\<lparr>h_net := n\<rparr>, r)),
      tf_Teardown = (\<lambda>k w. case Teardown t (Some k) (snd (h_net w)) of (n, r) \<Rightarrow> (w\<lparr>h_net := (fst (h_net w), n)\<rparr>, r)),
      tf_Recreate = Some (\<lambda>k p w. case Recreate u t (Some k) p (snd (h_net w)) of (n, k', r) \<Rightarrow>
         (w\<lparr>h_net := (fst (h_net w), n)\<rparr>, case k' of None \<Rightarrow> k | Some k'' \<Rightarrow> k'', r))\<rparr>"

text \<open>\<open>desc\<close> lists the descendants of a process as \<open>/proc\<close> shows them.\<close>

definition cgroup_interface :: "cgroup_v2 \<Rightarrow> (int \<Rightarrow> int list) \<Rightarrow> string \<Rightarrow> int \<Rightarrow> profile \<Rightarrow> 'n host \<Rightarrow> 'n host \<times> 'n action res" where
  "cgroup_interface c desc vid pid p w = (case Attach c desc vid pid p (h_fs w) of
       (s, Inl e) \<Rightarrow> (w\<lparr>h_fs := s\<rparr>, Inl e)
     | (s, Inr cl) \<Rightarrow> (w\<lparr>h_fs := s\<rparr>, Inr (on_fs (run_cleanup cl desc))))"

record snap_codec =
  sc_marshal :: "snap_record \<Rightarrow> string res"
  sc_unmarshal :: "string \<Rightarrow> snap_record res"

definition store_interface :: "snap_codec \<Rightarrow> string \<Rightarrow> 'n snap_ops" where
  "store_interface sc root =
     \<lparr>sn_Prepare = (\<lambda>sid vid. on_fs (DirStore_Prepare root sid vid)),
      sn_Commit = (\<lambda>rec w. case DirStore_Commit (sc_marshal sc) (h_now w) root (Some rec) (h_fs w) of
         (s, rec', r) \<Rightarrow> (w\<lparr>h_fs := s\<rparr>, case rec' of None \<Rightarrow> rec | Some x \<Rightarrow> x, r)),
      sn_Restore = (\<lambda>sid. on_fs (DirStore_Restore (sc_unmarshal sc) root sid)),
      sn_Delete = (\<lambda>sid. on_fs (DirStore_Delete root sid))\<rparr>"

definition pool_interface :: "fc_env \<Rightarrow> string \<Rightarrow> 'n action" where
  "pool_interface E dst w = (case Acquire (fe_cp E) dst (h_pool w) (h_fs w) of
       (s, po, _, r) \<Rightarrow> (w\<lparr>h_fs := s, h_pool := po\<rparr>, r))"

section \<open>NewFirecrackerWithConfig\<close>

definition default_store :: "snap_codec \<Rightarrow> fc_config \<Rightarrow> 'n fc_deps \<Rightarrow> 'n fc_deps" where
  "default_store sc c deps =
     (if fd_Snapshots deps = None \<and> fc_SnapshotDir c \<noteq> [] then
        deps\<lparr>fd_Snapshots := Some (store_interface sc (fc_SnapshotDir c))\<rparr>
      else deps)"

definition default_pool :: "fc_env \<Rightarrow> fc_config \<Rightarrow> 'n fc_deps \<Rightarrow> 'n host \<Rightarrow> 'n fc_deps \<times> 'n host" where
  "default_pool E c deps w =
     (if fd_Pool deps = None \<and> 0 < fc_RootfsPoolSize c \<and> fc_Rootfs c \<noteq> [] \<and> fc_WorkDir c \<noteq> [] then
        (case NewFilePool (fc_Rootfs c) (path_join [fc_WorkDir c, ''pool'']) (fc_RootfsPoolSize c) (h_fs w) of
           (s, po, _) \<Rightarrow> (deps\<lparr>fd_Pool := Some (pool_interface E)\<rparr>, w\<lparr>h_fs := s, h_pool := po\<rparr>))
      else (deps, w))"

definition NewFirecrackerWithConfig :: "fc_env \<Rightarrow> snap_codec \<Rightarrow> fc_config \<Rightarrow> 'n fc_deps \<Rightarrow> 'n host \<Rightarrow>
    fc_config \<times> 'n fc_deps \<times> 'n fc_state" where
  "NewFirecrackerWithConfig E sc cfg deps w =
     (let c = fill_config (fe_go E) cfg in
      case default_pool E c (default_store sc c deps) w of
        (deps', w') \<Rightarrow> (c, deps', \<lparr>fs_seq = 0, fs_cids = 2, fs_vms = [], fs_host = w'\<rparr>))"

section \<open>The contract\<close>

text \<open>Every choice of interfaces that the program makes.\<close>

definition wire :: "fc_env \<Rightarrow> unicode_tables \<Rightarrow> 'w tap option \<Rightarrow> (cgroup_v2 \<times> (int \<Rightarrow> int list)) option \<Rightarrow> (snap_codec \<times> string) option \<Rightarrow> bool \<Rightarrow>
    (32 word \<times> 'w) fc_deps" where
  "wire E u t cg st pool =
     \<lparr>fd_Cgroup = map_option (\<lambda>(c, desc). cgroup_interface c desc) cg,
      fd_Tap = map_option (tap_interface u) t,
      fd_Snapshots = map_option (\<lambda>(sc, root). store_interface sc root) st,
      fd_Pool = (if pool then Some (pool_interface E) else None)\<rparr>"

interpretation wired: quiet_deps "wire E u t cg st pool" for E u t cg st pool
proof unfold_locales
  fix attach i pid p w w' cl
  assume a: "fd_Cgroup (wire E u t cg st pool) = Some attach"
  show "quiet (attach i pid p)"
    using a by (auto simp: wire_def quiet_def cgroup_interface_def split: prod.split sum.split)
  assume "attach i pid p w = (w', Inr cl)"
  with a show "quiet cl" by (auto simp: wire_def cgroup_interface_def split: prod.splits sum.splits)
qed (auto simp: wire_def quiet_def tap_interface_def store_interface_def pool_interface_def split: prod.split if_splits)

interpretation wired_gate: gated_runtime "fc_ops E cfg (wire E u t cg st pool)" "fc_inv (wire E u t cg st pool)" fc_known fc_live eager_select
  for E cfg u t cg st pool
  by unfold_locales (simp add: fair_select_def eager_select_def)

text \<open>What the constructor makes of wired interfaces is wired.\<close>

lemma default_store_wire:
  "\<exists>st'. default_store sc c (wire E u t cg st pool) = wire E u t cg st' pool"
  by (cases "st = None \<and> fc_SnapshotDir c \<noteq> []")
    (auto simp: default_store_def wire_def intro: exI [of _ "Some (sc, fc_SnapshotDir c)"] exI [of _ st])

lemma default_pool_wire:
  assumes "default_pool E c (wire E u t cg st pool) w = (deps', w')"
  shows "\<exists>pool'. deps' = wire E u t cg st pool'" "h_trace w' = h_trace w"
  using assms by (auto simp: default_pool_def wire_def NewFilePool_def split: if_splits prod.splits)

lemma New_wired:
  assumes "NewFirecrackerWithConfig E sc cfg (wire E u t cg st pool) w = (c, deps, s)"
  shows "\<exists>st' pool'. deps = wire E u t cg st' pool'" "c = fill_config (fe_go E) cfg" "fs_vms s = []"
    "h_trace (fs_host s) = h_trace w" "fs_cids s = 2" "fs_seq s = 0"
proof -
  obtain st' where st: "default_store sc (fill_config (fe_go E) cfg) (wire E u t cg st pool) = wire E u t cg st' pool"
    using default_store_wire by blast
  obtain d w' where p: "default_pool E (fill_config (fe_go E) cfg) (wire E u t cg st' pool) w = (d, w')" by fastforce
  from assms show "\<exists>st' pool'. deps = wire E u t cg st' pool'" "c = fill_config (fe_go E) cfg" "fs_vms s = []"
    "h_trace (fs_host s) = h_trace w" "fs_cids s = 2" "fs_seq s = 0"
    using default_pool_wire [OF p] p st by (auto simp: NewFirecrackerWithConfig_def Let_def)
qed

end
