(* ===== verification/Net_Tap_Facts.thy ===== *)
theory Net_Tap_Facts
  imports Net_Tap
begin

text \<open>
  What the network component guarantees: the address plan carves disjoint /30 blocks, the
  derived names are legal, an allowlist resolves without loss, the host commands either all
  succeed or the link is torn down, and the only lines of the ruleset that accept are those of the allowlist.
\<close>

section \<open>The address plan\<close>

text \<open>The low 16 bits of an IPv4 address.\<close>

definition addr16 :: "ip \<Rightarrow> nat" where
  "addr16 p = unat (p ! 2) * 256 + unat (p ! 3)"

lemma unat_byte_hi: "unat (ucast (drop_bit 8 (w :: 32 word)) :: 8 word) = unat w div 256 mod 256"
proof -
  have "unat (drop_bit 8 w) = unat w div 256"
    by (simp add: drop_bit_eq_div unat_div)
  then show ?thesis by (simp only: unsigned_ucast_eq take_bit_eq_mod) simp
qed

lemma unat_byte_lo: "unat (ucast (w :: 32 word) :: 8 word) = unat w mod 256"
  by (simp add: unsigned_ucast_eq take_bit_eq_mod)

lemma unat_offset:
  assumes "n \<noteq> 0" and "n \<le> (16383 :: 32 word)"
  shows "unat ((n - 1) * 4) = 4 * (unat n - 1)" and "unat n \<le> 16383" and "1 \<le> unat n"
proof -
  show le: "unat n \<le> 16383"
    using assms(2) by (simp add: word_le_nat_alt)
  show ge: "1 \<le> unat n"
    using assms(1) by (simp add: Suc_leI unat_gt_0)
  have "unat (n - 1) = unat n - 1"
    using ge by (simp add: unat_sub_if_size word_size)
  moreover have "unat ((n - 1) * 4) = unat (n - 1) * 4 mod 2 ^ 32"
    by (simp only: unat_word_ariths) simp
  ultimately show "unat ((n - 1) * 4) = 4 * (unat n - 1)"
    using le by simp
qed

lemma pair30_cases:
  "pair30 b0 b1 n = Inr (a, b) \<Longrightarrow> n \<noteq> 0 \<and> n \<le> 16383"
  by (auto simp: pair30_def split: if_splits)

lemma pair30_layout:
  assumes "pair30 b0 b1 n = Inr (a, b)"
  shows "addr16 a = 4 * (unat n - 1) + 1" and "addr16 b = 4 * (unat n - 1) + 2"
    and "take 2 a = [b0, b1]" and "take 2 b = [b0, b1]" and "length a = 4" and "length b = 4"
proof -
  define k where "k = 4 * (unat n - 1)"
  have n: "n \<noteq> 0" "n \<le> 16383" using pair30_cases [OF assms] by auto
  note off = unat_offset [OF n, folded k_def]
  define hi lo where "hi = (ucast (drop_bit 8 ((n - 1) * 4)) :: 8 word)"
    and "lo = (ucast ((n - 1) * 4) :: 8 word)"
  have ab: "a = [b0, b1, hi, lo + 1]" "b = [b0, b1, hi, lo + 2]"
    using assms n by (auto simp: pair30_def hi_def lo_def Let_def split: if_splits)
  have hi: "unat hi = k div 256"
  proof -
    have "k div 256 < 256" using off(2) by (simp add: k_def)
    then show ?thesis unfolding hi_def unat_byte_hi off(1) by simp
  qed
  have lo: "unat lo = k mod 256"
    unfolding lo_def unat_byte_lo off(1) ..
  have "k mod 256 = 4 * ((unat n - 1) mod 64)"
    using mult_mod_right [of 4 "unat n - 1" 64] by (simp add: k_def)
  moreover have "(unat n - 1) mod 64 \<le> 63"
    using mod_less_divisor [of 64 "unat n - 1"] by linarith
  ultimately have small: "k mod 256 \<le> 252" by linarith
  have "unat (lo + 1) = k mod 256 + 1" and "unat (lo + 2) = k mod 256 + 2"
    using small by (simp_all add: unat_word_ariths lo)
  then have "addr16 a = k + 1" and "addr16 b = k + 2"
    using hi by (simp_all add: addr16_def ab)
  then show "addr16 a = 4 * (unat n - 1) + 1" and "addr16 b = 4 * (unat n - 1) + 2"
    unfolding k_def .
  show "take 2 a = [b0, b1]" "take 2 b = [b0, b1]" "length a = 4" "length b = 4"
    by (simp_all add: ab)
qed

section \<open>Names\<close>

lemma byte_char_of: "byte c = n \<Longrightarrow> c = char_of n"
  by (metis char_of_char)

lemma tapName_shape:
  "\<forall>c \<in> set (tapName vid). alnum (byte c)" "tapName vid \<noteq> []" "length (tapName vid) \<le> 15"
proof -
  have m: "\<forall>c \<in> set (strings_map keep_alnum vid). byte c < 0x80 \<and> alnum (byte c)"
    by (rule strings_map_bytes) (simp add: keep_alnum_def alnum_ascii split: if_splits)
  have w: "\<forall>c \<in> set ''w''. alnum (byte c)" and t: "\<forall>c \<in> set ''wtap''. alnum (byte c)"
    by (simp_all add: char_class_defs)
  define s where "s = ''w'' @ strings_map keep_alnum vid"
  have s: "\<forall>c \<in> set s. alnum (byte c)"
    unfolding s_def set_append using m w by blast
  have e: "tapName vid = (if take 15 s = ''w'' then ''wtap'' else take 15 s)"
    by (simp add: tapName_def Let_def s_def)
  show "\<forall>c \<in> set (tapName vid). alnum (byte c)"
    unfolding e using s t set_take_subset [of 15 s] by (simp only: subset_eq split: if_split) blast
  show "tapName vid \<noteq> []" "length (tapName vid) \<le> 15"
    unfolding e by (simp_all add: s_def)
qed

lemma netnsName_chars:
  "\<forall>c \<in> set (netnsName vid). alnum (byte c) \<or> c = CHR ''-''" "netnsName vid \<noteq> []"
  "length (netnsName vid) \<le> 128"
proof -
  let ?f = "\<lambda>r. if alnum r \<or> r = 45 then Some r else None"
  have m: "\<forall>c \<in> set (strings_map ?f vid). byte c < 0x80 \<and> (alnum (byte c) \<or> byte c = 45)"
    by (rule strings_map_bytes) (auto dest: alnum_ascii split: if_splits)
  have dash: "byte c = 45 \<longleftrightarrow> c = CHR ''-''" for c
    using of_char_eq_iff [of c "CHR ''-''", where 'a = nat] by simp
  have w: "\<forall>c \<in> set ''warden-''. alnum (byte c) \<or> byte c = 45"
    and t: "\<forall>c \<in> set ''warden-tap''. alnum (byte c) \<or> byte c = 45"
    by (simp_all add: char_class_defs)
  define s where "s = ''warden-'' @ strings_map ?f vid"
  have s: "\<forall>c \<in> set s. alnum (byte c) \<or> byte c = 45"
    unfolding s_def set_append using m w by blast
  have e: "netnsName vid = take 128 (if s = ''warden-'' then ''warden-tap'' else s)"
    by (simp add: netnsName_def Let_def s_def)
  show "\<forall>c \<in> set (netnsName vid). alnum (byte c) \<or> c = CHR ''-''"
    unfolding e dash [symmetric] using s t set_take_subset [of 128 s] by (simp split: if_split) blast
  show "netnsName vid \<noteq> []" "length (netnsName vid) \<le> 128"
    unfolding e by (simp_all add: s_def)
qed

lemma no_dots: "c \<notin> set n \<Longrightarrow> \<not> contains_sub n [c, c]"
  by (auto simp: contains_sub_iff sublist_def)

lemma netnsName_valid: "path_name (netnsName vid)" "validateNetNSName (netnsName vid) = None"
proof -
  have "CHR ''.'' \<notin> set (netnsName vid)" and slash: "CHR ''/'' \<notin> set (netnsName vid)"
    using netnsName_chars(1) [of vid] by (auto simp: char_class_defs)
  then show n: "path_name (netnsName vid)"
    using netnsName_chars(2) [of vid] unfolding path_name_def
    by (metis list.set_intros(1))
  show "validateNetNSName (netnsName vid) = None"
    using path_base_name [OF n] netnsName_chars(2) [of vid] no_dots [OF \<open>CHR ''.'' \<notin> _\<close>]
    by (simp add: validateNetNSName_def)
qed

section \<open>The allowlist as addresses\<close>

text \<open>What one entry stands for: its literal address, or what DNS answers for its host.\<close>

definition entry_addrs :: "(string \<Rightarrow> ip list res) \<Rightarrow> string \<Rightarrow> ip list res" where
  "entry_addrs lookup raw = (let h = host_part (trim_space raw) in
     case parse_ip h of Some p \<Rightarrow> Inr [p] | None \<Rightarrow> lookup h)"

lemma resolve_loop_Cons:
  "resolve_loop lookup seen out (raw # es) = (case entry_addrs lookup raw of
      Inl e \<Rightarrow> Inl (Wrapf ''resolve %q: %w'' [host_part (trim_space raw)] e)
    | Inr ps \<Rightarrow> (case add_ips seen out ps of (seen', out') \<Rightarrow> resolve_loop lookup seen' out' es))"
  unfolding resolve_loop.simps Let_def entry_addrs_def host_part_def [symmetric]
  by (simp split: option.split)

lemma add_ips_spec:
  assumes "add_ips seen out ps = (seen', out')" and "set seen = ip_string ` set out"
    and "distinct (map ip_string out)"
  shows "set seen' = ip_string ` set out'" and "distinct (map ip_string out')"
    and "ip_string ` set out' = ip_string ` set out \<union> ip_string ` set ps"
    and "set out' \<subseteq> set out \<union> set ps"
  using assms by (induction seen out ps rule: add_ips.induct) (auto split: if_splits)

lemma resolve_loop_spec:
  assumes "resolve_loop lookup seen out es = Inr ips" and "set seen = ip_string ` set out"
    and "distinct (map ip_string out)"
  shows "distinct (map ip_string ips) \<and> ip_string ` set ips = ip_string ` set out \<union>
      (\<Union>raw \<in> set es. \<Union>ps \<in> {ps. entry_addrs lookup raw = Inr ps}. ip_string ` set ps)
    \<and> (\<forall>raw \<in> set es. ok (entry_addrs lookup raw))
    \<and> set ips \<subseteq> set out \<union> (\<Union>raw \<in> set es. \<Union>ps \<in> {ps. entry_addrs lookup raw = Inr ps}. set ps)"
  using assms
proof (induction es arbitrary: seen out)
  case Nil
  then show ?case by simp
next
  case (Cons raw es)
  obtain ps where ps: "entry_addrs lookup raw = Inr ps"
    using Cons.prems(1) by (auto simp: resolve_loop_Cons simp del: resolve_loop.simps split: sum.splits)
  obtain seen' out' where a: "add_ips seen out ps = (seen', out')" by fastforce
  have r: "resolve_loop lookup seen' out' es = Inr ips"
    using Cons.prems(1) by (simp add: resolve_loop_Cons ps a del: resolve_loop.simps)
  note s = add_ips_spec [OF a Cons.prems(2,3)]
  show ?case using Cons.IH [OF r s(1,2)] s(3,4) ps by auto
qed

lemma resolve_loop_fails:
  "\<exists>raw \<in> set es. \<not> ok (entry_addrs lookup raw) \<Longrightarrow> \<not> ok (resolve_loop lookup seen out es)"
proof (induction es arbitrary: seen out)
  case (Cons raw es)
  then show ?case
    by (auto simp: resolve_loop_Cons simp del: resolve_loop.simps split: sum.splits prod.splits)
qed simp
lemma resolve_loop_total:
  "\<forall>raw \<in> set es. ok (entry_addrs lookup raw) \<Longrightarrow> ok (resolve_loop lookup seen out es)"
proof (induction es arbitrary: seen out)
  case (Cons raw es)
  then show ?case
    by (auto simp: resolve_loop_Cons simp del: resolve_loop.simps split: sum.splits prod.splits)
qed simp

section \<open>Host commands: all of them, or rolled back\<close>

text \<open>
  Every factory can be observed: each command that it gives to \<open>os/exec\<close>, or to its runner if it has
  one, is noted with its standard input and with whether it succeeded. The commands and their
  results are those of the factory itself.
\<close>

type_synonym host_call = "command \<times> string \<times> bool"

definition noted :: "command \<Rightarrow> string \<Rightarrow> host_call list \<Rightarrow> 'w \<times> 'e option \<Rightarrow> ('w \<times> host_call list) \<times> 'e option" where
  "noted c i tr p = ((fst p, tr @ [(c, i, snd p = None)]), snd p)"

definition observed :: "'w tap \<Rightarrow> ('w \<times> host_call list) tap" where
  "observed t = \<lparr>tap_Run = map_option (\<lambda>fn c wt. noted c [] (snd wt) (fn c (fst wt))) (tap_Run t),
     tap_Exec = \<lambda>c i wt. noted c i (snd wt) (tap_Exec t c i (fst wt)),
     tap_Lookup = tap_Lookup t, tap_IP = tap_IP t, tap_Sudo = tap_Sudo t, tap_LookPath = tap_LookPath t, tap_Stat = tap_Stat t\<rparr>"

definition call_of :: "host_call \<Rightarrow> command \<times> string" where
  "call_of h = (fst h, fst (snd h))"

lemma call_of_triple [simp]: "call_of (c, i, b) = (c, i)"
  by (simp add: call_of_def)

text \<open>A plain command, and how the ruleset reaches nft: on standard input, or as an argument of the runner.\<close>

definition plain_call :: "'w tap \<Rightarrow> command \<Rightarrow> command \<times> string" where
  "plain_call t c = (with_sudo t c, [])"

definition nft_call :: "'w tap \<Rightarrow> string \<Rightarrow> command \<times> string" where
  "nft_call t script = (case tap_Run t of
       None \<Rightarrow> (with_sudo t [''nft'', ''-f'', ''-''], script)
     | Some _ \<Rightarrow> (with_sudo t [''nft'', ''-f'', ''-'', script], []))"

definition forwarding_cmds :: "'w tap \<Rightarrow> link \<Rightarrow> command list" where
  "forwarding_cmds t l = [[''sysctl'', ''-w'', ''net.ipv4.ip_forward=1''],
     ns_cmd t (l_NetNS l) ''sysctl'' [''-w'', ''net.ipv4.ip_forward=1'']]"

definition succeeded :: "'w tap \<Rightarrow> command list \<Rightarrow> host_call list" where
  "succeeded t cs = map (\<lambda>c. (with_sudo t c, [], True)) cs"

lemma observed_cmds [simp]:
  "ip_cmd (observed t) args = ip_cmd t args" "ns_cmd (observed t) ns nm args = ns_cmd t ns nm args"
  "in_ns_cmd (observed t) ns args = in_ns_cmd t ns args" "with_sudo (observed t) c = with_sudo t c"
  "apply_cmds (observed t) l = apply_cmds t l" "teardown_cmds (observed t) l = teardown_cmds t l"
  by (simp_all add: ip_cmd_def ns_cmd_def in_ns_cmd_def ipBin_def with_sudo_def observed_def apply_cmds_def teardown_cmds_def)

lemma observed_run:
  "tap_run (observed t) c (w, tr) = noted (with_sudo t c) [] tr (tap_run t c w)"
  by (cases "tap_Run t") (auto simp: tap_run_def defaultRun_def observed_def noted_def with_sudo_def split: prod.split option.split)

lemma observed_rules:
  "applyRules (observed t) script (w, tr) = noted (fst (nft_call t script)) (snd (nft_call t script)) tr (applyRules t script w)"
  by (cases "tap_Run t")
    (auto simp: applyRules_def observed_def noted_def nft_call_def with_sudo_def split: prod.split option.split)

lemma observed_seq:
  assumes "run_seq t cs w = (w', r)"
  shows "\<exists>new. run_seq (observed t) cs (w, tr) = ((w', tr @ new), r)
    \<and> (if r = None then new = succeeded t cs
       else \<exists>k < length cs. new = succeeded t (take k cs) @ [(with_sudo t (cs ! k), [], False)])"
  using assms
proof (induction cs arbitrary: w tr)
  case (Cons c cs)
  obtain w1 q where c: "tap_run t c w = (w1, q)" by fastforce
  show ?case
  proof (cases q)
    case None
    let ?tr = "tr @ [(with_sudo t c, [], True)]"
    have "run_seq t cs w1 = (w', r)" using Cons.prems c None by simp
    from Cons.IH [OF this, of ?tr] obtain new where n: "run_seq (observed t) cs (w1, ?tr) = ((w', ?tr @ new), r)"
      "if r = None then new = succeeded t cs
       else \<exists>k < length cs. new = succeeded t (take k cs) @ [(with_sudo t (cs ! k), [], False)]" by blast
    have "run_seq (observed t) (c # cs) (w, tr) = ((w', tr @ (with_sudo t c, [], True) # new), r)"
      using n(1) c None by (simp add: observed_run noted_def)
    moreover have "if r = None then (with_sudo t c, [], True) # new = succeeded t (c # cs)
       else \<exists>k < length (c # cs). (with_sudo t c, [], True) # new = succeeded t (take k (c # cs)) @ [(with_sudo t ((c # cs) ! k), [], False)]"
    proof (cases "r = None")
      case False
      then obtain k where "k < length cs" "new = succeeded t (take k cs) @ [(with_sudo t (cs ! k), [], False)]" using n(2) by auto
      with False show ?thesis by (auto intro!: exI [of _ "Suc k"] simp: succeeded_def)
    qed (use n(2) in \<open>simp add: succeeded_def\<close>)
    ultimately show ?thesis by blast
  next
    case (Some e)
    then show ?thesis using Cons.prems c
      by (intro exI [of _ "[(with_sudo t c, [], False)]"]) (auto simp: observed_run noted_def succeeded_def intro!: exI [of _ 0])
  qed
qed (simp add: succeeded_def)

lemma observed_each:
  "\<exists>new. run_each (observed t) cs (w, tr) = ((fst (run_each t cs w), tr @ new), snd (run_each t cs w))
     \<and> map call_of new = map (\<lambda>c. plain_call t (snd c)) cs"
proof (induction cs arbitrary: w tr)
  case (Cons mc cs)
  obtain m c where mc: "mc = (m, c)" by fastforce
  obtain w1 r where run: "tap_run t c w = (w1, r)" by fastforce
  obtain new where "run_each (observed t) cs (w1, tr @ [(with_sudo t c, [], r = None)]) =
      ((fst (run_each t cs w1), (tr @ [(with_sudo t c, [], r = None)]) @ new), snd (run_each t cs w1))"
    "map call_of new = map (\<lambda>c. plain_call t (snd c)) cs"
    using Cons.IH by blast
  then show ?case
    by (intro exI [of _ "(with_sudo t c, [], r = None) # new"], cases "run_each t cs w1")
      (simp add: mc run observed_run noted_def plain_call_def)
qed simp

lemma observed_Teardown:
  "\<exists>new. Teardown (observed t) (Some l) (w, tr) = ((fst (Teardown t (Some l) w), tr @ new), snd (Teardown t (Some l) w))
     \<and> map call_of new = map (\<lambda>c. plain_call t (snd c)) (teardown_cmds t l)"
  using observed_each [of t "teardown_cmds t l" w tr] by (auto simp: Teardown_def case_prod_beta)

text \<open>What \<open>apply\<close> runs before it succeeds, or before it gives up and tears the link down.\<close>

definition apply_ran :: "unicode_tables \<Rightarrow> 'w tap \<Rightarrow> link \<Rightarrow> ip list \<Rightarrow> bool \<Rightarrow> host_call list \<Rightarrow> bool" where
  "apply_ran u t l ips good made =
     ((\<exists>k < length (apply_cmds t l). \<not> good
         \<and> made = succeeded t (take k (apply_cmds t l)) @ [(with_sudo t (apply_cmds t l ! k), [], False)])
      \<or> (\<exists>fwd. map call_of fwd = map (plain_call t) (forwarding_cmds t l)
           \<and> made = succeeded t (apply_cmds t l) @ fwd
               @ [(fst (nft_call t (RenderNFT u l ips)), snd (nft_call t (RenderNFT u l ips)), good)]))"

lemma observed_apply:
  assumes "validateNetNSName (l_NetNS l) = None" and "tap_apply u t l ips w = (w', r)"
  shows "\<exists>made undo. tap_apply u (observed t) l ips (w, tr) = ((w', tr @ made @ undo), r)
     \<and> apply_ran u t l ips (r = None) made
     \<and> map call_of undo = (if r = None then [] else map (\<lambda>c. plain_call t (snd c)) (teardown_cmds t l))"
proof -
  obtain w1 q where seq: "run_seq t (apply_cmds t l) w = (w1, q)" by fastforce
  obtain new where n: "run_seq (observed t) (apply_cmds t l) (w, tr) = ((w1, tr @ new), q)"
    "if q = None then new = succeeded t (apply_cmds t l)
     else \<exists>k < length (apply_cmds t l). new = succeeded t (take k (apply_cmds t l)) @ [(with_sudo t (apply_cmds t l ! k), [], False)]"
    using observed_seq [OF seq] by blast
  show ?thesis
  proof (cases q)
    case (Some e)
    have r: "r = Some e" "w' = fst (Teardown t (Some l) w1)" using assms seq Some by (simp_all add: tap_apply_def)
    obtain undo where "Teardown (observed t) (Some l) (w1, tr @ new) =
        ((fst (Teardown t (Some l) w1), (tr @ new) @ undo), snd (Teardown t (Some l) w1))"
      "map call_of undo = map (\<lambda>c. plain_call t (snd c)) (teardown_cmds t l)"
      using observed_Teardown [of t l w1 "tr @ new"] by blast
    moreover have "apply_ran u t l ips False new" using n(2) Some by (auto simp: apply_ran_def)
    ultimately show ?thesis using r n(1) assms(1) Some
      by (intro exI [of _ new] exI [of _ undo]) (simp add: tap_apply_def)
  next
    case None
    obtain w2 r2 where f1: "tap_run t [''sysctl'', ''-w'', ''net.ipv4.ip_forward=1''] w1 = (w2, r2)" by fastforce
    obtain w3 r3 where f2: "tap_run t (ns_cmd t (l_NetNS l) ''sysctl'' [''-w'', ''net.ipv4.ip_forward=1'']) w2 = (w3, r3)" by fastforce
    obtain w4 q4 where nft: "applyRules t (RenderNFT u l ips) w3 = (w4, q4)" by fastforce
    define fwd where "fwd = [(with_sudo t (forwarding_cmds t l ! 0), [] :: string, r2 = None), (with_sudo t (forwarding_cmds t l ! 1), [], r3 = None)]"
    define made where "made = new @ fwd @ [(fst (nft_call t (RenderNFT u l ips)), snd (nft_call t (RenderNFT u l ips)), q4 = None)]"
    have o: "tap_apply u (observed t) l ips (w, tr) = (case q4 of
        None \<Rightarrow> ((w4, tr @ made), None) | Some e \<Rightarrow> (fst (Teardown (observed t) (Some l) (w4, tr @ made)), Some e))"
      using n(1) None assms(1) f1 f2 nft
      by (simp add: tap_apply_def observed_run observed_rules noted_def made_def fwd_def forwarding_cmds_def Let_def
          split: option.split)
    have "map call_of fwd = map (plain_call t) (forwarding_cmds t l)"
      by (simp add: fwd_def plain_call_def forwarding_cmds_def)
    then have a: "apply_ran u t l ips (q4 = None) made"
      unfolding apply_ran_def using n(2) None by (intro disjI2 exI [of _ fwd]) (simp add: made_def)
    have r: "r = q4" "w' = (if q4 = None then w4 else fst (Teardown t (Some l) w4))"
      using assms seq None f1 f2 nft by (auto simp: tap_apply_def Let_def split: option.splits)
    obtain undo where "Teardown (observed t) (Some l) (w4, tr @ made) =
        ((fst (Teardown t (Some l) w4), (tr @ made) @ undo), snd (Teardown t (Some l) w4))"
      "map call_of undo = map (\<lambda>c. plain_call t (snd c)) (teardown_cmds t l)"
      using observed_Teardown [of t l w4 "tr @ made"] by blast
    then show ?thesis using o a r
      by (intro exI [of _ made] exI [of _ "if q4 = None then [] else undo"]) (auto split: option.split)
  qed
qed

section \<open>The counter of the factory\<close>

lemma Setup_link:
  assumes "Setup u t vid p (seq, w) = ((n, w'), Inr l)"
  shows "n = seq + 1" "subnet30 n = Inr (l_HostIP l, l_GuestIP l)"
    "uplink30 n = Inr (l_UplinkHost l, l_UplinkNS l)" "l_NetNS l = netnsName vid"
    "\<exists>ips. precheck t p = Inr ips \<and> tap_apply u t l ips w = (w', None)"
  using assms
  by (auto simp: Setup_def Let_def new_link_def split: sum.splits prod.splits option.splits)

lemma pair30_out_of_range: "16383 < n \<Longrightarrow> \<not> ok (pair30 b0 b1 n)"
  by (simp add: pair30_def)

lemma Setup_exhausted:
  assumes "seq \<ge> 16383" and "seq + 1 \<noteq> 0"
  shows "\<not> ok (snd (Setup u t vid p (seq, w)))" and "snd (fst (Setup u t vid p (seq, w))) = w"
    and "fst (fst (Setup u t vid p (seq, w))) \<ge> 16383"
proof -
  have "unat (seq + 1) = unat seq + 1"
    using assms(2) unatSuc [of seq] by (simp add: add.commute)
  then have gt: "16383 < seq + 1" using assms(1) by (simp add: word_less_nat_alt word_le_nat_alt)
  then obtain e where e: "subnet30 (seq + 1) = Inl e"
    using pair30_out_of_range [of "seq + 1" 172 25] by (cases "subnet30 (seq + 1)") (auto simp: subnet30_def)
  show "\<not> ok (snd (Setup u t vid p (seq, w)))" "snd (fst (Setup u t vid p (seq, w))) = w"
    by (simp_all add: Setup_def e Let_def split: sum.split)
  show "fst (fst (Setup u t vid p (seq, w))) \<ge> 16383"
    using assms(1) gt by (auto simp: Setup_def e Let_def split: sum.split)
qed


section \<open>The lines of the ruleset\<close>

text \<open>The characters of an address text.\<close>

definition addr_char :: "char \<Rightarrow> bool" where
  "addr_char c = (alnum (byte c) \<or> c \<in> set ''.:?<>'')"

lemma join_with_chars: "c \<in> set (join_with sep xs) \<Longrightarrow> c \<in> set sep \<or> (\<exists>x \<in> set xs. c \<in> set x)"
  by (induction sep xs rule: join_with.induct) auto

lemma nat_hex_chars: "c \<in> set (nat_hex n) \<Longrightarrow> alnum (byte c)"
proof (induction n rule: nat_hex.induct)
  case (1 n)
  have d: "alnum (byte (if k < 10 then char_of (48 + k) else char_of (87 + k)))" if "k < 16" for k :: nat
    using that by (auto simp: char_class_defs)
  show ?case using 1 d [of n] d [of "n mod 16"] by (auto simp: nat_hex.simps [of n] Let_def split: if_splits)
qed

lemma ip_string_chars: "c \<in> set (ip_string p) \<Longrightarrow> addr_char c"
proof -
  assume c: "c \<in> set (ip_string p)"
  have d: "alnum (byte c)" if "c \<in> set (nat_dec n)" for n
    using nat_dec_digits [OF that] by (auto simp: char_class_defs)
  have "addr_char c" if "c \<in> set (dotted q)" for q
    using join_with_chars [OF that [unfolded dotted_def]] d by (auto simp: addr_char_def)
  moreover have "addr_char c" if "c \<in> set (v6_string q)" for q
    using that nat_hex_chars by (auto simp: v6_string_def Let_def addr_char_def dest!: join_with_chars split: option.splits)
  moreover have "list_all addr_char ''<nil>''" "list_all addr_char ''?''" by (simp_all add: addr_char_def char_class_defs)
  ultimately show ?thesis using c by (auto simp: ip_string_def list_all_iff split: if_splits option.splits)
qed

lemma alnum_plain: "alnum (byte c) \<Longrightarrow> plain_char c \<and> c \<noteq> CHR 0x0A"
  by (auto simp: char_class_defs plain_char_def)

lemma addr_char_line: "addr_char c \<Longrightarrow> c \<noteq> CHR 0x0A"
  using alnum_plain by (auto simp: addr_char_def)

lemma veth_chars: "\<forall>c \<in> set (fst (vethNames (tapName vid))). alnum (byte c)" "fst (vethNames (tapName vid)) \<noteq> []"
proof -
  define base where "base = (let b = (if prefix ''w'' (tapName vid) then drop 1 (tapName vid) else tapName vid) in if b = [] then ''tap'' else b)"
  have v: "fst (vethNames (tapName vid)) = take 15 (''h'' @ base)" by (simp add: vethNames_def base_def Let_def)
  have "\<forall>c \<in> set base. alnum (byte c)"
    using tapName_shape(1) [of vid] by (auto simp: base_def Let_def char_class_defs dest: in_set_dropD)
  then show "\<forall>c \<in> set (fst (vethNames (tapName vid))). alnum (byte c)"
    unfolding v by (auto simp: char_class_defs dest!: in_set_takeD)
  show "fst (vethNames (tapName vid)) \<noteq> []" unfolding v by simp
qed

lemma nftTable_chars: "CHR 0x0A \<notin> set (nftTable vid)"
proof -
  have m: "\<forall>c \<in> set (strings_map (\<lambda>r. if alnum r \<or> r = 95 then Some r else Some 95) vid). byte c < 0x80 \<and> (alnum (byte c) \<or> byte c = 95)"
    by (rule strings_map_bytes) (auto dest: alnum_ascii split: if_splits)
  have "\<not> (alnum (byte (CHR 0x0A)) \<or> byte (CHR 0x0A) = 95)" by (simp add: char_class_defs)
  with m have "CHR 0x0A \<notin> set (strings_map (\<lambda>r. if alnum r \<or> r = 95 then Some r else Some 95) vid)" by blast
  then show ?thesis by (simp add: nftTable_def)
qed

text \<open>The lines of the text, with the interface quoted.\<close>

definition ruleset :: "string \<Rightarrow> string \<Rightarrow> string \<Rightarrow> string list \<Rightarrow> string list \<Rightarrow> string list" where
  "ruleset table dev guest v4 v6 =
     [''table inet '' @ table @ '' {'',
      ''  chain forward {'',
      ''    type filter hook forward priority 0; policy drop;'',
      ''    iifname '' @ dev @ '' ct state established,related accept'',
      ''    oifname '' @ dev @ '' ct state established,related accept'']
     @ (if v4 = [] then [] else [''    iifname '' @ dev @ '' ip daddr { '' @ join_with '', '' v4 @ '' } accept''])
     @ (if v6 = [] then [] else [''    iifname '' @ dev @ '' ip6 daddr { '' @ join_with '', '' v6 @ '' } accept''])
     @ [''  }'',
        ''  chain postrouting {'',
        ''    type nat hook postrouting priority 100; policy accept;'',
        ''    oifname != '' @ dev @ '' ip saddr '' @ guest @ '' masquerade'',
        ''  }'', ''}'']"

lemma ruleset_single_lines:
  assumes "d \<notin> set table" "d \<notin> set dev" "d \<notin> set guest" "d \<notin> set (join_with '', '' v4)" "d \<notin> set (join_with '', '' v6)"
    and "d = CHR 0x0A"
  shows "\<forall>x \<in> set (ruleset table dev guest v4 v6). d \<notin> set x"
  using assms(1-5) unfolding list_all_iff [symmetric] by (simp add: ruleset_def assms(6))

lemma ruleset_lines:
  "split_on (CHR 0x0A) (RenderNFT u (new_link vid (a, b) up30) allow) =
     ruleset (nftTable vid) ([CHR 0x22] @ fst (vethNames (tapName vid)) @ [CHR 0x22]) (ip_string b)
       (map ip_string (filter (\<lambda>p. to4 p \<noteq> None) allow)) (map ip_string (filter (\<lambda>p. to4 p = None) allow)) @ [[]]"
proof -
  let ?l = "new_link vid (a, b) up30" and ?h = "fst (vethNames (tapName vid))"
  let ?v4 = "map ip_string (filter (\<lambda>p. to4 p \<noteq> None) allow)" and ?v6 = "map ip_string (filter (\<lambda>p. to4 p = None) allow)"
  let ?rs = "ruleset (nftTable vid) ([CHR 0x22] @ ?h @ [CHR 0x22]) (ip_string b) ?v4 ?v6"
  have f: "l_Table ?l = nftTable vid" "l_HostVeth ?l = ?h" "l_GuestIP ?l = b"
    by (simp_all add: new_link_def Let_def case_prod_beta)
  have q: "go_quote u (FilterIface (Some ?l)) = [CHR 0x22] @ ?h @ [CHR 0x22]"
    using go_quote_plain [of ?h u] veth_chars [of vid] alnum_plain by (simp add: FilterIface_def f)
  have n: "CHR 0x0A \<notin> set (ip_string p)" for p using ip_string_chars addr_char_line by blast
  have "RenderNFT u ?l allow = concat (map (\<lambda>l. l @ [CHR 0x0A]) ?rs)"
    by (simp add: RenderNFT_def Let_def q f ruleset_def nl_def)
  moreover have "\<forall>x \<in> set ?rs. CHR 0x0A \<notin> set x"
  proof (rule ruleset_single_lines)
    show "CHR 0x0A \<notin> set ([CHR 0x22] @ ?h @ [CHR 0x22])" using veth_chars(1) [of vid] alnum_plain by auto
    show "CHR 0x0A \<notin> set (ip_string b)" by (rule n)
    show "CHR 0x0A \<notin> set (join_with '', '' ?v4)" "CHR 0x0A \<notin> set (join_with '', '' ?v6)"
      by (auto simp: n dest!: join_with_chars)
  qed (rule nftTable_chars refl)+
  ultimately show ?thesis using split_on_lines [of ?rs] by simp
qed

lemma accept_rev: "suffix '' accept'' x \<longleftrightarrow> prefix ''tpecca '' (rev x)"
  by (simp add: suffix_to_prefix)

lemma ruleset_accepts:
  "filter (suffix '' accept'') (ruleset table dev guest v4 v6) =
     [''    iifname '' @ dev @ '' ct state established,related accept'',
      ''    oifname '' @ dev @ '' ct state established,related accept'']
     @ (if v4 = [] then [] else [''    iifname '' @ dev @ '' ip daddr { '' @ join_with '', '' v4 @ '' } accept''])
     @ (if v6 = [] then [] else [''    iifname '' @ dev @ '' ip6 daddr { '' @ join_with '', '' v6 @ '' } accept''])"
  unfolding accept_rev by (simp add: ruleset_def)

lemma ruleset_chains:
  "filter (prefix ''    type '') (ruleset table dev guest v4 v6) =
     [''    type filter hook forward priority 0; policy drop;'', ''    type nat hook postrouting priority 100; policy accept;'']"
  by (simp add: ruleset_def)

section \<open>Properties\<close>

lemma addr_ne: "addr16 a \<noteq> addr16 b \<Longrightarrow> a \<noteq> b" "take 2 a \<noteq> take 2 b \<Longrightarrow> a \<noteq> b"
  by auto

text \<open>
  C26. The four addresses of a link never meet those of a link made at another value of the
  factory's counter, and host and guest end of a link share a /30 that no other link uses.
\<close>

theorem Setup_links_disjoint:
  assumes "Setup u t vid p (seq, w) = ((n, w1), Inr l)"
    and "Setup u' t' vid' p' (seq', w') = ((n', w1'), Inr l')" and "seq \<noteq> seq'"
  shows "{l_HostIP l, l_GuestIP l, l_UplinkHost l, l_UplinkNS l}
           \<inter> {l_HostIP l', l_GuestIP l', l_UplinkHost l', l_UplinkNS l'} = {}
       \<and> addr16 (l_HostIP l) div 4 = addr16 (l_GuestIP l) div 4
       \<and> addr16 (l_UplinkHost l) div 4 = addr16 (l_UplinkNS l) div 4
       \<and> addr16 (l_HostIP l) div 4 \<noteq> addr16 (l_HostIP l') div 4"
proof -
  note s = Setup_link [OF assms(1)] and s' = Setup_link [OF assms(2)]
  note a = s(2) [unfolded subnet30_def] s(3) [unfolded uplink30_def]
  note b = s'(2) [unfolded subnet30_def] s'(3) [unfolded uplink30_def]
  note la = pair30_layout [OF a(1)] pair30_layout [OF a(2)]
  note lb = pair30_layout [OF b(1)] pair30_layout [OF b(2)]
  have nn: "unat n \<noteq> unat n'" using assms(3) s(1) s'(1) by (simp add: word_unat_eq_iff [symmetric])
  have ge: "1 \<le> unat n" "1 \<le> unat n'"
    using unat_offset(3) pair30_cases [OF a(1)] pair30_cases [OF b(1)] by blast+
  define i j where "i = unat n - 1" and "j = unat n' - 1"
  have ij: "i \<noteq> j" using nn ge by (simp add: i_def j_def)
  have "(172 :: 8 word) \<noteq> 173" "(25 :: 8 word) \<noteq> 27" by simp_all
  then have nets: "[172, 25 :: 8 word] \<noteq> [172, 27]" by simp
  note la = la [folded i_def] and lb = lb [folded j_def]
  have dis: "l_HostIP l \<noteq> l_HostIP l'" "l_HostIP l \<noteq> l_GuestIP l'" "l_GuestIP l \<noteq> l_HostIP l'"
    "l_GuestIP l \<noteq> l_GuestIP l'" "l_UplinkHost l \<noteq> l_UplinkHost l'" "l_UplinkHost l \<noteq> l_UplinkNS l'"
    "l_UplinkNS l \<noteq> l_UplinkHost l'" "l_UplinkNS l \<noteq> l_UplinkNS l'"
    by - (rule addr_ne(1), use ij la(1,2,7,8) lb(1,2,7,8) in presburger)+
  have nd: "l_HostIP l \<noteq> l_UplinkHost l'" "l_HostIP l \<noteq> l_UplinkNS l'" "l_GuestIP l \<noteq> l_UplinkHost l'"
    "l_GuestIP l \<noteq> l_UplinkNS l'" "l_UplinkHost l \<noteq> l_HostIP l'" "l_UplinkHost l \<noteq> l_GuestIP l'"
    "l_UplinkNS l \<noteq> l_HostIP l'" "l_UplinkNS l \<noteq> l_GuestIP l'"
    by - (rule addr_ne(2), use nets la(3,4,9,10) lb(3,4,9,10) in simp)+
  have "addr16 (l_HostIP l) div 4 = i" "addr16 (l_GuestIP l) div 4 = i"
    "addr16 (l_UplinkHost l) div 4 = i" "addr16 (l_UplinkNS l) div 4 = i" "addr16 (l_HostIP l') div 4 = j"
    using la lb by simp_all
  with dis nd ij show ?thesis by (simp only:) blast
qed

definition quiet_tap :: "command list tap" where
  "quiet_tap = \<lparr>tap_Run = Some (\<lambda>c tr. (tr @ [c], None)), tap_Exec = \<lambda>c i tr. (tr, None), tap_Lookup = \<lambda>h. Inl (Errorf ''no DNS'' []),
     tap_IP = ''ip'', tap_Sudo = False, tap_LookPath = \<lambda>_. None, tap_Stat = \<lambda>_. False\<rparr>"

definition sample_policy :: policy where
  "sample_policy = \<lparr>DefaultPolicy = PolicyDeny, Allowlist = [''10.0.0.1'']\<rparr>"

lemma sample_precheck: "precheck quiet_tap sample_policy = Inr [ipv4 10 0 0 1]"
  by code_simp

lemma quiet_run_seq: "snd (run_seq quiet_tap cs w) = None"
  by (induction cs arbitrary: w) (simp_all add: tap_run_def quiet_tap_def)

lemma quiet_tap_apply:
  "validateNetNSName (l_NetNS l) = None \<Longrightarrow> snd (tap_apply u quiet_tap l ips w) = None"
  using quiet_run_seq [of "apply_cmds quiet_tap l" w]
  by (cases "run_seq quiet_tap (apply_cmds quiet_tap l) w")
    (simp add: tap_apply_def applyRules_def tap_run_def Let_def quiet_tap_def)

lemma quiet_Setup:
  assumes "subnet30 (seq + 1) = Inr a" and "uplink30 (seq + 1) = Inr b"
  shows "\<exists>w'. Setup u quiet_tap vid sample_policy (seq, w) = ((seq + 1, w'), Inr (new_link vid a b))"
proof -
  have "l_NetNS (new_link vid a b) = netnsName vid"
    by (simp add: new_link_def Let_def split: prod.split)
  then have "snd (tap_apply u quiet_tap (new_link vid a b) [ipv4 10 0 0 1] w) = None"
    using quiet_tap_apply netnsName_valid(2) by simp
  then show ?thesis using assms
    by (cases "tap_apply u quiet_tap (new_link vid a b) [ipv4 10 0 0 1] w")
      (simp add: Setup_def sample_precheck Let_def)
qed

theorem Setup_links_disjoint_witness:
  "\<exists>w1 l w2 l'. Setup ascii_tables quiet_tap ''s1'' sample_policy (0, []) = ((1, w1), Inr l)
     \<and> Setup ascii_tables quiet_tap ''s2'' sample_policy (1, w1) = ((2, w2), Inr l')
     \<and> l_HostIP l = [172, 25, 0, 1] \<and> l_HostIP l' = [172, 25, 0, 5]
     \<and> {l_HostIP l, l_GuestIP l, l_UplinkHost l, l_UplinkNS l}
         \<inter> {l_HostIP l', l_GuestIP l', l_UplinkHost l', l_UplinkNS l'} = {}"
proof -
  have s: "subnet30 (0 + 1) = Inr ([172, 25, 0, 1], [172, 25, 0, 2])" "uplink30 (0 + 1) = Inr ([172, 27, 0, 1], [172, 27, 0, 2])"
    "subnet30 (1 + 1) = Inr ([172, 25, 0, 5], [172, 25, 0, 6])" "uplink30 (1 + 1) = Inr ([172, 27, 0, 5], [172, 27, 0, 6])"
    by code_simp+
  obtain w1 where a: "Setup ascii_tables quiet_tap ''s1'' sample_policy (0, []) =
      ((1, w1), Inr (new_link ''s1'' ([172, 25, 0, 1], [172, 25, 0, 2]) ([172, 27, 0, 1], [172, 27, 0, 2])))"
    using quiet_Setup [OF s(1,2)] by fastforce
  obtain w2 where b: "Setup ascii_tables quiet_tap ''s2'' sample_policy (1, w1) =
      ((2, w2), Inr (new_link ''s2'' ([172, 25, 0, 5], [172, 25, 0, 6]) ([172, 27, 0, 5], [172, 27, 0, 6])))"
    using quiet_Setup [OF s(3,4)] by fastforce
  have "l_HostIP (new_link v x y) = fst x" for v x y
    by (simp add: new_link_def Let_def split: prod.split)
  then show ?thesis using a b Setup_links_disjoint [OF a b] by fastforce
qed

text \<open>
  C27. \<open>apply\<close> brings a link up completely or rolls it back, with \<open>os/exec\<close> or with any runner, with
  or without sudo. An invalid namespace name is an error before any command. Otherwise, if it returns
  no error, every command of the set-up succeeded, in order, up to the ruleset on nft's standard
  input; only the two forwarding commands may fail. If it returns an error, the commands before the
  failed one succeeded (but for these two), and after it every command of \<open>Teardown\<close> was called, whether the earlier
  ones of them succeed or not.
\<close>

theorem tap_apply_all_or_rollback:
  "case validateNetNSName (l_NetNS l) of
     Some e \<Rightarrow> tap_apply u t l ips w = (w, Some e) \<and> tap_apply u (observed t) l ips (w, []) = ((w, []), Some e)
   | None \<Rightarrow> \<exists>w' r made undo. tap_apply u t l ips w = (w', r)
       \<and> tap_apply u (observed t) l ips (w, []) = ((w', made @ undo), r)
       \<and> apply_ran u t l ips (r = None) made
       \<and> map call_of undo = (if r = None then [] else map (\<lambda>c. plain_call t (snd c)) (teardown_cmds t l))"
proof (cases "validateNetNSName (l_NetNS l)")
  case None
  obtain w' r where "tap_apply u t l ips w = (w', r)" by fastforce
  then show ?thesis using observed_apply [OF None, of u t ips w w' r "[]"] by (auto simp: None)
qed (simp add: tap_apply_def)


text \<open>
  \<open>resolveAllowlist\<close> fails exactly when some entry has no address; otherwise the
  addresses it returns have pairwise different texts and are, up to their text, those of all
  entries together.
\<close>

theorem resolveAllowlist_complete:
  "case resolveAllowlist es lookup of
     Inl _ \<Rightarrow> list_ex (\<lambda>raw. \<not> ok (entry_addrs lookup raw)) es
   | Inr ips \<Rightarrow> list_all (\<lambda>raw. ok (entry_addrs lookup raw)) es
       \<and> distinct (map ip_string ips)
       \<and> ip_string ` set ips =
           (\<Union>raw \<in> set es. \<Union>ps \<in> {ps. entry_addrs lookup raw = Inr ps}. ip_string ` set ps)"
proof (cases "resolveAllowlist es lookup")
  case (Inl e)
  then have "\<not> (\<forall>raw \<in> set es. ok (entry_addrs lookup raw))"
    using resolve_loop_total [of es lookup "[]" "[]"] by (auto simp: resolveAllowlist_def)
  with Inl show ?thesis by (auto simp: list_ex_iff)
next
  case (Inr ips)
  then show ?thesis
    using resolve_loop_spec [of lookup "[]" "[]" es ips]
    by (simp add: resolveAllowlist_def list_all_iff)
qed

text \<open>
  The names of a VM's interface and namespace are legal for every id: an interface name
  has at least one and at most 15 bytes, all alphanumeric; a namespace name passes
  \<open>validateNetNSName\<close> and is one path component, so its path stays below
  \<open>/var/run/netns\<close>.
\<close>

theorem derived_names_legal:
  "tapName vid \<noteq> [] \<and> length (tapName vid) \<le> 15 \<and> list_all (\<lambda>c. alnum (byte c)) (tapName vid)
   \<and> validateNetNSName (netnsName vid) = None \<and> path_name (netnsName vid)
   \<and> length (netnsName vid) \<le> 128
   \<and> path_base (NetNSPath (netnsName vid)) = netnsName vid"
  using tapName_shape [of vid] netnsName_valid [of vid] netnsName_chars(3) [of vid]
    path_base_join [OF _ netnsName_valid(1), of "''/var/run/netns''"]
  by (simp add: list_all_iff NetNSPath_def)

end
