(* ===== verification/FC_Props.thy ===== *)
theory FC_Props
  imports FC_Wiring Net_Tap_Facts
begin

text \<open>
  Properties of the wired Firecracker backend: what a failed boot leaves behind, which virtual
  machines get a network device, what \<open>Destroy\<close> releases, what a job returns, and that session
  snapshots never change the outcome of a job.
\<close>

section \<open>Failed boots\<close>

context quiet_deps
begin

lemma bootOne_failed:
  assumes "bootOne E cfg deps ctx sp reco s = (s', x)" and "\<forall>i. x \<noteq> Ret (Inr i)"
  shows "held_vmms (h_trace (fs_host s')) \<subseteq> held_vmms (h_trace (fs_host s))"
    and "held_links (h_trace (fs_host s')) \<subseteq> held_links (h_trace (fs_host s))"
proof -
  obtain w y where b: "boot_vm E cfg deps ctx sp reco (vm_name (fs_seq s + 1)) (choose_cid reco (next_cid (fs_cids s))) (fs_host s) = (w, y)"
    by fastforce
  have "fs_host s' = w" "\<forall>v. y \<noteq> Ret (Inr v)"
    using assms b by (auto simp: bootOne_def Let_def split: call.splits sum.splits)
  with boot_vm_accounts [OF b order.refl order.refl]
  show "held_vmms (h_trace (fs_host s')) \<subseteq> held_vmms (h_trace (fs_host s))"
    and "held_links (h_trace (fs_host s')) \<subseteq> held_links (h_trace (fs_host s))"
    by (auto split: call.splits sum.splits)
qed

lemma FC_Boot_failed:
  assumes "FC_Boot E cfg deps ctx sp s = (s', x)" and "\<forall>i. x \<noteq> Ret (Inr i)"
  shows "held_vmms (h_trace (fs_host s')) \<subseteq> held_vmms (h_trace (fs_host s)) \<and> held_links (h_trace (fs_host s')) \<subseteq> held_links (h_trace (fs_host s))"
proof (rule FC_Boot_cases [OF assms(1)])
  fix s1 rec s2 e s3
  assume s: "same s s1" "same s2 s3" and b: "bootOne E cfg deps ctx sp (Some rec) s1 = (s2, Ret (Inl e))"
    "bootOne E cfg deps ctx sp None s3 = (s', x)"
  show ?thesis using bootOne_failed [OF b(1)] bootOne_failed [OF b(2) assms(2)] s by (auto simp: same_def)
next
  fix s1 assume "same s s1" and b: "bootOne E cfg deps ctx sp None s1 = (s', x)"
  then show ?thesis using bootOne_failed [OF b assms(2)] by (auto simp: same_def)
next
  fix s1 rec assume "same s s1" and b: "bootOne E cfg deps ctx sp (Some rec) s1 = (s', x)"
  then show ?thesis using bootOne_failed [OF b assms(2)] by (auto simp: same_def)
qed (auto simp: same_def)

end

section \<open>Which machines have a network device\<close>

text \<open>An event that gives a machine a network: a link comes up, or the API gets an interface.\<close>

fun network_event :: "fc_event \<Rightarrow> bool" where
  "network_event (ETapUp k) = True"
| "network_event (EApi (m, path, b)) = prefix ''/network-interfaces'' path"
| "network_event _ = False"

definition silent :: "fc_event list \<Rightarrow> fc_event list \<Rightarrow> bool" where
  "silent tr tr' = (\<exists>new. tr' = tr @ new \<and> (\<forall>ev \<in> set new. \<not> network_event ev))"

lemma silent_refl: "silent tr tr"
  by (simp add: silent_def)

lemma silent_snoc: "silent tr tr' \<Longrightarrow> \<not> network_event ev \<Longrightarrow> silent tr (tr' @ [ev])"
  by (fastforce simp: silent_def)

lemma silent_api: "silent tr tr' \<Longrightarrow> \<forall>c \<in> set cs. \<not> network_event (EApi c) \<Longrightarrow> silent tr (tr' @ map EApi cs)"
  by (fastforce simp: silent_def)

lemma silent_trans: "silent a b \<Longrightarrow> silent b c \<Longrightarrow> silent a c"
  by (auto simp: silent_def)

lemma api_seq_set: "set (fst (api_seq srv cs)) \<subseteq> set cs"
  using set_mono_prefix [OF api_seq_prefix] .

definition netless :: "fc_event list \<Rightarrow> 'n launching \<Rightarrow> bool" where
  "netless tr l = (vi_tap (la_vm l) = None \<and> la_nic l = None \<and> silent tr (h_trace (la_host l)))"

lemma boot_calls_netless: "la_nic l = None \<Longrightarrow> c \<in> set (boot_calls cfg sp l) \<Longrightarrow> \<not> network_event (EApi c)"
  by (auto simp: boot_calls_def configure_def put_call_def drive_id_def)

lemma restore_calls_netless: "c \<in> set (restore_calls cfg rec l) \<Longrightarrow> \<not> network_event (EApi c)"
  by (auto simp: restore_calls_def put_call_def loadSnapshot_def split: if_splits)

lemma whileAlive_netless:
  assumes "netless tr l" and "\<forall>c \<in> set calls. \<not> network_event (EApi c)"
  shows "netless tr (fst (whileAlive E ctx calls l))"
proof -
  obtain made r where a: "api_seq (fe_api E (h_step (la_host l))) calls = (made, r)" by fastforce
  then have "\<forall>c \<in> set made. \<not> network_event (EApi c)" using api_seq_set [of "fe_api E (h_step (la_host l))" calls] assms(2) by auto
  with assms(1) show ?thesis by (auto simp: whileAlive_def netless_def Let_def a intro: silent_api)
qed

context quiet_deps
begin

lemma run_launch_netless:
  assumes "case reco of None \<Rightarrow> Allowlist (sp_Network sp) = [] | Some rec \<Rightarrow> \<not> sr_HasNetwork rec"
  shows "stays (netless tr) (run_launch E cfg deps ctx sp reco)"
proof (rule run_launch_stays)
  fix f assume "basic_stage E cfg deps sp reco f"
  then show "stays (netless tr) f"
  proof cases
    case (12 ctx)
    have "netless tr (fst (whileAlive E ctx (boot_calls cfg sp l) l))" if "netless tr l" for l :: "'n launching"
      by (rule whileAlive_netless [OF that]) (use that boot_calls_netless [of l] in \<open>auto simp: netless_def\<close>)
    with 12 show ?thesis by (simp add: stays_def)
  next
    case (13 c)
    then show ?thesis by (auto simp: stays_def startInstance_def put_call_def intro!: whileAlive_netless)
  next
    case (14 rec ctx)
    have "netless tr (fst (whileAlive E ctx (restore_calls cfg rec l) l))" if "netless tr l" for l :: "'n launching"
      by (rule whileAlive_netless [OF that]) (use restore_calls_netless [of _ cfg rec l] in blast)
    with 14 show ?thesis by (simp add: stays_def)
  qed (use assms in \<open>intro staysI; auto simp: netless_def stage_defs silent_snoc split: prod.splits sum.splits option.splits if_splits
      dest!: on_fs_eq_trace quietD [OF prepareJail_quiet] quietD [OF place_quiet] quietD [OF attach_quiet]\<close>)+
qed (auto simp: netless_def kill_def silent_snoc split: option.split)

end

context quiet_deps
begin

text \<open>Without a link to tear down, \<open>finish_boot\<close> adds no network event either.\<close>

lemma boot_vm_netless:
  assumes "boot_vm E cfg deps ctx sp reco vid cid w = (w', x)"
    and "case reco of None \<Rightarrow> Allowlist (sp_Network sp) = [] | Some rec \<Rightarrow> \<not> sr_HasNetwork rec"
  shows "silent (h_trace w) (h_trace w') \<and> (\<forall>v. x = Ret (Inr v) \<longrightarrow> vi_tap v = None)"
proof -
  obtain w1 r1 where m: "mk_workdir cfg vid w = (w1, r1)" by fastforce
  obtain w2 r2 where f: "first_record deps sp vid reco w1 = (w2, r2)" by fastforce
  have tr: "h_trace w1 = h_trace w" "h_trace w2 = h_trace w"
    using quietD [OF mk_workdir_quiet m] quietD [OF first_record_quiet f] by simp_all
  show ?thesis
  proof (cases "r1 = None \<and> ok r2")
    case False
    then have "h_trace w' = h_trace w \<and> (\<exists>e. x = Ret (Inl e))"
      using assms(1) m f tr by (auto simp: boot_vm_def split: option.splits sum.splits)
    then show ?thesis using silent_refl by auto
  next
    case True
    then obtain r0 where r: "r1 = None" "r2 = Inr r0" by (cases r2) auto
    define l0 where "l0 = start_launch cfg ((new_vm cfg sp vid cid)\<lparr>vi_snapRec := r0\<rparr>) w2"
    obtain l r3 where l: "run_launch E cfg deps ctx sp reco l0 = (l, r3)" by fastforce
    have x: "finish_boot deps (l, r3) = (w', x)" using assms(1) m f r l by (simp add: boot_vm_def l0_def)
    have "netless (h_trace w) l0" by (simp add: netless_def l0_def start_launch_def new_vm_def Let_def tr silent_refl)
    then have n: "netless (h_trace w) l" using staysD [OF run_launch_netless [OF assms(2)] _ l] by blast
    then have t: "fd_Tap deps \<noteq> None \<or> vi_tap (la_vm l) = None" by (simp add: netless_def)
    show ?thesis using x n teardown_trace [OF t, of "la_host l"]
      by (auto simp: finish_boot_def netless_def cleanupFiles_trace silent_snoc split: option.splits if_splits)
  qed
qed

lemma bootOne_netless:
  assumes "bootOne E cfg deps ctx sp reco s = (s', x)"
    and "case reco of None \<Rightarrow> Allowlist (sp_Network sp) = [] | Some rec \<Rightarrow> \<not> sr_HasNetwork rec"
  shows "silent (h_trace (fs_host s)) (h_trace (fs_host s')) \<and> (\<forall>i. x = Ret (Inr i) \<longrightarrow> vi_tap (fs_vms s' ! i) = None)"
proof -
  obtain w y where b: "boot_vm E cfg deps ctx sp reco (vm_name (fs_seq s + 1)) (choose_cid reco (next_cid (fs_cids s))) (fs_host s) = (w, y)"
    by fastforce
  have "fs_host s' = w" "x = Ret (Inr i) \<Longrightarrow> y = Ret (Inr (fs_vms s' ! i))" for i
    using assms b by (auto simp: bootOne_def Let_def split: call.splits sum.splits)
  with boot_vm_netless [OF b assms(2)] show ?thesis by blast
qed

lemma FC_Boot_netless:
  assumes "FC_Boot E cfg deps ctx sp s = (s', x)" and "Allowlist (sp_Network sp) = []"
  shows "silent (h_trace (fs_host s)) (h_trace (fs_host s')) \<and> (\<forall>i. x = Ret (Inr i) \<longrightarrow> vi_tap (fs_vms s' ! i) = None)"
proof (rule FC_Boot_cases [OF assms(1)])
  fix s1 rec s2 e s3
  assume s: "same s s1" "same s2 s3" and m: "networkMatches (Some rec) (sp_Network sp)"
    and b: "bootOne E cfg deps ctx sp (Some rec) s1 = (s2, Ret (Inl e))" "bootOne E cfg deps ctx sp None s3 = (s', x)"
  have "\<not> sr_HasNetwork rec" using m assms(2) by (simp add: networkMatches_def)
  then show ?thesis using bootOne_netless [OF b(1)] bootOne_netless [OF b(2)] s assms(2) silent_trans by (auto simp: same_def)
next
  fix s1 assume "same s s1" and b: "bootOne E cfg deps ctx sp None s1 = (s', x)"
  then show ?thesis using bootOne_netless [OF b] assms(2) by (simp add: same_def)
next
  fix s1 rec assume "same s s1" and m: "networkMatches (Some rec) (sp_Network sp)"
    and b: "bootOne E cfg deps ctx sp (Some rec) s1 = (s', x)"
  then show ?thesis using bootOne_netless [OF b] assms(2) by (simp add: same_def networkMatches_def)
qed (auto simp: same_def silent_refl)

end

section \<open>A job through the vsock\<close>

text \<open>
  A machine whose agent answers: the handshake succeeds, nothing else arrives before the
  request, and what arrives after it is what the agent's \<open>handle\<close> sends back.
\<close>

definition agent_conn :: "unicode_tables \<Rightarrow> guest_os \<Rightarrow> string \<Rightarrow> gerr \<Rightarrow> vsock_conn" where
  "agent_conn u g port e = \<lparr>vc_dial = None, vc_connect = (\<lambda>_. None), vc_greeting = ''OK '' @ port @ [CHR 0x0A],
     vc_serve = (\<lambda>out. case snd (handle u g e out None) of None \<Rightarrow> Inr [] | Some reply \<Rightarrow> Inr reply), vc_end = e\<rparr>"

lemma agent_exchange:
  assumes "fits64 (gq_TimeoutS (guest_request_of v req))" and "fits64 (MemoryBytes (vi_limits v))" and "fits64 (PIDsMax (vi_limits v))"
    and "\<And>pid t n. jb_wait (g_run g pid t) = WaitExit n \<Longrightarrow> fits64 n" and "all_digits port"
  shows "vm_exchange (agent_conn u g port e) v req
    = Inr (Inr (received_response (snd (guest_execute u g (received_request (guest_request_of v req))))))"
proof -
  have d: "dialGuestVsock (agent_conn u g port e) (vi_vsockUDS v) (vi_port v) = Inr []"
    by (rule dial_keeps_stream [of _ port]) (simp_all add: agent_conn_def assms(5))
  obtain out where o: "WriteRequest None (guest_request_of v req) = Inr out" by (auto simp: WriteRequest_def)
  have f: "fits64 (gq_MemoryBytes (guest_request_of v req))" "fits64 (gq_PIDsMax (guest_request_of v req))"
    using assms(2,3) by (simp_all add: guest_request_of_def)
  have "\<exists>reply. snd (handle u g e out None) = Some reply
    \<and> ReadResponse e reply = Inr (received_response (snd (guest_execute u g (received_request (guest_request_of v req)))))"
    by (rule guest_reply [OF assms(1) f _ o]) (rule assms(4))
  then obtain reply where "snd (handle u g e out None) = Some reply"
    and "ReadResponse e reply = Inr (received_response (snd (guest_execute u g (received_request (guest_request_of v req)))))"
    by blast
  then show ?thesis by (simp add: vm_exchange_def d o) (simp add: agent_conn_def)
qed

section \<open>The link of a restored session\<close>

text \<open>A record holds the text of each address; reading it back gives the 16-byte form.\<close>

definition wide_link :: "link \<Rightarrow> link" where
  "wide_link k = k\<lparr>l_HostIP := v4_in_6 (l_HostIP k), l_GuestIP := v4_in_6 (l_GuestIP k),
     l_UplinkHost := v4_in_6 (l_UplinkHost k), l_UplinkNS := v4_in_6 (l_UplinkNS k)\<rparr>"

lemma four_bytes: "length a = 4 \<Longrightarrow> \<exists>p q r s. a = [p, q, r, s]"
  by (simp add: length_Suc_conv eval_nat_numeral) blast

lemma ip_string_wide: "length a = 4 \<Longrightarrow> ip_string (v4_in_6 a) = ip_string a"
  by (auto simp: ip_string_def v4_in_6_def to4_def dest!: four_bytes)

lemma parse_ipString: "length a = 4 \<Longrightarrow> parse_ip (ipString a) = Some (v4_in_6 a)"
  by (auto simp: ipString_def ip_string_def to4_def parse_ip_dotted ipv4_def dest!: four_bytes)

definition plain_link :: "link \<Rightarrow> bool" where
  "plain_link k = (length (l_HostIP k) = 4 \<and> length (l_GuestIP k) = 4 \<and> length (l_UplinkHost k) = 4 \<and> length (l_UplinkNS k) = 4
     \<and> l_Prefix k = 30)"

lemma record_link: "plain_link k \<Longrightarrow> linkFromRecord (Some (fillRecordNetwork rec (Some k))) = Some (wide_link k)"
  by (simp add: linkFromRecord_def fillRecordNetwork_def Let_def plain_link_def parse_ipString wide_link_def)

lemma wide_commands:
  assumes "plain_link k"
  shows "apply_cmds t (wide_link k) = apply_cmds t k" "teardown_cmds t (wide_link k) = teardown_cmds t k"
    "RenderNFT u (wide_link k) ips = RenderNFT u k ips" "GuestSubnet (Some (wide_link k)) = GuestSubnet (Some k)"
proof -
  have s: "ip_string (v4_in_6 (l_HostIP k)) = ip_string (l_HostIP k)" "ip_string (v4_in_6 (l_GuestIP k)) = ip_string (l_GuestIP k)"
    "ip_string (v4_in_6 (l_UplinkHost k)) = ip_string (l_UplinkHost k)" "ip_string (v4_in_6 (l_UplinkNS k)) = ip_string (l_UplinkNS k)"
    using assms by (simp_all add: plain_link_def ip_string_wide)
  have t4: "to4 (v4_in_6 (l_HostIP k)) = to4 (l_HostIP k)" using assms to4_v4_in_6 [of "l_HostIP k"] by (auto simp: plain_link_def to4_def [of "l_HostIP k"])
  show g: "GuestSubnet (Some (wide_link k)) = GuestSubnet (Some k)"
    by (simp add: GuestSubnet_def wide_link_def t4 split: option.split)
  have n: "v4_in_6 (l_UplinkNS k) \<noteq> []" "l_UplinkNS k \<noteq> []" using assms by (auto simp: plain_link_def v4_in_6_def)
  show "apply_cmds t (wide_link k) = apply_cmds t k" unfolding apply_cmds_def g
    by (simp add: wide_link_def cidr_def s n)
  show "teardown_cmds t (wide_link k) = teardown_cmds t k" unfolding teardown_cmds_def g
    by (simp add: wide_link_def)
  show "RenderNFT u (wide_link k) ips = RenderNFT u k ips"
    by (simp add: RenderNFT_def wide_link_def FilterIface_def s)
qed

lemma wide_apply:
  assumes "plain_link k"
  shows "tap_apply u t (wide_link k) ips w = tap_apply u t k ips w" "Teardown t (Some (wide_link k)) w = Teardown t (Some k) w"
proof -
  show td: "Teardown t (Some (wide_link k)) w = Teardown t (Some k) w" for w
    by (simp add: Teardown_def wide_commands [OF assms])
  have "l_NetNS (wide_link k) = l_NetNS k" by (simp add: wide_link_def)
  then show "tap_apply u t (wide_link k) ips w = tap_apply u t k ips w"
    by (simp add: tap_apply_def wide_commands [OF assms] td cong: option.case_cong)
qed

lemma fillDerived_id:
  "l_HostVeth k \<noteq> [] \<Longrightarrow> l_NSVeth k \<noteq> [] \<Longrightarrow> l_NetNS k \<noteq> [] \<Longrightarrow> l_NetNSPath k \<noteq> [] \<Longrightarrow> l_Table k \<noteq> [] \<Longrightarrow> l_Prefix k \<noteq> 0 \<Longrightarrow>
     fillDerived k = k"
  by (simp add: fillDerived_def)

lemma new_link_sel:
  "l_HostVeth (new_link vid x y) = fst (vethNames (tapName vid))" "l_NSVeth (new_link vid x y) = snd (vethNames (tapName vid))"
  "l_NetNS (new_link vid x y) = netnsName vid" "l_NetNSPath (new_link vid x y) = NetNSPath (netnsName vid)"
  "l_Table (new_link vid x y) = nftTable vid" "l_Prefix (new_link vid x y) = 30" "l_Name (new_link vid x y) = tapName vid"
  by (simp_all add: new_link_def Let_def split: prod.split)

lemma Setup_new_link:
  assumes "Setup u t vid p (seq, w) = ((n, w'), Inr k)"
  shows "plain_link k" "fillDerived (wide_link k) = wide_link k"
proof -
  note s = Setup_link [OF assms]
  note a = pair30_layout [OF s(2) [unfolded subnet30_def]] pair30_layout [OF s(3) [unfolded uplink30_def]]
  obtain x y where k: "k = new_link vid x y"
    using assms by (auto simp: Setup_def Let_def split: sum.splits prod.splits option.splits)
  show "plain_link k" using a by (simp add: plain_link_def k new_link_sel)
  have n: "fst (vethNames (tapName vid)) \<noteq> []" "snd (vethNames (tapName vid)) \<noteq> []" "nftTable vid \<noteq> []"
    by (simp_all add: vethNames_def nftTable_def Let_def)
  have p: "NetNSPath (netnsName vid) \<noteq> []"
    unfolding NetNSPath_def by (rule path_join_nonempty) (simp_all add: netnsName_valid)
  show "fillDerived (wide_link k) = wide_link k"
    by (rule fillDerived_id) (simp_all add: wide_link_def k new_link_sel n p netnsName_chars(2))
qed

section \<open>Reachable states of the backend\<close>

text \<open>
  The calls of the backend in any order, and between them anything that happens on the host
  without it: guests write their disks, the pool is filled, time passes.
\<close>

inductive fc_step :: "fc_env \<Rightarrow> fc_config \<Rightarrow> 'n fc_deps \<Rightarrow> 'n fc_state \<Rightarrow> 'n fc_state \<Rightarrow> bool" for E cfg deps where
  boot: "FC_Boot E cfg deps ctx sp s = (s', x) \<Longrightarrow> fc_step E cfg deps s s'"
| execute: "FC_Execute E deps ctx i req s = (s', x) \<Longrightarrow> fc_step E cfg deps s s'"
| destroy: "FC_Destroy E deps ctx i s = (s', r) \<Longrightarrow> fc_step E cfg deps s s'"
| outside: "h_trace w = h_trace (fs_host s) \<Longrightarrow> fc_step E cfg deps s (s\<lparr>fs_host := w\<rparr>)"

inductive_cases fc_stepE: "fc_step E cfg deps s s'"

context quiet_deps
begin

lemma fc_step_inv: "fc_step E cfg deps s s' \<Longrightarrow> fc_inv deps s \<Longrightarrow> fc_inv deps s'"
  by (erule fc_stepE) (auto dest: FC_Boot_inv FC_Execute_inv FC_Destroy_inv simp: same_inv [unfolded same_def])

lemma fc_reach_inv: "(fc_step E cfg deps)\<^sup>*\<^sup>* s s' \<Longrightarrow> fc_inv deps s \<Longrightarrow> fc_inv deps s'"
  by (induction rule: rtranclp_induct) (auto intro: fc_step_inv)

end

lemma New_inv:
  assumes "NewFirecrackerWithConfig E sc cfg (wire E u t cg st pool) w = (c, deps, s)" and "h_trace w = []"
  shows "fc_inv deps s"
  using New_wired [OF assms(1)] assms(2) by (simp add: fc_inv_def held_vmms_def held_links_def)

section \<open>An example machine\<close>

definition demo_conn :: vsock_conn where
  "demo_conn = agent_conn ascii_tables sample_guest ''5'' (Sentinel ''io.EOF'')"

definition demo_env :: "int \<Rightarrow> fc_env" where
  "demo_env status = \<lparr>fe_go = \<lparr>ge_Getenv = \<lambda>_. [], ge_ParseDuration = \<lambda>_. None, ge_Getwd = Inr ''/'', ge_User = Inr (''1'', ''1'')\<rparr>,
     fe_cp = copyFile, fe_start = (\<lambda>_ _ _. Inr 42), fe_exists = (\<lambda>_ _ _. True), fe_api = (\<lambda>_ _. Inr (status, [])),
     fe_vmm = (\<lambda>_ _ s. s), fe_race = (\<lambda>_. RFinished), fe_conn = (\<lambda>_. demo_conn), fe_exits = (\<lambda>_. True), fe_kill = (\<lambda>_ _. None), fe_took = (\<lambda>_. 1),
     fe_hole = (\<lambda>_ _ _. False), fe_sparseOS = (\<lambda>_. no_faults), fe_look = (\<lambda>_. None), fe_stat = (\<lambda>_. False), fe_text = (\<lambda>_. [])\<rparr>"

definition demo_cfg :: fc_config where
  "demo_cfg = DefaultConfig\<lparr>fc_Binary := ''/fc'', fc_Kernel := ''/k'', fc_Rootfs := ''/g'', fc_WorkDir := ''/w'', fc_SnapshotDir := []\<rparr>"

definition demo_host :: "unit net_host" where
  "demo_host = \<lparr>h_fs = \<lparr>fs_tree = [''/'' \<mapsto> Dir, ''/fc'' \<mapsto> File ''b'', ''/k'' \<mapsto> File ''k'', ''/g'' \<mapsto> File ''g''],
       fs_fault = \<lambda>_. None, fs_count = 0, fs_gone = \<lambda>_ _. False\<rparr>,
     h_net = (0, ()), h_pool = None, h_now = 0, h_step = 0, h_trace = []\<rparr>"

definition demo_spec :: spec where
  "demo_spec = \<lparr>sp_Language = ''python'', sp_SessionID = [], sp_Limits = DefaultProfile,
     sp_Seccomp = \<lparr>DefaultAction = [], Architectures = [], Syscalls = []\<rparr>, sp_Network = Default\<rparr>"

definition demo_deps :: "(32 word \<times> unit) fc_deps" where
  "demo_deps = \<lparr>fd_Cgroup = None, fd_Tap = None, fd_Snapshots = None, fd_Pool = None\<rparr>"

definition demo_start :: "(32 word \<times> unit) fc_state" where
  "demo_start = \<lparr>fs_seq = 0, fs_cids = 2, fs_vms = [], fs_host = demo_host\<rparr>"

lemma demo_wire: "demo_deps = wire E u None None None False"
  by (simp add: demo_deps_def wire_def)

lemma demo_quiet: "quiet_deps demo_deps"
  unfolding demo_wire [of "demo_env 0" ascii_tables] by (rule wired.quiet_deps_axioms)

text \<open>A boot whose first API call is refused, and one that succeeds.\<close>

definition demo_boot :: "int \<Rightarrow> (32 word \<times> unit) fc_state \<times> nat res call" where
  "demo_boot status = FC_Boot (demo_env status) demo_cfg demo_deps Background demo_spec demo_start"

lemma demo_boot_fails:
  "(case demo_boot 400 of (s, Ret (Inl _)) \<Rightarrow> h_trace (fs_host s) | _ \<Rightarrow> [])
     = [EStart 42 [''/fc'', ''--api-sock'', ''/w/fc-1/api.sock''] ''/w/fc-1'',
        EApi (''PUT'', ''/logger'', fcLogger ''/w/fc-1/firecracker.log'' ''Info'' True False),
        EKill 42 None, ERemoveAll ''/w/fc-1'' None]"
  by code_simp

lemma demo_boot_works:
  "(case demo_boot 204 of (s, Ret (Inr i)) \<Rightarrow> (i, length (fs_vms s), length (h_trace (fs_host s)), vi_pid (fs_vms s ! 0), vi_cid (fs_vms s ! 0),
      vi_id (fs_vms s ! 0), vi_dead (fs_vms s ! 0), vi_language (fs_vms s ! 0), h_step (fs_host s)) | _ \<Rightarrow> (1, 0, 0, None, 0, [], True, [], 0))
     = (0, 1, 7, Some 42, 3, ''fc-1'', False, ''python'', 6)"
  by code_simp

section \<open>Properties\<close>

text \<open>
  C3. Whatever the order of boots, jobs and teardowns, and whatever fails in them, every VMM that
  runs belongs to an instance that has not been destroyed, or a kill of it has failed; every TAP link
  that is up belongs to an instance that has not been destroyed, or a \<open>Teardown\<close> of it has returned an
  error; and no instance has one of the reserved vsock context ids.
\<close>

theorem no_orphan_vmm:
  assumes "NewFirecrackerWithConfig E sc cfg (wire E u t cg st pool) w = (c, deps, s0)" and "h_trace w = []"
    and "(fc_step E c deps)\<^sup>*\<^sup>* s0 s"
  shows "running (h_trace (fs_host s)) \<subseteq> live_pids (fs_vms s) \<union> unkilled (h_trace (fs_host s))
    \<and> taps_up (h_trace (fs_host s)) \<subseteq> live_taps (fs_vms s) \<union> stuck_links (h_trace (fs_host s))
    \<and> (\<forall>v \<in> set (fs_vms s). 3 \<le> vi_cid v)"
proof -
  obtain st' pool' where d: "deps = wire E u t cg st' pool'" using New_wired(1) [OF assms(1)] by blast
  have "fc_inv deps s" using wired.fc_reach_inv assms(3) New_inv [OF assms(1,2)] unfolding d by blast
  then show ?thesis
    using running_held [of "h_trace (fs_host s)"] taps_up_held [of "h_trace (fs_host s)"] by (auto simp: fc_inv_def vm_sound_def list_all_iff)
qed

theorem no_orphan_vmm_witness:
  "running (h_trace (fs_host (fst (demo_boot 204)))) = {42} \<and> 42 \<in> live_pids (fs_vms (fst (demo_boot 204)))"
proof -
  define c where "c = fill_config (fe_go (demo_env 204)) demo_cfg"
  have c: "c = demo_cfg" unfolding c_def
    by (simp add: fill_config_def demo_cfg_def DefaultConfig_def DefaultPort_def absPath_def is_abs_def)
  have n: "NewFirecrackerWithConfig (demo_env 204) \<lparr>sc_marshal = \<lambda>_. Inr [], sc_unmarshal = \<lambda>_. Inr zero_record\<rparr> demo_cfg
      (wire (demo_env 204) ascii_tables None None None False) demo_host = (demo_cfg, demo_deps, demo_start)"
    unfolding NewFirecrackerWithConfig_def demo_wire [symmetric] c_def [symmetric] c
    by (simp add: default_store_def default_pool_def demo_cfg_def demo_deps_def DefaultConfig_def demo_start_def)
  have r: "(fc_step (demo_env 204) demo_cfg demo_deps)\<^sup>*\<^sup>* demo_start (fst (demo_boot 204))"
    unfolding demo_boot_def by (rule r_into_rtranclp, rule fc_step.boot [OF surjective_pairing])
  have t: "h_trace demo_host = []" by (simp add: demo_host_def)
  have run: "running (h_trace (fs_host (fst (demo_boot 204)))) = {42}" by code_simp
  have "list_all (\<lambda>ev. case ev of EKill _ _ \<Rightarrow> False | _ \<Rightarrow> True) (h_trace (fs_host (fst (demo_boot 204))))" by code_simp
  then have "unkilled (h_trace (fs_host (fst (demo_boot 204)))) = {}" by (auto simp: unkilled_def list_all_iff)
  then show ?thesis using no_orphan_vmm [OF n t r] run by auto
qed

text \<open>
  C4. A boot that fails, at any step, leaves no VMM running and no TAP link up that was not there
  before, unless the kill of the VMM or the \<open>Teardown\<close> of the link, whose errors the code drops, has
  itself failed: in a cold boot, in a restore, and in the cold boot after a failed restore.
\<close>

theorem failed_boot_leaves_nothing:
  assumes "FC_Boot E cfg (wire E u t cg st pool) ctx sp s = (s', Ret (Inl e))"
  shows "running (h_trace (fs_host s')) \<subseteq> running (h_trace (fs_host s)) \<union> unkilled (h_trace (fs_host s'))
    \<and> taps_up (h_trace (fs_host s')) \<subseteq> taps_up (h_trace (fs_host s)) \<union> stuck_links (h_trace (fs_host s'))"
  using wired.FC_Boot_failed [OF assms] running_held [of "h_trace (fs_host s')"] taps_up_held [of "h_trace (fs_host s')"]
    held_running [of "h_trace (fs_host s)"] by auto

theorem failed_boot_leaves_nothing_witness:
  "EStart 42 [''/fc'', ''--api-sock'', ''/w/fc-1/api.sock''] ''/w/fc-1'' \<in> set (h_trace (fs_host (fst (demo_boot 400))))
     \<and> running (h_trace (fs_host (fst (demo_boot 400)))) = {}"
proof -
  obtain s e where b: "demo_boot 400 = (s, Ret (Inl e))"
    using demo_boot_fails by (auto split: prod.splits call.splits sum.splits)
  have "running (h_trace (fs_host s)) \<subseteq> running (h_trace (fs_host demo_start)) \<union> unkilled (h_trace (fs_host s))"
    using failed_boot_leaves_nothing b unfolding demo_boot_def demo_wire [of "demo_env 400" ascii_tables] by blast
  moreover have "running (h_trace (fs_host demo_start)) = {}" by (simp add: demo_start_def demo_host_def running_def)
  moreover have "unkilled (h_trace (fs_host s)) = {}" using demo_boot_fails b by (auto simp: unkilled_def)
  ultimately show ?thesis using demo_boot_fails b by auto
qed

text \<open>
  C5. A virtual machine booted with an empty egress allowlist has no network: during its boot no
  TAP link comes up, the VMM is never asked for a network interface, and the instance has no link,
  also when the boot restores a snapshot.
\<close>

theorem no_network_without_allowlist:
  assumes "FC_Boot E cfg (wire E u t cg st pool) ctx sp s = (s', x)" and "Allowlist (sp_Network sp) = []"
  shows "(\<exists>new. h_trace (fs_host s') = h_trace (fs_host s) @ new \<and> list_all (\<lambda>ev. \<not> network_event ev) new)
    \<and> (\<forall>i. x = Ret (Inr i) \<longrightarrow> vi_tap (fs_vms s' ! i) = None)"
  using wired.FC_Boot_netless [OF assms] by (simp add: silent_def list_all_iff)

theorem no_network_without_allowlist_witness:
  "length (h_trace (fs_host (fst (demo_boot 204)))) = 7 \<and> list_all (\<lambda>ev. \<not> network_event ev) (h_trace (fs_host (fst (demo_boot 204))))"
proof -
  have a: "Allowlist (sp_Network demo_spec) = []" by (simp add: demo_spec_def Default_def)
  have "h_trace (fs_host demo_start) = []" by (simp add: demo_start_def demo_host_def)
  moreover have "length (h_trace (fs_host (fst (demo_boot 204)))) = 7"
    using demo_boot_works by (auto split: prod.splits call.splits sum.splits)
  ultimately show ?thesis
    using no_network_without_allowlist [of "demo_env 204" demo_cfg ascii_tables None None None False Background demo_spec demo_start,
        OF _ a, folded demo_wire, OF surjective_pairing]
    by (simp add: demo_boot_def)
qed

text \<open>
  C7. \<open>Destroy\<close> of a live instance ends its VMM, whatever its other steps return. It releases the
  cgroup, the link and the files in this order, each of them once whatever the others returned (the
  results are \<open>r1\<close>, \<open>r2\<close> and \<open>r3\<close>), and returns nil exactly if all of them did; the link is down if its
  \<open>Teardown\<close> returned nil, and no file is left below the instance's directory if its removal did. A
  second \<open>Destroy\<close> reports an error and changes nothing.
\<close>

theorem Destroy_releases_everything:
  assumes "fc_inv (wire E u t cg st pool) s" and "i \<in> fc_live s"
    and "FC_Destroy E (wire E u t cg st pool) ctx i s = (s', r)"
  shows "running (h_trace (fs_host s')) = running (h_trace (fs_host s)) - set_option (vi_pid (fs_vms s ! i))
    \<and> (\<exists>exits rk r1 r2 r3. h_trace (fs_host s') = h_trace (fs_host s) @ teardown_events exits rk r1 r2 r3 (fs_vms s ! i)
        \<and> (r = None \<longleftrightarrow> r1 = None \<and> r2 = None \<and> r3 = None)
        \<and> (r2 = None \<longrightarrow> taps_up (h_trace (fs_host s')) = taps_up (h_trace (fs_host s)) - set_option (vi_tap (fs_vms s ! i)))
        \<and> (r3 = None \<longrightarrow> (\<forall>q. below (path_clean (vi_workDir (fs_vms s ! i))) q \<longrightarrow> fs_tree (h_fs (fs_host s')) q = None)))
    \<and> FC_Destroy E (wire E u t cg st pool) ctx i s' = (s', Some (Errorf ''vm %s already destroyed'' [vi_id (fs_vms s ! i)]))"
proof -
  define v where "v = fs_vms s ! i"
  obtain v' w r' where e: "vm_Destroy E (wire E u t cg st pool) ctx v (fs_host s) = (v', w, r')" by (metis prod_cases3)
  have l: "i < length (fs_vms s)" "\<not> vi_dead v" using assms(2) by (auto simp: fc_live_def v_def)
  have snd: "vm_sound (fd_Tap (wire E u t cg st pool) \<noteq> None) v" using assms(1) l by (auto simp: fc_inv_def list_all_length v_def)
  then have q: "quiet_vm v" "fd_Tap (wire E u t cg st pool) \<noteq> None \<or> vi_tap v = None" by (auto simp: vm_sound_def)
  obtain exits rk r1 r2 r3 where v': "v' = v\<lparr>vi_dead := True\<rparr>" and tr: "h_trace w = h_trace (fs_host s) @ teardown_events exits rk r1 r2 r3 v"
    and res: "r' = None \<longleftrightarrow> r1 = None \<and> r2 = None \<and> r3 = None"
    and gone: "r3 = None \<longrightarrow> (\<forall>q. below (path_clean (vi_workDir v)) q \<longrightarrow> fs_tree (h_fs w) q = None)"
    using wired.vm_Destroy_trace [OF l(2) e q] by blast
  have s': "s' = s\<lparr>fs_vms := (fs_vms s)[i := v\<lparr>vi_dead := True\<rparr>], fs_host := w\<rparr>" "r = r'"
    using assms(3) e l by (auto simp: FC_Destroy_def v' simp flip: v_def)
  have "FC_Destroy E (wire E u t cg st pool) ctx i s' = (s', Some (Errorf ''vm %s already destroyed'' [vi_id v]))"
    using l(1) by (simp add: FC_Destroy_def s' vm_Destroy_def)
  then show ?thesis unfolding v_def [symmetric] using res gone
    by (intro conjI exI [of _ exits] exI [of _ rk] exI [of _ r1] exI [of _ r2] exI [of _ r3]) (simp_all add: s' tr teardown_ends)
qed

theorem Destroy_releases_everything_witness:
  "running (h_trace (fs_host (fst (FC_Destroy (demo_env 204) demo_deps Background 0 (fst (demo_boot 204)))))) = {}
     \<and> fs_tree (h_fs (fs_host (fst (demo_boot 204)))) ''/w/fc-1/rootfs.ext4'' = Some (File ''g'')
     \<and> fs_tree (h_fs (fs_host (fst (FC_Destroy (demo_env 204) demo_deps Background 0 (fst (demo_boot 204)))))) ''/w/fc-1/rootfs.ext4'' = None"
proof -
  define s where "s = fst (demo_boot 204)"
  have i0: "fc_inv demo_deps demo_start" by (simp add: fc_inv_def demo_start_def demo_host_def held_vmms_def held_links_def)
  have inv: "fc_inv demo_deps s"
    unfolding s_def demo_boot_def using quiet_deps.FC_Boot_inv [OF demo_quiet i0 surjective_pairing] by simp
  have v: "length (fs_vms s) = 1" "vi_pid (fs_vms s ! 0) = Some 42" "\<not> vi_dead (fs_vms s ! 0)"
    using demo_boot_works by (auto simp: s_def split: prod.splits call.splits sum.splits)
  have run: "running (h_trace (fs_host s)) = {42}" unfolding s_def by code_simp
  have dir: "path_clean (vi_workDir (fs_vms s ! 0)) = ''/w/fc-1''" unfolding s_def by code_simp
  have disk: "fs_tree (h_fs (fs_host s)) ''/w/fc-1/rootfs.ext4'' = Some (File ''g'')" unfolding s_def by code_simp
  have ok: "snd (FC_Destroy (demo_env 204) demo_deps Background 0 s) = None" unfolding s_def by code_simp
  have lv: "0 \<in> fc_live s" using v by (simp add: fc_live_def)
  note w = demo_wire [of "demo_env 204" ascii_tables]
  note d = Destroy_releases_everything [OF inv [unfolded w] lv surjective_pairing, folded w]
  have b: "below ''/w/fc-1'' ''/w/fc-1/rootfs.ext4''" by (simp add: below_def)
  show ?thesis unfolding s_def [symmetric] using d [of Background] run dir v disk ok b by auto
qed

text \<open>
  C6. A job returns what the guest made of it: when the agent of the virtual machine answers, the
  result of \<open>Execute\<close> is the response of the agent's execution of the very code, language, limits and
  timeout of the request (30 s when it has none), with the id of the instance, through the handshake,
  the request and the response on the wire, which carries text with its invalid UTF-8 replaced.
\<close>

theorem Execute_returns_guest_result:
  assumes "i \<in> fc_live s" and "fe_conn E (h_step (fs_host s)) = agent_conn u g port e" and "all_digits port"
    and "\<And>pid t n. jb_wait (g_run g pid t) = WaitExit n \<Longrightarrow> fits64 n"
    and "xr_Timeout req < 2 ^ 63" and "fits64 (MemoryBytes (vi_limits (fs_vms s ! i)))" and "fits64 (PIDsMax (vi_limits (fs_vms s ! i)))"
  shows "\<exists>q p. q = \<lparr>gq_Code = to_valid (xr_Code req), gq_Runtime = to_valid (vi_language (fs_vms s ! i)),
        gq_TimeoutS = (if 0 < xr_Timeout req then xr_Timeout req div 10 ^ 9 else 30),
        gq_MemoryBytes = MemoryBytes (vi_limits (fs_vms s ! i)), gq_PIDsMax = PIDsMax (vi_limits (fs_vms s ! i))\<rparr>
    \<and> p = snd (guest_execute u g q)
    \<and> snd (FC_Execute E deps ctx i req s) = Ret (\<lparr>rs_Stdout = to_valid (gp_Stdout p), rs_Stderr = to_valid (gp_Stderr p),
        rs_ExitCode = gp_ExitCode p, rs_VMID = vi_id (fs_vms s ! i), rs_TimedOut = gp_TimedOut p\<rparr>, None)"
proof -
  define q where "q = received_request (guest_request_of (fs_vms s ! i) (default_timeout req))"
  have l: "i < length (fs_vms s)" "\<not> vi_dead (fs_vms s ! i)" using assms(1) by (auto simp: fc_live_def)
  have t: "fits64 (gq_TimeoutS (guest_request_of (fs_vms s ! i) (default_timeout req)))"
    using assms(5) by (auto simp: guest_request_of_def default_timeout_def fits64_def)
  have x: "vm_exchange (fe_conn E (h_step (fs_host s))) (fs_vms s ! i) (default_timeout req)
    = Inr (Inr (received_response (snd (guest_execute u g q))))"
    unfolding assms(2) q_def by (rule agent_exchange [OF t _ _ _ assms(3)]) (use assms(4,6,7) in auto)
  have "q = \<lparr>gq_Code = to_valid (xr_Code req), gq_Runtime = to_valid (vi_language (fs_vms s ! i)),
        gq_TimeoutS = (if 0 < xr_Timeout req then xr_Timeout req div 10 ^ 9 else 30),
        gq_MemoryBytes = MemoryBytes (vi_limits (fs_vms s ! i)), gq_PIDsMax = PIDsMax (vi_limits (fs_vms s ! i))\<rparr>"
    by (simp add: q_def received_request_def guest_request_of_def default_timeout_def)
  moreover have "snd (FC_Execute E deps ctx i req s)
    = Ret (response_result (fs_vms s ! i) (received_response (snd (guest_execute u g q))), None)"
    using l by (simp add: FC_Execute_def vm_Execute_def Let_def x split: prod.split)
  ultimately show ?thesis by (auto simp: response_result_def received_response_def)
qed

theorem Execute_returns_guest_result_witness:
  "\<exists>r. snd (FC_Execute (demo_env 204) demo_deps Background 0 \<lparr>xr_Code = ''1'', xr_Timeout = 5000000000\<rparr> (fst (demo_boot 204))) = Ret (r, None)
     \<and> rs_VMID r = ''fc-1'' \<and> \<not> rs_TimedOut r"
proof -
  define s where "s = fst (demo_boot 204)"
  define q where "q = \<lparr>xr_Code = ''1'', xr_Timeout = 5000000000\<rparr>"
  have v: "length (fs_vms s) = 1" "vi_id (fs_vms s ! 0) = ''fc-1''" "\<not> vi_dead (fs_vms s ! 0)" "vi_language (fs_vms s ! 0) = ''python''"
    using demo_boot_works by (auto simp: s_def split: prod.splits call.splits sum.splits)
  have m: "vi_limits (fs_vms s ! 0) = DefaultProfile" unfolding s_def by code_simp
  have lv: "0 \<in> fc_live s" using v by (simp add: fc_live_def)
  have c: "fe_conn (demo_env 204) (h_step (fs_host s)) = agent_conn ascii_tables sample_guest ''5'' (Sentinel ''io.EOF'')"
    by (simp add: demo_env_def demo_conn_def)
  have d: "all_digits ''5''" by code_simp
  have j: "jb_wait (g_run sample_guest pid t) = WaitExit n \<Longrightarrow> fits64 n" for pid t n
    by (simp add: sample_guest_def sample_job_def)
  have f: "xr_Timeout q < 2 ^ 63" "fits64 (MemoryBytes (vi_limits (fs_vms s ! 0)))" "fits64 (PIDsMax (vi_limits (fs_vms s ! 0)))"
    by (simp_all add: q_def m DefaultProfile_def fits64_def)
  note x = Execute_returns_guest_result [OF lv c d _ f, where deps = demo_deps and ctx = Background]
  have to: "\<not> gp_TimedOut (snd (guest_execute ascii_tables sample_guest q'))" for q'
    by (auto simp: guest_execute_def Let_def zero_gresp_def sample_guest_def sample_job_def timed_out_expired
        split: sum.split prod.split option.split)
  show ?thesis
    using x j to v(2) by (auto simp flip: s_def q_def)
qed

text \<open>
  C18. Session snapshots never change what a job returns: with or without a snapshot store, and
  whatever the store and the VMM do while the snapshot is taken, \<open>Execute\<close> gives the same answer.
\<close>

theorem snapshots_never_change_results:
  "snd (FC_Execute E deps ctx i req s) = snd (FC_Execute E (deps\<lparr>fd_Snapshots := None\<rparr>) ctx i req s)"
  by (simp add: FC_Execute_def vm_Execute_def Let_def split: prod.split sum.split option.split)

text \<open>
  C19. The network of a session survives its snapshot: from the record of an instance whose link
  came from \<open>Setup\<close>, a restore rebuilds a link that is complete, is set up by the same commands and
  rules as the original one, and is torn down by the same commands.
\<close>

theorem restored_link_is_the_original:
  assumes "Setup u t vid p (seq, w) = ((n, w'), Inr k)"
  shows "\<exists>k'. linkFromRecord (Some (fillRecordNetwork rec (Some k))) = Some k' \<and> l_Name k' = l_Name k \<and> fillDerived k' = k'
    \<and> (\<forall>ips w1. tap_apply u t k' ips w1 = tap_apply u t k ips w1) \<and> (\<forall>w1. Teardown t (Some k') w1 = Teardown t (Some k) w1)"
proof (intro exI conjI allI)
  note p = Setup_new_link [OF assms]
  show "linkFromRecord (Some (fillRecordNetwork rec (Some k))) = Some (wide_link k)" by (rule record_link [OF p(1)])
  show "l_Name (wide_link k) = l_Name k" by (simp add: wide_link_def)
qed (simp_all add: wide_apply [OF Setup_new_link(1) [OF assms]] Setup_new_link(2) [OF assms])

theorem restored_link_is_the_original_witness:
  "\<exists>w1 k k'. Setup ascii_tables quiet_tap ''s1'' sample_policy (0, []) = ((1, w1), Inr k)
     \<and> linkFromRecord (Some (fillRecordNetwork zero_record (Some k))) = Some k' \<and> l_Name k' = tapName ''s1''
     \<and> tap_apply ascii_tables quiet_tap k' [] [] = tap_apply ascii_tables quiet_tap k [] []"
proof -
  have s: "subnet30 (0 + 1) = Inr ([172, 25, 0, 1], [172, 25, 0, 2])" "uplink30 (0 + 1) = Inr ([172, 27, 0, 1], [172, 27, 0, 2])"
    by code_simp+
  define k where "k = new_link ''s1'' ([172, 25, 0, 1], [172, 25, 0, 2]) ([172, 27, 0, 1], [172, 27, 0, 2])"
  obtain w1 where a: "Setup ascii_tables quiet_tap ''s1'' sample_policy (0, []) = ((1, w1), Inr k)"
    using quiet_Setup [OF s, of ascii_tables "''s1''" "[]"] unfolding k_def by fastforce
  have n: "l_Name k = tapName ''s1''" unfolding k_def by (rule new_link_sel)
  obtain k' where "linkFromRecord (Some (fillRecordNetwork zero_record (Some k))) = Some k'" "l_Name k' = l_Name k"
    "\<forall>ips w1. tap_apply ascii_tables quiet_tap k' ips w1 = tap_apply ascii_tables quiet_tap k ips w1"
    using restored_link_is_the_original [OF a, of zero_record] by blast
  with a n show ?thesis by (intro exI [of _ w1] exI [of _ k] exI [of _ k']) simp
qed

end
