(* ===== verification/Api_Jwt.thy ===== *)
theory Api_Jwt
  imports Go_Strings "HOL-Library.Word"
begin

unbundle bit_operations_syntax

text \<open>
  Package \<open>internal/api\<close>, file \<open>jwt.go\<close>: validation of RS256 bearer tokens against a
  cached key set. Parameters (\<open>jwt_env\<close>): the JSON decoding of header and claims, the HTTP
  fetch of the key set at a given time, SHA-256 and the RSA verification primitive. Base64,
  the key cache with its refresh, and every check of the token are modelled. The verifier is
  a pointer in Go, so it is an option; calls return the verifier with its updated cache.
\<close>

section \<open>base64.RawURLEncoding\<close>

definition b64_val :: "char \<Rightarrow> nat option" where
  "b64_val c =
     (let b = byte c in
      if upper_az b then Some (b - 65)
      else if lower_az b then Some (b - 71)
      else if dec_digit b then Some (b + 4)
      else if b = 45 then Some 62
      else if b = 95 then Some 63
      else None)"

fun b64_values :: "string \<Rightarrow> nat list option" where
  "b64_values [] = Some []"
| "b64_values (c # cs) =
     (if byte c = 10 \<or> byte c = 13 then b64_values cs
      else case b64_val c of
          None \<Rightarrow> None
        | Some v \<Rightarrow> map_option (\<lambda>vs. v # vs) (b64_values cs))"

text \<open>Four digits are three bytes; a last group of two or three digits is one or two bytes.\<close>

fun b64_bytes :: "nat list \<Rightarrow> string option" where
  "b64_bytes [] = Some []"
| "b64_bytes [a] = None"
| "b64_bytes [a, b] = Some [char_of (a * 4 + b div 16)]"
| "b64_bytes [a, b, c] = Some [char_of (a * 4 + b div 16), char_of (b mod 16 * 16 + c div 4)]"
| "b64_bytes (a # b # c # d # r) =
     map_option (\<lambda>bs. [char_of (a * 4 + b div 16), char_of (b mod 16 * 16 + c div 4),
                       char_of (c mod 4 * 64 + d)] @ bs) (b64_bytes r)"

definition b64JSON :: "string \<Rightarrow> string option" where
  "b64JSON seg = Option.bind (b64_values seg) b64_bytes"

section \<open>Documents and keys\<close>

record jwt_header =
  jh_Alg :: string
  jh_Kid :: string
  jh_Typ :: string

datatype aud = AudString string | AudArray "string option list" | AudOther

record jwt_claims =
  jc_Iss :: string
  jc_Aud :: aud
  jc_Exp :: int
  jc_Nbf :: int
  jc_Sub :: string

record jwk =
  jwk_Kid :: string
  jwk_Kty :: string
  jwk_Alg :: string
  jwk_N :: string
  jwk_E :: string
  jwk_Use :: string

record rsa_public_key =
  rsa_N :: nat
  rsa_E :: int

record jwt_verifier =
  jv_JWKSURL :: string
  jv_Issuer :: string
  jv_Audience :: string
  jv_TTL :: int
  jv_keys :: "(string \<times> rsa_public_key) list option"
  jv_fetched :: int

text \<open>A response to the key-set request: the status and the decoded document.\<close>

type_synonym jwks_response = "gerr + int \<times> (gerr + jwk list)"

record jwt_env =
  je_header :: "string \<Rightarrow> jwt_header option"
  je_claims :: "string \<Rightarrow> jwt_claims option"
  je_get :: "string \<Rightarrow> int \<Rightarrow> jwks_response"
  je_sha256 :: "string \<Rightarrow> string"
  je_verify :: "rsa_public_key \<Rightarrow> string \<Rightarrow> string \<Rightarrow> bool"

definition audContains :: "aud \<Rightarrow> string \<Rightarrow> bool" where
  "audContains a want = (case a of
       AudString s \<Rightarrow> s = want
     | AudArray xs \<Rightarrow> list_ex (\<lambda>x. x = Some want) xs
     | AudOther \<Rightarrow> False)"

definition looksLikeJWT :: "string \<Rightarrow> bool" where
  "looksLikeJWT token = (count_list token CHR ''.'' = 2)"

text \<open>The exponent is folded into a 64-bit \<open>int\<close>, which may wrap.\<close>

definition exponent :: "string \<Rightarrow> 64 word" where
  "exponent eb = foldl (\<lambda>e b. push_bit 8 e OR of_nat (byte b)) 0 eb"

definition big_endian :: "string \<Rightarrow> nat" where
  "big_endian nb = foldl (\<lambda>n b. 256 * n + byte b) 0 nb"

definition jwkRSA :: "jwk \<Rightarrow> rsa_public_key res" where
  "jwkRSA k = (case b64JSON (jwk_N k) of
       None \<Rightarrow> Inl (Errorf ''illegal base64 data'' [])
     | Some nb \<Rightarrow> (case b64JSON (jwk_E k) of
           None \<Rightarrow> Inl (Errorf ''illegal base64 data'' [])
         | Some eb \<Rightarrow>
             if exponent eb = 0 then Inl (Errorf ''jwks: bad exponent'' [])
             else Inr \<lparr>rsa_N = big_endian nb, rsa_E = sint (exponent eb)\<rparr>))"

section \<open>The key cache\<close>

definition rsa_keys :: "jwk list \<Rightarrow> (string \<times> rsa_public_key) list" where
  "rsa_keys doc = foldl (\<lambda>keys k.
     if \<not> equal_fold_ascii (jwk_Kty k) ''RSA'' then keys
     else (case jwkRSA k of Inl _ \<Rightarrow> keys | Inr pub \<Rightarrow> al_put (jwk_Kid k) pub keys)) [] doc"

definition refreshLocked :: "jwt_env \<Rightarrow> int \<Rightarrow> jwt_verifier \<Rightarrow> jwt_verifier \<times> gerr option" where
  "refreshLocked E now v = (case je_get E (jv_JWKSURL v) now of
       Inl e \<Rightarrow> (v, Some e)
     | Inr (status, body) \<Rightarrow>
         if status \<noteq> 200 then (v, Some (Errorf ''jwks: HTTP %d'' [int_dec status]))
         else (case body of
             Inl e \<Rightarrow> (v, Some e)
           | Inr doc \<Rightarrow>
               (let keys = rsa_keys doc in
                if keys = [] then (v, Some (Errorf ''jwks: no RSA keys'' []))
                else (v\<lparr>jv_keys := Some keys, jv_fetched := now\<rparr>, None))))"

definition pick_key :: "string \<Rightarrow> (string \<times> rsa_public_key) list \<Rightarrow> rsa_public_key option" where
  "pick_key kid keys = (if kid = [] \<and> length keys = 1 then Some (snd (hd keys)) else map_of keys kid)"

definition jwt_key :: "jwt_env \<Rightarrow> int \<Rightarrow> string \<Rightarrow> jwt_verifier \<Rightarrow> jwt_verifier \<times> rsa_public_key option res" where
  "jwt_key E now kid v =
     (let ttl = (if jv_TTL v \<le> 0 then 5 * 60 * 10 ^ 9 else jv_TTL v);
          (v', err) = (if jv_keys v = None \<or> now - jv_fetched v > ttl then refreshLocked E now v
                       else (v, None))
      in case jv_keys v' of
           None \<Rightarrow> (case err of Some e \<Rightarrow> (v', Inl e) | None \<Rightarrow> (v', Inr None))
         | Some keys \<Rightarrow> (v', Inr (pick_key kid keys)))"

section \<open>Tokens\<close>

definition claims_live :: "jwt_verifier \<Rightarrow> int \<Rightarrow> jwt_claims \<Rightarrow> bool" where
  "claims_live v unix c =
     (\<not> (jc_Exp c \<noteq> 0 \<and> jc_Exp c < unix) \<and> \<not> (jc_Nbf c \<noteq> 0 \<and> unix < jc_Nbf c)
      \<and> \<not> (jv_Issuer v \<noteq> [] \<and> jc_Iss c \<noteq> jv_Issuer v)
      \<and> \<not> (jv_Audience v \<noteq> [] \<and> \<not> audContains (jc_Aud c) (jv_Audience v)))"

definition Valid :: "jwt_env \<Rightarrow> int \<Rightarrow> string \<Rightarrow> jwt_verifier option \<Rightarrow> jwt_verifier option \<times> bool" where
  "Valid E now token vo = (case vo of
       None \<Rightarrow> (None, False)
     | Some v \<Rightarrow>
         if jv_JWKSURL v = [] \<or> token = [] \<or> count_list token CHR ''.'' \<noteq> 2 then (vo, False)
         else
           let parts = split_on CHR ''.'' token; p0 = parts ! 0; p1 = parts ! 1; p2 = parts ! 2 in
           case Option.bind (b64JSON p0) (je_header E) of
             None \<Rightarrow> (vo, False)
           | Some hdr \<Rightarrow>
               if \<not> equal_fold_ascii (jh_Alg hdr) ''RS256'' then (vo, False)
               else (case Option.bind (b64JSON p1) (je_claims E) of
                   None \<Rightarrow> (vo, False)
                 | Some claims \<Rightarrow>
                     if \<not> claims_live v (now div 10 ^ 9) claims then (vo, False)
                     else (case jwt_key E now (jh_Kid hdr) v of
                         (v', Inl _) \<Rightarrow> (Some v', False)
                       | (v', Inr None) \<Rightarrow> (Some v', False)
                       | (v', Inr (Some key)) \<Rightarrow>
                           (case b64JSON p2 of
                              None \<Rightarrow> (Some v', False)
                            | Some sig \<Rightarrow>
                                (Some v', je_verify E key (je_sha256 E (p0 @ ''.'' @ p1)) sig)))))"

section \<open>Where keys come from\<close>

text \<open>A key published under a URL at a time: an RSA entry of the document served there.\<close>

definition published :: "jwt_env \<Rightarrow> string \<Rightarrow> int \<Rightarrow> rsa_public_key \<Rightarrow> bool" where
  "published E url t key = (\<exists>doc k. je_get E url t = Inr (200, Inr doc) \<and> k \<in> set doc
     \<and> equal_fold_ascii (jwk_Kty k) ''RSA'' \<and> jwkRSA k = Inr key)"

definition cache_ok :: "jwt_env \<Rightarrow> jwt_verifier \<Rightarrow> bool" where
  "cache_ok E v = (case jv_keys v of
       None \<Rightarrow> True
     | Some keys \<Rightarrow> keys \<noteq> [] \<and> (\<forall>p \<in> set keys. published E (jv_JWKSURL v) (jv_fetched v) (snd p)))"

lemma set_al_put: "set (al_put k x m) \<subseteq> insert (k, x) (set m)"
  by (auto simp: al_put_def al_del_def)

lemma rsa_keys_from:
  "p \<in> set (rsa_keys doc) \<Longrightarrow> \<exists>k \<in> set doc. equal_fold_ascii (jwk_Kty k) ''RSA'' \<and> jwkRSA k = Inr (snd p)"
proof (induction doc rule: rev_induct)
  case (snoc k doc)
  show ?case
  proof (cases "p \<in> set (rsa_keys doc)")
    case False
    then have "equal_fold_ascii (jwk_Kty k) ''RSA'' \<and> (\<exists>pub. jwkRSA k = Inr pub \<and> p = (jwk_Kid k, pub))"
      using snoc.prems set_al_put [of "jwk_Kid k" _ "rsa_keys doc"]
      by (fastforce simp: rsa_keys_def split: if_splits sum.splits)
    then show ?thesis by auto
  qed (use snoc.IH in auto)
qed (simp add: rsa_keys_def)

lemma refreshLocked_config:
  "refreshLocked E now v = (v', r) \<Longrightarrow> jv_JWKSURL v' = jv_JWKSURL v \<and> jv_Issuer v' = jv_Issuer v
     \<and> jv_Audience v' = jv_Audience v"
  by (auto simp: refreshLocked_def Let_def split: sum.splits prod.splits if_splits)

lemma refreshLocked_cache: "cache_ok E v \<Longrightarrow> refreshLocked E now v = (v', r) \<Longrightarrow> cache_ok E v'"
  by (auto simp: refreshLocked_def Let_def cache_ok_def published_def dest!: rsa_keys_from
      split: sum.splits prod.splits if_splits)

text \<open>A failed refresh keeps the cache it had.\<close>

lemma refreshLocked_error: "refreshLocked E now v = (v', Some e) \<Longrightarrow> v' = v"
  by (auto simp: refreshLocked_def Let_def split: sum.splits prod.splits if_splits)

lemma pick_key_in: "pick_key kid keys = Some key \<Longrightarrow> key \<in> snd ` set keys"
proof (cases "kid = [] \<and> length keys = 1")
  case True
  then have "hd keys \<in> set keys" by (cases keys) auto
  moreover assume "pick_key kid keys = Some key"
  ultimately show ?thesis using True by (auto simp: pick_key_def)
next
  case False
  moreover assume "pick_key kid keys = Some key"
  ultimately have "(kid, key) \<in> set keys" by (auto simp: pick_key_def dest: map_of_SomeD)
  then show ?thesis by force
qed

lemma jwt_key_cases:
  assumes "cache_ok E v" and "jwt_key E now kid v = (v', r)"
  shows "cache_ok E v'" and "jv_JWKSURL v' = jv_JWKSURL v"
    and "r = Inr (Some key) \<Longrightarrow> published E (jv_JWKSURL v) (jv_fetched v') key"
proof -
  obtain w err where w: "(if jv_keys v = None \<or> now - jv_fetched v > (if jv_TTL v \<le> 0 then 5 * 60 * 10 ^ 9 else jv_TTL v)
      then refreshLocked E now v else (v, None)) = (w, err)" by fastforce
  have v': "v' = w" and rs: "r = Inr (Some key) \<Longrightarrow>
      \<exists>keys. jv_keys w = Some keys \<and> key \<in> snd ` set keys"
    using assms(2) unfolding jwt_key_def w Let_def
    by (auto simp: pick_key_in split: option.splits)
  have c: "cache_ok E w" and u: "jv_JWKSURL w = jv_JWKSURL v"
    using w assms(1) refreshLocked_cache refreshLocked_config by (auto split: if_splits)
  show "cache_ok E v'" "jv_JWKSURL v' = jv_JWKSURL v" using c u v' by simp_all
  show "r = Inr (Some key) \<Longrightarrow> published E (jv_JWKSURL v) (jv_fetched v') key"
    using rs c u v' by (fastforce simp: cache_ok_def)
qed

lemma three_parts:
  assumes "count_list token CHR ''.'' = 2"
  obtains p0 p1 p2 where "split_on CHR ''.'' token = [p0, p1, p2]"
    and "token = p0 @ CHR ''.'' # p1 @ CHR ''.'' # p2"
proof -
  have "length (split_on CHR ''.'' token) = 3" using assms by (simp add: length_split_on)
  then obtain p0 p1 p2 where s: "split_on CHR ''.'' token = [p0, p1, p2]"
    by (auto simp: numeral_3_eq_3 length_Suc_conv)
  moreover have "token = p0 @ CHR ''.'' # p1 @ CHR ''.'' # p2"
    using join_split [of "CHR ''.''" token] s by simp
  ultimately show ?thesis using that by blast
qed

section \<open>Properties\<close>

text \<open>
  C30. A token that \<open>Valid\<close> accepts has three parts; its header asks for RS256, its claims
  are live for this verifier at this time, and its signature over the first two parts verifies
  under a key that the configured URL published at the time of the last successful fetch.
\<close>

theorem Valid_sound:
  assumes "Valid E now token (Some v) = (vo', True)" and "cache_ok E v"
  shows "\<exists>p0 p1 p2 hdr claims sig key v'. token = p0 @ CHR ''.'' # p1 @ CHR ''.'' # p2
     \<and> Option.bind (b64JSON p0) (je_header E) = Some hdr \<and> equal_fold_ascii (jh_Alg hdr) ''RS256''
     \<and> Option.bind (b64JSON p1) (je_claims E) = Some claims \<and> claims_live v (now div 10 ^ 9) claims
     \<and> b64JSON p2 = Some sig \<and> je_verify E key (je_sha256 E (p0 @ ''.'' @ p1)) sig
     \<and> vo' = Some v' \<and> cache_ok E v' \<and> published E (jv_JWKSURL v) (jv_fetched v') key"
proof -
  have "count_list token CHR ''.'' = 2"
    using assms(1) by (auto simp: Valid_def split: if_splits)
  then obtain p0 p1 p2 where s: "split_on CHR ''.'' token = [p0, p1, p2]"
    and token: "token = p0 @ CHR ''.'' # p1 @ CHR ''.'' # p2" by (rule three_parts)
  obtain hdr where hdr: "Option.bind (b64JSON p0) (je_header E) = Some hdr" "equal_fold_ascii (jh_Alg hdr) ''RS256''"
    using assms(1) by (auto simp: Valid_def s Let_def split: if_splits option.splits)
  obtain claims where cl: "Option.bind (b64JSON p1) (je_claims E) = Some claims" "claims_live v (now div 10 ^ 9) claims"
    using assms(1) by (auto simp: Valid_def s Let_def hdr split: if_splits option.splits)
  obtain v' key where k: "jwt_key E now (jh_Kid hdr) v = (v', Inr (Some key))"
    using assms(1) by (auto simp: Valid_def s Let_def hdr cl split: if_splits option.splits prod.splits sum.splits)
  have "vo' = Some v'" and "\<exists>sig. b64JSON p2 = Some sig \<and> je_verify E key (je_sha256 E (p0 @ ''.'' @ p1)) sig"
    using assms(1) by (auto simp: Valid_def s Let_def hdr cl k split: if_splits option.splits)
  then show ?thesis
    using token hdr cl jwt_key_cases [OF assms(2) k] by blast
qed

text \<open>An environment with one key, for a concrete run: every hash is the text itself.\<close>

definition sample_env :: jwt_env where
  "sample_env = \<lparr>je_header = \<lambda>_. Some \<lparr>jh_Alg = ''RS256'', jh_Kid = ''k'', jh_Typ = ''JWT''\<rparr>,
     je_claims = \<lambda>_. Some \<lparr>jc_Iss = ''i'', jc_Aud = AudArray [Some ''warden''], jc_Exp = 10, jc_Nbf = 0, jc_Sub = []\<rparr>,
     je_get = \<lambda>_ _. Inr (200, Inr [\<lparr>jwk_Kid = ''k'', jwk_Kty = ''RSA'', jwk_Alg = ''RS256'', jwk_N = ''Aw'', jwk_E = ''Aw'', jwk_Use = ''sig''\<rparr>]),
     je_sha256 = \<lambda>s. s, je_verify = \<lambda>_ d sig. d = ''e30.e30'' \<and> length sig = 1\<rparr>"

definition sample_verifier :: jwt_verifier where
  "sample_verifier = \<lparr>jv_JWKSURL = ''u'', jv_Issuer = ''i'', jv_Audience = ''warden'', jv_TTL = 0,
     jv_keys = None, jv_fetched = 0\<rparr>"

theorem Valid_sound_witness:
  "snd (Valid sample_env 0 ''e30.e30.Aw'' (Some sample_verifier))
   \<and> (\<exists>t. published sample_env ''u'' t \<lparr>rsa_N = 3, rsa_E = 3\<rparr>)
   \<and> (\<exists>key t. published sample_env ''u'' t key)"
proof -
  have v: "Valid sample_env 0 ''e30.e30.Aw'' (Some sample_verifier) =
      (Some (sample_verifier\<lparr>jv_keys := Some [(''k'', \<lparr>rsa_N = 3, rsa_E = 3\<rparr>)]\<rparr>), True)"
    by code_simp
  have k: "jwkRSA \<lparr>jwk_Kid = ''k'', jwk_Kty = ''RSA'', jwk_Alg = ''RS256'', jwk_N = ''Aw'', jwk_E = ''Aw'', jwk_Use = ''sig''\<rparr>
      = Inr \<lparr>rsa_N = 3, rsa_E = 3\<rparr>" "equal_fold_ascii ''RSA'' ''RSA''" by code_simp+
  then have "published sample_env ''u'' 0 \<lparr>rsa_N = 3, rsa_E = 3\<rparr>"
    by (simp add: published_def sample_env_def)
  moreover have "cache_ok sample_env sample_verifier"
    by (simp add: cache_ok_def sample_verifier_def)
  moreover have "jv_JWKSURL sample_verifier = ''u''" by (simp add: sample_verifier_def)
  ultimately show ?thesis using Valid_sound [OF v] v by (metis snd_conv)
qed

end
