(* ===== verification/Api_RateLimit.thy ===== *)
theory Api_RateLimit
  imports Go_Strings
begin

text \<open>
  Package \<open>internal/api\<close>, file \<open>ratelimit.go\<close>: the fixed-window limiter. Times are
  nanoseconds. The abstract limiter is one independent counter per key; the real one shares a
  map and evicts, and \<open>run_allow_isolated\<close> shows that neither can be observed.
\<close>

section \<open>The limiter\<close>

record window_counter =
  wc_reset :: int
  wc_n :: int

record fixed_window =
  fw_Limit :: int
  fw_Window :: int
  fw_hits :: "(string \<times> window_counter) list"

definition minute :: int where "minute = 60 * 10 ^ 9"

definition NewFixedWindow :: "int \<Rightarrow> int \<Rightarrow> fixed_window" where
  "NewFixedWindow limit window =
     \<lparr>fw_Limit = limit, fw_Window = (if window \<le> 0 then minute else window), fw_hits = []\<rparr>"

definition evictLocked :: "int \<Rightarrow> fixed_window \<Rightarrow> fixed_window" where
  "evictLocked now r = r\<lparr>fw_hits := filter (\<lambda>p. now < wc_reset (snd p)) (fw_hits r)\<rparr>"

definition Allow :: "fixed_window option \<Rightarrow> int \<Rightarrow> string \<Rightarrow> fixed_window option \<times> bool" where
  "Allow ro now key0 = (case ro of
       None \<Rightarrow> (None, True)
     | Some r \<Rightarrow>
         if fw_Limit r \<le> 0 then (Some r, True)
         else
           let key = (if key0 = [] then ''anon'' else key0);
               fresh = \<lparr>wc_reset = now + fw_Window r, wc_n = 0\<rparr>;
               (c, hits) = (case map_of (fw_hits r) key of
                  None \<Rightarrow> (fresh, al_put key fresh (fw_hits r))
                | Some c \<Rightarrow> if \<not> now < wc_reset c then (fresh, al_put key fresh (fw_hits r))
                            else (c, fw_hits r))
           in if fw_Limit r \<le> wc_n c then (Some (r\<lparr>fw_hits := hits\<rparr>), False)
              else
                let hits' = al_put key (c\<lparr>wc_n := wc_n c + 1\<rparr>) hits;
                    r' = r\<lparr>fw_hits := hits'\<rparr>
                in (Some (if 4096 < length hits' then evictLocked now r' else r'), True))"

section \<open>One counter per key\<close>

text \<open>The state of a key at a time: the end of its window and the slots used, if it has one.\<close>

type_synonym slot = "(int \<times> int) option"

definition expire :: "int \<Rightarrow> slot \<Rightarrow> slot" where
  "expire now s = (case s of None \<Rightarrow> None | Some (r, n) \<Rightarrow> if now < r then Some (r, n) else None)"

definition key_allow :: "int \<Rightarrow> int \<Rightarrow> int \<Rightarrow> slot \<Rightarrow> slot \<times> bool" where
  "key_allow L W now s = (case expire now s of
       None \<Rightarrow> (Some (now + W, 1), True)
     | Some (r, n) \<Rightarrow> if n < L then (Some (r, n + 1), True) else (Some (r, n), False))"

fun key_run :: "int \<Rightarrow> int \<Rightarrow> slot \<Rightarrow> int list \<Rightarrow> bool list" where
  "key_run L W s [] = []"
| "key_run L W s (t # ts) = (case key_allow L W t s of (s', b) \<Rightarrow> b # key_run L W s' ts)"

definition slot_of :: "fixed_window \<Rightarrow> string \<Rightarrow> slot" where
  "slot_of r k = map_option (\<lambda>c. (wc_reset c, wc_n c)) (map_of (fw_hits r) k)"

definition rl_key :: "string \<Rightarrow> string" where
  "rl_key k = (if k = [] then ''anon'' else k)"

definition fw_ok :: "fixed_window \<Rightarrow> bool" where
  "fw_ok r = (0 < fw_Limit r \<and> 0 < fw_Window r \<and> distinct (map fst (fw_hits r)))"

lemma fw_ok_New: "0 < limit \<Longrightarrow> fw_ok (NewFixedWindow limit window)"
  by (simp add: fw_ok_def NewFixedWindow_def minute_def)

lemma expire_mono: "t \<le> t' \<Longrightarrow> expire t' (expire t s) = expire t' s"
  by (auto simp: expire_def split: option.splits)

lemma slot_of_evict: "distinct (map fst (fw_hits r)) \<Longrightarrow> slot_of (evictLocked now r) k = expire now (slot_of r k)"
  using map_of_filter_vals [of "fw_hits r" "\<lambda>c. now < wc_reset c" k]
  by (auto simp: slot_of_def evictLocked_def expire_def split: option.splits)

text \<open>One call: it acts on the slot of its key as \<open>key_allow\<close> does and on no other.\<close>

lemma Allow_step:
  assumes "fw_ok r" and "Allow (Some r) now key = (ro, b)"
  obtains r' where "ro = Some r'" and "fw_ok r'" and "fw_Limit r' = fw_Limit r" "fw_Window r' = fw_Window r"
    and "b = snd (key_allow (fw_Limit r) (fw_Window r) now (slot_of r (rl_key key)))"
    and "expire now (slot_of r' (rl_key key)) =
           expire now (fst (key_allow (fw_Limit r) (fw_Window r) now (slot_of r (rl_key key))))"
    and "\<And>k. k \<noteq> rl_key key \<Longrightarrow> expire now (slot_of r' k) = expire now (slot_of r k)"
proof -
  let ?k = "rl_key key" and ?L = "fw_Limit r" and ?W = "fw_Window r"
  have pos: "0 < ?L" "0 < ?W" "distinct (map fst (fw_hits r))"
    using assms(1) by (auto simp: fw_ok_def)
  define fresh where "fresh = \<lparr>wc_reset = now + ?W, wc_n = 0\<rparr>"
  define renew where "renew = (case map_of (fw_hits r) ?k of None \<Rightarrow> True | Some c \<Rightarrow> \<not> now < wc_reset c)"
  define c where "c = (if renew then fresh else the (map_of (fw_hits r) ?k))"
  define hits where "hits = (if renew then al_put ?k fresh (fw_hits r) else fw_hits r)"
  define r1 where "r1 = r\<lparr>fw_hits := al_put ?k (c\<lparr>wc_n := wc_n c + 1\<rparr>) hits\<rparr>"
  have run: "Allow (Some r) now key = (if ?L \<le> wc_n c then (Some (r\<lparr>fw_hits := hits\<rparr>), False)
      else (Some (if 4096 < length (fw_hits r1) then evictLocked now r1 else r1), True))"
    using pos(1) by (simp add: Allow_def Let_def rl_key_def c_def hits_def renew_def fresh_def r1_def
        split: option.splits)
  have d: "distinct (map fst hits)" "distinct (map fst (fw_hits r1))"
    using pos(3) by (simp_all add: hits_def r1_def distinct_al_put)
  have cur: "expire now (slot_of r ?k) = (if renew then None else Some (wc_reset c, wc_n c))"
    by (auto simp: expire_def slot_of_def renew_def c_def split: option.splits)
  have full: "\<not> renew" if "?L \<le> wc_n c"
    using that pos(1) by (auto simp: c_def fresh_def split: if_splits)
  have so: "slot_of r1 k = slot_of r k" if "k \<noteq> ?k" for k
    using that by (simp add: slot_of_def r1_def hits_def)
  have s1k: "slot_of r1 ?k = Some (wc_reset c, wc_n c + 1)"
    by (simp add: slot_of_def r1_def)
  have ka: "key_allow ?L ?W now (slot_of r ?k) = (if ?L \<le> wc_n c then (Some (wc_reset c, wc_n c), False)
      else (Some (wc_reset c, wc_n c + 1), True))"
    using pos(1) full unfolding key_allow_def cur by (auto simp: c_def fresh_def)
  show ?thesis
  proof (cases "?L \<le> wc_n c")
    case True
    then have h: "hits = fw_hits r" using full by (simp add: hits_def)
    have "ro = Some r" "\<not> b" using assms(2) run True h by auto
    moreover have "expire now (Some (wc_reset c, wc_n c)) = expire now (slot_of r ?k)"
      using expire_mono [of now now "slot_of r ?k"] cur full [OF True] by simp
    ultimately show ?thesis using that [of r] assms(1) ka True by simp
  next
    case False
    define r2 where "r2 = (if 4096 < length (fw_hits r1) then evictLocked now r1 else r1)"
    have "ro = Some r2" "b" using assms(2) run False by (auto simp: r2_def)
    moreover have "fw_ok r2" "fw_Limit r2 = ?L" "fw_Window r2 = ?W"
      using pos d by (auto simp: r2_def fw_ok_def evictLocked_def r1_def distinct_filter_fst)
    moreover have "expire now (slot_of r2 k) = expire now (slot_of r1 k)" for k
      using d by (simp add: r2_def slot_of_evict expire_mono)
    ultimately show ?thesis using that [of r2] ka False s1k so by simp
  qed
qed

section \<open>Runs\<close>

text \<open>A sequence of calls, each with its time and key: the decisions in order.\<close>

fun run_allow :: "fixed_window option \<Rightarrow> (int \<times> string) list \<Rightarrow> bool list" where
  "run_allow ro [] = []"
| "run_allow ro ((t, k) # qs) = (case Allow ro t k of (ro', b) \<Rightarrow> b # run_allow ro' qs)"

definition of_key :: "string \<Rightarrow> (int \<times> string) list \<Rightarrow> bool list \<Rightarrow> bool list" where
  "of_key k qs bs = map snd (filter (\<lambda>(q, b). rl_key (snd q) = k) (zip qs bs))"

lemma of_key_Cons:
  "of_key k (q # qs) (b # bs) = (if rl_key (snd q) = k then b # of_key k qs bs else of_key k qs bs)"
  by (simp add: of_key_def)

lemma key_allow_expire: "key_allow L W t (expire t s) = key_allow L W t s"
  by (simp add: key_allow_def expire_mono)

lemma key_run_expire:
  assumes "expire t0 s = expire t0 s'" and "list_all (\<lambda>t. t0 \<le> t) ts"
  shows "key_run L W s ts = key_run L W s' ts"
proof (cases ts)
  case (Cons t us)
  then have "expire t s = expire t s'"
    using assms expire_mono [of t0 t s] expire_mono [of t0 t s'] by simp
  then have "key_allow L W t s = key_allow L W t s'"
    using key_allow_expire by metis
  then show ?thesis by (simp add: Cons)
qed simp

lemma run_allow_key:
  assumes "fw_ok r" and "sorted (map fst qs)"
  shows "of_key k qs (run_allow (Some r) qs) =
    key_run (fw_Limit r) (fw_Window r) (slot_of r k) (map fst (filter (\<lambda>q. rl_key (snd q) = k) qs))"
  using assms
proof (induction qs arbitrary: r)
  case (Cons q qs)
  obtain t key where q: "q = (t, key)" by fastforce
  obtain ro b where run: "Allow (Some r) t key = (ro, b)" by fastforce
  obtain r' where r': "ro = Some r'" "fw_ok r'" "fw_Limit r' = fw_Limit r" "fw_Window r' = fw_Window r"
    and b: "b = snd (key_allow (fw_Limit r) (fw_Window r) t (slot_of r (rl_key key)))"
    and own: "expire t (slot_of r' (rl_key key)) =
        expire t (fst (key_allow (fw_Limit r) (fw_Window r) t (slot_of r (rl_key key))))"
    and other: "\<And>k. k \<noteq> rl_key key \<Longrightarrow> expire t (slot_of r' k) = expire t (slot_of r k)"
    using Allow_step [OF Cons.prems(1) run] by metis
  let ?ts = "map fst (filter (\<lambda>q. rl_key (snd q) = k) qs)"
  have later: "list_all (\<lambda>u. t \<le> u) ?ts"
    using Cons.prems(2) by (auto simp: q list_all_iff)
  have IH: "of_key k qs (run_allow (Some r') qs) = key_run (fw_Limit r) (fw_Window r) (slot_of r' k) ?ts"
    using Cons.IH [OF r'(2)] Cons.prems(2) r'(3,4) by simp
  have step: "run_allow (Some r) (q # qs) = b # run_allow (Some r') qs"
    by (simp add: q run r'(1))
  show ?case
  proof (cases "rl_key key = k")
    case True
    have "key_run (fw_Limit r) (fw_Window r) (slot_of r' k) ?ts =
        key_run (fw_Limit r) (fw_Window r) (fst (key_allow (fw_Limit r) (fw_Window r) t (slot_of r k))) ?ts"
      using key_run_expire [OF own later] True by simp
    then show ?thesis
      unfolding step of_key_Cons IH using True b by (simp add: q split: prod.split)
  next
    case False
    then show ?thesis
      unfolding step of_key_Cons IH using key_run_expire [OF other later] by (simp add: q)
  qed
qed (simp add: of_key_def)

section \<open>How much one key gets\<close>

text \<open>The calls allowed at a time in the interval of length \<open>W\<close> from \<open>a\<close>.\<close>

definition granted_in :: "int \<Rightarrow> int \<Rightarrow> int list \<Rightarrow> bool list \<Rightarrow> int" where
  "granted_in a W ts bs = int (length (filter (\<lambda>(t, b). b \<and> a \<le> t \<and> t < a + W) (zip ts bs)))"

text \<open>
  What a slot can still grant inside the interval, seen at time \<open>now\<close>: a window that reaches
  past the interval only its rest, one that ends inside it its rest and one more window.
\<close>

definition budget :: "int \<Rightarrow> int \<Rightarrow> int \<Rightarrow> int \<Rightarrow> slot \<Rightarrow> int" where
  "budget L W a now s = (case expire now s of
       None \<Rightarrow> if a \<le> now then L else 2 * L
     | Some (r, n) \<Rightarrow> if a + W \<le> r then L - n else if a < r then 2 * L - n else 2 * L)"

definition slot_ok :: "int \<Rightarrow> slot \<Rightarrow> bool" where
  "slot_ok L s = (case s of None \<Rightarrow> True | Some (r, n) \<Rightarrow> 0 \<le> n \<and> n \<le> L)"

lemma granted_in_Cons:
  "granted_in a W (t # ts) (b # bs) = (if b \<and> a \<le> t \<and> t < a + W then 1 else 0) + granted_in a W ts bs"
  by (simp add: granted_in_def)

lemma granted_in_past: "list_all (\<lambda>t. a + W \<le> t) ts \<Longrightarrow> granted_in a W ts bs = 0"
  by (fastforce simp: granted_in_def list_all_iff filter_empty_conv dest: set_zip_leftD)

lemma budget_later:
  assumes "0 < L" "0 < W" "slot_ok L s" "now \<le> t" "t < a + W"
  shows "budget L W a t s \<le> budget L W a now s"
  using assms by (auto simp: budget_def expire_def slot_ok_def split: option.splits)

lemma budget_step:
  assumes "0 < L" "0 < W" "slot_ok L s" "key_allow L W t s = (s', b)"
  shows "slot_ok L s'" and "t < a + W \<Longrightarrow>
    (if b \<and> a \<le> t then 1 else 0) + budget L W a t s' \<le> budget L W a t s"
  using assms
  by (auto simp: budget_def expire_def slot_ok_def key_allow_def split: option.splits if_splits)

lemma budget_nonneg: "0 < L \<Longrightarrow> slot_ok L s \<Longrightarrow> 0 \<le> budget L W a now s"
  by (auto simp: budget_def expire_def slot_ok_def split: option.splits)

lemma granted_budget:
  assumes "0 < L" "0 < W" "slot_ok L s" "sorted (now # ts)"
  shows "granted_in a W ts (key_run L W s ts) \<le> budget L W a now s"
  using assms(3,4)
proof (induction ts arbitrary: s now)
  case (Cons t ts)
  obtain s' b where st: "key_allow L W t s = (s', b)" by fastforce
  show ?case
  proof (cases "t < a + W")
    case True
    note b = budget_step [OF assms(1,2) Cons.prems(1) st]
    have "granted_in a W ts (key_run L W s' ts) \<le> budget L W a t s'"
      using Cons.IH [OF b(1)] Cons.prems(2) by simp
    moreover have "budget L W a t s \<le> budget L W a now s"
      using budget_later [OF assms(1,2) Cons.prems(1) _ True] Cons.prems(2) by simp
    ultimately show ?thesis
      using b(2) [OF True] True by (auto simp: st granted_in_Cons split: if_splits)
  next
    case False
    then have "list_all (\<lambda>t. a + W \<le> t) (t # ts)"
      using Cons.prems(2) by (auto simp: list_all_iff)
    then show ?thesis using granted_in_past budget_nonneg [OF assms(1) Cons.prems(1)] by metis
  qed
qed (simp add: granted_in_def budget_nonneg [OF assms(1)])

section \<open>Properties\<close>

text \<open>
  C28. Isolation and invisibility of eviction: over any run of calls in order of time, the
  decisions for a key are those of a counter of its own that sees only the calls of that key.
\<close>

theorem run_allow_isolated:
  assumes "0 < limit" and "sorted (map fst qs)"
  shows "of_key k qs (run_allow (Some (NewFixedWindow limit window)) qs) =
    key_run limit (if window \<le> 0 then minute else window) None
      (map fst (filter (\<lambda>q. rl_key (snd q) = k) qs))"
  using run_allow_key [OF fw_ok_New [OF assms(1)] assms(2), of k window]
  by (simp add: NewFixedWindow_def slot_of_def)

definition sample_calls :: "(int \<times> string) list" where
  "sample_calls = [(0, ''a''), (1, ''b''), (2, ''a''), (3, ''a''), (12, ''a''), (13, [])]"

theorem run_allow_isolated_witness:
  "run_allow (Some (NewFixedWindow 2 10)) sample_calls = [True, True, True, False, True, True]
   \<and> of_key ''a'' sample_calls (run_allow (Some (NewFixedWindow 2 10)) sample_calls)
       = key_run 2 10 None [0, 2, 3, 12]"
proof -
  have "run_allow (Some (NewFixedWindow 2 10)) sample_calls = [True, True, True, False, True, True]"
    by (simp add: sample_calls_def NewFixedWindow_def Allow_def al_put_def al_del_def)
  then show ?thesis
    using run_allow_isolated [of 2 sample_calls "''a''" 10] by (simp add: sample_calls_def rl_key_def)
qed

text \<open>
  C29. The bound a client sees: in every interval as long as the window, however it is placed,
  a key is granted at most twice the limit.
\<close>

theorem run_allow_bound:
  assumes "0 < limit" and "0 < window" and "sorted (map fst qs)"
  shows "granted_in a window (map fst (filter (\<lambda>q. rl_key (snd q) = k) qs))
      (of_key k qs (run_allow (Some (NewFixedWindow limit window)) qs)) \<le> 2 * limit"
proof -
  let ?ts = "map fst (filter (\<lambda>q. rl_key (snd q) = k) qs)"
  have "sorted ?ts" using assms(3) by (simp add: sorted_map sorted_wrt_filter)
  then have "sorted ((if ?ts = [] then 0 else hd ?ts) # ?ts)"
    by (cases ?ts) auto
  then have "granted_in a window ?ts (key_run limit window None ?ts) \<le>
      budget limit window a (if ?ts = [] then 0 else hd ?ts) None"
    using granted_budget [OF assms(1,2)] by (simp add: slot_ok_def)
  also have "\<dots> \<le> 2 * limit" using assms(1) by (simp add: budget_def expire_def)
  finally show ?thesis
    using run_allow_key [OF fw_ok_New [OF assms(1)] assms(3), of k window] assms(2)
    by (simp add: NewFixedWindow_def slot_of_def)
qed

theorem run_allow_bound_witness:
  "granted_in 1 10 [0, 2, 3, 12]
     (of_key ''a'' sample_calls (run_allow (Some (NewFixedWindow 2 10)) sample_calls)) \<le> 4"
  using run_allow_bound [of 2 10 sample_calls 1 "''a''"] by (simp add: sample_calls_def rl_key_def)

end
