(* ===== verification/Api_Auth.thy ===== *)
theory Api_Auth
  imports Api_Jwt Api_RateLimit Go_Net Runtime_Iface
begin

text \<open>
  Package \<open>internal/api\<close>, file \<open>auth.go\<close>, with \<open>rateKey\<close> and \<open>remoteHost\<close>: who may bind
  where, and who may call. Requests are reduced to what these functions read. SHA-256 is the
  field \<open>je_sha256\<close> of the environment of the JWT verifier.
\<close>

section \<open>Binding\<close>

record auth_policy =
  ap_APIKey :: string
  ap_AllowAnon :: bool
  ap_JWKSURL :: string
  ap_MTLS :: bool
  ap_RequireAll :: bool
  ap_MTLSSuffices :: bool

definition isLoopbackAddr :: "string \<Rightarrow> bool" where
  "isLoopbackAddr addr =
     (let host = trim_space (case split_host_port addr of None \<Rightarrow> addr | Some (h, _) \<Rightarrow> h) in
      if host = [] \<or> host = ''0.0.0.0'' \<or> host = ''::'' \<or> host = ''[::]'' then False
      else if host = ''localhost'' then True
      else (case parse_ip (trim_set [CHR ''['', CHR '']''] host) of
          None \<Rightarrow> False
        | Some p \<Rightarrow> is_loopback p))"

definition IsLoopbackAddr :: "string \<Rightarrow> bool" where
  "IsLoopbackAddr addr = isLoopbackAddr addr"

abbreviation ErrAnonymousPublic :: gerr where
  "ErrAnonymousPublic \<equiv> Sentinel ''api.ErrAnonymousPublic''"

definition CheckBindPolicy :: "string \<Rightarrow> auth_policy \<Rightarrow> gerr option" where
  "CheckBindPolicy addr p =
     (if ap_AllowAnon p \<or> trim_space (ap_APIKey p) \<noteq> [] \<or> trim_space (ap_JWKSURL p) \<noteq> [] \<or> ap_MTLS p
      then None
      else if isLoopbackAddr addr then None
      else Some (Wrapf ''%w: %s'' [addr] ErrAnonymousPublic))"

definition CheckBind :: "string \<Rightarrow> string \<Rightarrow> bool \<Rightarrow> gerr option" where
  "CheckBind addr apiKey allowAnon = CheckBindPolicy addr
     \<lparr>ap_APIKey = apiKey, ap_AllowAnon = allowAnon, ap_JWKSURL = [], ap_MTLS = False,
      ap_RequireAll = False, ap_MTLSSuffices = False\<rparr>"

section \<open>Requests\<close>

text \<open>
  \<open>hr_Header\<close> is \<open>Header.Get\<close> (the empty string for an absent header); \<open>hr_TLS\<close> holds the
  common names of the peer certificates of a TLS connection.
\<close>

record http_request =
  hr_Method :: string
  hr_Path :: string
  hr_Header :: "string \<Rightarrow> string"
  hr_TLS :: "string list option"
  hr_RemoteAddr :: string

definition HeaderAPIKey :: string where "HeaderAPIKey = ''X-Api-Key''"
definition HeaderRequestID :: string where "HeaderRequestID = ''X-Request-Id''"

definition tokenFromRequest :: "http_request \<Rightarrow> string" where
  "tokenFromRequest r =
     (let k = trim_space (hr_Header r HeaderAPIKey) in
      if k \<noteq> [] then k
      else
        let al = trim_space (hr_Header r ''Authorization'') in
        if 7 \<le> length al \<and> equal_fold_ascii (take 7 al) ''bearer '' then trim_space (drop 7 al)
        else [])"

definition apiKeyEqual :: "(string \<Rightarrow> string) \<Rightarrow> string \<Rightarrow> string \<Rightarrow> bool" where
  "apiKeyEqual sha256 got want = (if want = [] then False else sha256 got = sha256 want)"

definition clientCN :: "string list option \<Rightarrow> string" where
  "clientCN tls = (case tls of Some (cn # _) \<Rightarrow> cn | _ \<Rightarrow> [])"

definition hasPeerCert :: "http_request \<Rightarrow> bool" where
  "hasPeerCert r = (case hr_TLS r of Some (_ # _) \<Rightarrow> True | _ \<Rightarrow> False)"

definition remoteHost :: "http_request \<Rightarrow> string" where
  "remoteHost r = (case split_host_port (hr_RemoteAddr r) of
       None \<Rightarrow> hr_RemoteAddr r
     | Some (h, _) \<Rightarrow> h)"

definition rateKey :: "(string \<Rightarrow> string) \<Rightarrow> http_request \<Rightarrow> string \<Rightarrow> string \<Rightarrow> string" where
  "rateKey sha256 r meth cn =
     (let tok = tokenFromRequest r in
      if tok \<noteq> [] then ''tok:'' @ concat (map (\<lambda>c. hex_pad 2 (byte c)) (take 8 (sha256 tok)))
      else if cn \<noteq> [] then ''cn:'' @ cn
      else if meth \<noteq> [] \<and> meth \<noteq> ''none'' then ''auth:'' @ meth
      else ''ip:'' @ remoteHost r)"

section \<open>Authorization\<close>

record auth_config =
  ac_APIKey :: string
  ac_MTLS :: bool
  ac_MTLSSuffices :: bool
  ac_RequireAll :: bool

text \<open>
  \<open>authorize\<close> reads the configuration and the verifier (nil when no JWT is configured), at
  time \<open>now\<close>. It returns the verifier with its cache, and method, common name and verdict.
\<close>

definition authorize :: "jwt_env \<Rightarrow> auth_config \<Rightarrow> int \<Rightarrow> http_request \<Rightarrow> jwt_verifier option \<Rightarrow>
    jwt_verifier option \<times> string \<times> string \<times> bool" where
  "authorize E cfg now r jwt =
     (let cn = clientCN (hr_TLS r);
          keyOK = (ac_APIKey cfg \<noteq> [] \<and> apiKeyEqual (je_sha256 E) (tokenFromRequest r) (ac_APIKey cfg));
          token = tokenFromRequest r;
          (jwt', jwtOK) = (if jwt \<noteq> None \<and> looksLikeJWT token then Valid E now token jwt else (jwt, False));
          mtlsOK = hasPeerCert r;
          needKey = (ac_APIKey cfg \<noteq> []);
          needJWT = (jwt \<noteq> None)
      in (jwt',
          if \<not> needKey \<and> \<not> needJWT then (''none'', cn, True)
          else if ac_RequireAll cfg then
            let allOK = ((\<not> needKey \<or> keyOK) \<and> (\<not> needJWT \<or> jwtOK) \<and> \<not> (ac_MTLS cfg \<and> \<not> mtlsOK)) in
            if keyOK \<and> jwtOK then (''api_key+jwt'', cn, allOK)
            else if keyOK then (''api_key'', cn, allOK)
            else if jwtOK then (''jwt'', cn, allOK)
            else ([], cn, False)
          else if keyOK then (''api_key'', cn, True)
          else if jwtOK then (''jwt'', cn, True)
          else if mtlsOK \<and> (ac_MTLSSuffices cfg \<or> ac_APIKey cfg = []) then (''mtls'', cn, True)
          else ([], cn, False)))"

section \<open>Facts\<close>

text \<open>The credentials of a request, and when they are enough.\<close>

definition key_cred :: "jwt_env \<Rightarrow> auth_config \<Rightarrow> http_request \<Rightarrow> bool" where
  "key_cred E cfg r = (ac_APIKey cfg \<noteq> [] \<and> je_sha256 E (tokenFromRequest r) = je_sha256 E (ac_APIKey cfg))"

definition jwt_cred :: "jwt_env \<Rightarrow> int \<Rightarrow> http_request \<Rightarrow> jwt_verifier option \<Rightarrow> bool" where
  "jwt_cred E now r jwt = (snd (Valid E now (tokenFromRequest r) jwt))"

definition enough :: "jwt_env \<Rightarrow> auth_config \<Rightarrow> int \<Rightarrow> http_request \<Rightarrow> jwt_verifier option \<Rightarrow> bool" where
  "enough E cfg now r jwt =
     (if ac_APIKey cfg = [] \<and> jwt = None then True
      else if ac_RequireAll cfg then
        (ac_APIKey cfg \<noteq> [] \<longrightarrow> key_cred E cfg r) \<and> (jwt \<noteq> None \<longrightarrow> jwt_cred E now r jwt)
        \<and> (ac_MTLS cfg \<longrightarrow> hasPeerCert r)
      else key_cred E cfg r \<or> jwt_cred E now r jwt
        \<or> (hasPeerCert r \<and> (ac_MTLSSuffices cfg \<or> ac_APIKey cfg = [])))"

lemma Valid_shape: "snd (Valid E now token jwt) \<Longrightarrow> jwt \<noteq> None \<and> looksLikeJWT token"
  by (auto simp: Valid_def looksLikeJWT_def split: option.splits if_splits)

lemma authorize_enough:
  "snd (snd (snd (authorize E cfg now r jwt))) = enough E cfg now r jwt"
proof -
  define jo where "jo = (if jwt \<noteq> None \<and> looksLikeJWT (tokenFromRequest r)
      then Valid E now (tokenFromRequest r) jwt else (jwt, False))"
  have j: "snd jo = jwt_cred E now r jwt"
    using Valid_shape [of E now "tokenFromRequest r" jwt] by (auto simp: jo_def jwt_cred_def)
  have jn: "snd jo \<Longrightarrow> jwt \<noteq> None" by (auto simp: jo_def split: if_splits)
  obtain jwt' jok where jo: "jo = (jwt', jok)" by fastforce
  have k: "(ac_APIKey cfg \<noteq> [] \<and> apiKeyEqual (je_sha256 E) (tokenFromRequest r) (ac_APIKey cfg)) = key_cred E cfg r"
    by (auto simp: key_cred_def apiKeyEqual_def)
  show ?thesis
    unfolding authorize_def k Let_def jo_def [symmetric] enough_def
    using j jn unfolding jo by (auto simp: key_cred_def)
qed

lemma dotted_plain: "\<forall>c \<in> set (dotted p). 0x20 < byte c \<and> byte c < 0x80"
  using dotted_chars by (fastforce simp: dec_digit_def)

lemma dotted_no: "CHR '':'' \<notin> set (dotted p)" "CHR ''['' \<notin> set (dotted p)" "CHR '']'' \<notin> set (dotted p)"
  using dotted_chars [of "CHR '':''" p] dotted_chars [of "CHR ''[''" p] dotted_chars [of "CHR '']''" p]
  by (auto simp: dec_digit_def)

lemma isLoopback_dotted:
  assumes "CHR '':'' \<notin> set port" "CHR ''['' \<notin> set port" "CHR '']'' \<notin> set port"
  shows "isLoopbackAddr (dotted [a, b, c, d] @ CHR '':'' # port) \<longleftrightarrow> a = 127"
proof -
  let ?h = "dotted [a, b, c, d]"
  have s: "split_host_port (?h @ CHR '':'' # port) = Some (?h, port)"
    using split_host_port_plain dotted_no assms by blast
  have t: "trim_space ?h = ?h" by (rule trim_space_plain [OF dotted_plain])
  have "\<forall>c \<in> set ?h. c \<notin> set [CHR ''['', CHR '']'']"
    using dotted_no by (metis empty_iff insert_iff list.set(1,2))
  then have p: "parse_ip (trim_set [CHR ''['', CHR '']''] ?h) = Some (ipv4 a b c d)"
    by (simp only: trim_set_none parse_ip_dotted)
  have "CHR ''.'' \<in> set ?h" by (simp add: dotted_def)
  then have ne: "?h \<noteq> []" "?h \<noteq> ''localhost''" "?h \<noteq> ''::''" "?h \<noteq> ''[::]''"
    by (auto simp del: set_append)
  have zero: "a = 0" if "?h = ''0.0.0.0''"
  proof -
    have "''0.0.0.0'' = dotted [0, 0, 0, 0]" by code_simp
    then have "ipv4 a b c d = ipv4 0 0 0 0" using that parse_ip_dotted by (metis option.inject)
    then show ?thesis by (simp add: ipv4_def v4_in_6_def)
  qed
  have "is_loopback (ipv4 a b c d) \<longleftrightarrow> a = 127" by (simp add: is_loopback_def)
  then show ?thesis using ne zero
    by (auto simp: isLoopbackAddr_def s t p Let_def)
qed

section \<open>Properties\<close>

text \<open>
  The verdict of \<open>authorize\<close>: with neither a key nor a JWT verifier configured every
  request passes; under \<open>RequireAll\<close> every configured credential must be present; otherwise
  one of them is enough, or a client certificate where it may stand in for the key.
\<close>

theorem authorize_verdict:
  "snd (snd (snd (authorize E cfg now r jwt))) \<longleftrightarrow>
     (if ac_APIKey cfg = [] \<and> jwt = None then True
      else if ac_RequireAll cfg then
        (ac_APIKey cfg = [] \<or> key_cred E cfg r) \<and> (jwt = None \<or> jwt_cred E now r jwt)
        \<and> (if ac_MTLS cfg then hasPeerCert r else True)
      else key_cred E cfg r \<or> jwt_cred E now r jwt
        \<or> (hasPeerCert r \<and> (ac_MTLSSuffices cfg \<or> ac_APIKey cfg = [])))"
  unfolding authorize_enough enough_def by auto

text \<open>
  C37. \<open>RequireAll\<close> with an API key and a JWT verifier reads both credentials from one and the
  same token: a request that presents the key itself is refused unless the key is shaped like a
  JWT, and a request that is authorized carries a JWT-shaped token with the SHA-256 of the key.
\<close>

theorem RequireAll_key_and_jwt_share_a_token:
  assumes "ac_RequireAll cfg" and "ac_APIKey cfg \<noteq> []"
  shows "(tokenFromRequest r = ac_APIKey cfg \<and> \<not> looksLikeJWT (ac_APIKey cfg)
            \<longrightarrow> \<not> snd (snd (snd (authorize E cfg now r (Some v)))))
     \<and> (snd (snd (snd (authorize E cfg now r (Some v))))
            \<longrightarrow> looksLikeJWT (tokenFromRequest r) \<and> je_sha256 E (tokenFromRequest r) = je_sha256 E (ac_APIKey cfg))"
proof -
  have "looksLikeJWT (tokenFromRequest r) \<and> je_sha256 E (tokenFromRequest r) = je_sha256 E (ac_APIKey cfg)"
    if "snd (snd (snd (authorize E cfg now r (Some v))))"
  proof -
    have "key_cred E cfg r" and "jwt_cred E now r (Some v)"
      using that assms by (auto simp: authorize_enough enough_def)
    then show ?thesis using Valid_shape by (auto simp: key_cred_def jwt_cred_def)
  qed
  then show ?thesis by auto
qed

definition both_config :: auth_config where
  "both_config = \<lparr>ac_APIKey = ''secret'', ac_MTLS = False, ac_MTLSSuffices = False, ac_RequireAll = True\<rparr>"

definition key_request :: http_request where
  "key_request = \<lparr>hr_Method = ''POST'', hr_Path = ''/execute'',
     hr_Header = (\<lambda>h. if h = HeaderAPIKey then ''secret'' else []), hr_TLS = None, hr_RemoteAddr = ''10.0.0.9:55000''\<rparr>"

theorem RequireAll_key_and_jwt_share_a_token_witness:
  "key_cred sample_env both_config key_request
   \<and> \<not> snd (snd (snd (authorize sample_env both_config 0 key_request (Some sample_verifier))))"
proof -
  have t: "tokenFromRequest key_request = ''secret''" by code_simp
  have "key_cred sample_env both_config key_request"
    by (simp add: key_cred_def t both_config_def)
  then show ?thesis
    using RequireAll_key_and_jwt_share_a_token [of both_config key_request sample_env 0 sample_verifier]
    by (simp add: both_config_def t looksLikeJWT_def)
qed

text \<open>
  Binding is fail-closed: without a key, a key set, mTLS or the explicit opt-out, an IPv4
  address and port is accepted exactly if it is in 127.0.0.0/8, and the refusal is
  \<open>ErrAnonymousPublic\<close>; a bare port, which means every interface, is refused.
\<close>

theorem CheckBind_fail_closed:
  assumes "CHR '':'' \<notin> set port" "CHR ''['' \<notin> set port" "CHR '']'' \<notin> set port"
    and "\<not> ap_AllowAnon p" "trim_space (ap_APIKey p) = []" "trim_space (ap_JWKSURL p) = []" "\<not> ap_MTLS p"
  shows "CheckBindPolicy (dotted [a, b, c, d] @ CHR '':'' # port) p =
      (if a = 127 then None
       else Some (Wrapf ''%w: %s'' [dotted [a, b, c, d] @ CHR '':'' # port] ErrAnonymousPublic))
    \<and> CheckBindPolicy (CHR '':'' # port) p \<noteq> None"
proof -
  have "split_host_port ([] @ CHR '':'' # port) = Some ([], port)"
    by (rule split_host_port_plain) (use assms in auto)
  then have "\<not> isLoopbackAddr (CHR '':'' # port)"
    by (simp add: isLoopbackAddr_def)
  then show ?thesis
    using isLoopback_dotted [OF assms(1-3)] assms(4-) by (simp add: CheckBindPolicy_def)
qed

theorem CheckBind_fail_closed_witness:
  "CheckBind (dotted [10, 0, 0, 1] @ '':8080'') [] False \<noteq> None
   \<and> CheckBind (dotted [127, 0, 0, 1] @ '':8080'') [] False = None \<and> CheckBind '':8080'' [] False \<noteq> None"
proof -
  note f = CheckBind_fail_closed [of "''8080''" "\<lparr>ap_APIKey = [], ap_AllowAnon = False, ap_JWKSURL = [], ap_MTLS = False,
      ap_RequireAll = False, ap_MTLSSuffices = False\<rparr>"]
  show ?thesis using f [of 10 0 0 1] f [of 127 0 0 1] by (simp add: CheckBind_def)
qed

end
