(* ===== verification/Api_Validate.thy ===== *)
theory Api_Validate
  imports Go_Path
begin

text \<open>
  Package \<open>internal/api\<close>, files \<open>types.go\<close> (request, limits) and \<open>validate.go\<close>. The
  validator normalises the request in place and then checks it, so it is a function to the
  normalised request and the error, if any; the request is returned on the error branches
  too, in the state the code leaves it. The main result: the requests it lets through
  unchanged are exactly the canonical ones, and everything it accepts is canonical.
\<close>

section \<open>The request and its limits\<close>

record execute_request =
  er_Code :: string
  er_Runtime :: string
  er_Timeout :: int
  er_SessionID :: string

definition MaxCodeBytes :: nat where "MaxCodeBytes = 64 * 2 ^ 10"
definition MaxRequestBytes :: nat where "MaxRequestBytes = 2 ^ 20"
definition DefaultTimeoutS :: int where "DefaultTimeoutS = 30"
definition MaxTimeoutS :: int where "MaxTimeoutS = 300"
definition MaxSessionIDLen :: nat where "MaxSessionIDLen = 128"

lemmas api_limits = MaxCodeBytes_def MaxRequestBytes_def DefaultTimeoutS_def MaxTimeoutS_def
  MaxSessionIDLen_def

section \<open>Validation\<close>

definition session_rune :: "unicode_tables \<Rightarrow> rune \<Rightarrow> bool" where
  "session_rune u r = (is_letter u r \<or> is_digit u r \<or> r = 45 \<or> r = 95)"

definition quoted :: "string \<Rightarrow> string" where
  "quoted s = [CHR 0x27] @ s @ [CHR 0x27]"

definition validateSessionID :: "unicode_tables \<Rightarrow> string \<Rightarrow> gerr option" where
  "validateSessionID u sid =
     (if sid = [] then None
      else if length sid > MaxSessionIDLen then
        Some (Errorf ''session_id exceeds %d characters'' [nat_dec MaxSessionIDLen])
      else if list_all (session_rune u) (runes sid) then None
      else Some (Errorf (''session_id may only contain letters, digits, '' @ quoted ''-'' @ '' and '' @ quoted ''_'') []))"

definition normalise :: "unicode_tables \<Rightarrow> execute_request \<Rightarrow> execute_request" where
  "normalise u req = req
     \<lparr>er_Code := trim_right_set [CHR 0x00] (er_Code req),
      er_Runtime := to_lower u (trim_space (er_Runtime req)),
      er_SessionID := trim_space (er_SessionID req)\<rparr>"

definition validateExecute :: "unicode_tables \<Rightarrow> execute_request \<Rightarrow> execute_request \<times> gerr option" where
  "validateExecute u req0 =
     (let req = normalise u req0 in
      if trim_space (er_Code req) = [] then (req, Some (Errorf ''code is required'' []))
      else if length (er_Code req) > MaxCodeBytes then
        (req, Some (Errorf ''code exceeds %d bytes'' [nat_dec MaxCodeBytes]))
      else if er_Runtime req = [] then (req, Some (Errorf ''runtime is required'' []))
      else
        let req = (if er_Runtime req = ''python3'' then req\<lparr>er_Runtime := ''python''\<rparr> else req) in
        if er_Runtime req \<noteq> ''python'' \<and> er_Runtime req \<noteq> ''node'' then
          (req, Some (Errorf ''runtime %q is not supported (want python or node)'' [er_Runtime req]))
        else
          let req = (if er_Timeout req = 0 then req\<lparr>er_Timeout := DefaultTimeoutS\<rparr> else req) in
          if er_Timeout req < 1 \<or> er_Timeout req > MaxTimeoutS then
            (req, Some (Errorf ''timeout must be between 1 and %d seconds'' [int_dec MaxTimeoutS]))
          else (case validateSessionID u (er_SessionID req) of
              Some e \<Rightarrow> (req, Some e)
            | None \<Rightarrow> (req, None)))"

section \<open>Canonical requests\<close>

definition canonical :: "unicode_tables \<Rightarrow> execute_request \<Rightarrow> bool" where
  "canonical u r =
     (trim_space (er_Code r) \<noteq> [] \<and> last (er_Code r) \<noteq> CHR 0x00
      \<and> length (er_Code r) \<le> MaxCodeBytes
      \<and> (er_Runtime r = ''python'' \<or> er_Runtime r = ''node'')
      \<and> 1 \<le> er_Timeout r \<and> er_Timeout r \<le> MaxTimeoutS
      \<and> trim_space (er_SessionID r) = er_SessionID r
      \<and> validateSessionID u (er_SessionID r) = None)"

lemma trim_right_set_last: "trim_right_set cs s \<noteq> [] \<Longrightarrow> last (trim_right_set cs s) \<notin> set cs"
  using hd_dropWhile [of "\<lambda>c. c \<in> set cs" "rev s"]
  by (auto simp: trim_right_set_def last_rev)

lemma trim_right_set_fixed: "s \<noteq> [] \<Longrightarrow> last s \<notin> set cs \<Longrightarrow> trim_right_set cs s = s"
  by (cases s rule: rev_cases) (simp_all add: trim_right_set_def)

lemma to_lower_runtime: "to_lower u ''python'' = ''python''" "to_lower u ''node'' = ''node''"
  by (rule to_lower_fixed, simp add: char_class_defs)+

lemma trim_space_runtime: "trim_space ''python'' = ''python''" "trim_space ''node'' = ''node''"
  by code_simp+

lemma validateExecute_accepts_canonical:
  "validateExecute u req = (r, None) \<Longrightarrow> canonical u r"
proof -
  assume a: "validateExecute u req = (r, None)"
  let ?n = "normalise u req"
  have code: "er_Code r = er_Code ?n" and sid: "er_SessionID r = er_SessionID ?n"
    and t: "trim_space (er_Code ?n) \<noteq> []" and len: "length (er_Code ?n) \<le> MaxCodeBytes"
    and rt: "er_Runtime r = ''python'' \<or> er_Runtime r = ''node''"
    and tm: "1 \<le> er_Timeout r" "er_Timeout r \<le> MaxTimeoutS"
    and v: "validateSessionID u (er_SessionID r) = None"
    using a by (auto simp: validateExecute_def Let_def split: if_splits option.splits)
  have "last (er_Code ?n) \<noteq> CHR 0x00"
    using t trim_right_set_last [of "[CHR 0x00]" "er_Code req"]
    by (cases "er_Code ?n = []") (simp_all add: normalise_def)
  moreover have "trim_space (er_SessionID r) = er_SessionID r"
    by (simp add: sid normalise_def)
  ultimately show ?thesis using code t len rt tm v by (simp add: canonical_def)
qed

lemma canonical_fixed: "canonical u r \<Longrightarrow> validateExecute u r = (r, None)"
proof -
  assume c: "canonical u r"
  then have "er_Code r \<noteq> []" by (auto simp: canonical_def)
  with c have n: "normalise u r = r"
    by (auto simp: normalise_def canonical_def trim_right_set_fixed to_lower_runtime trim_space_runtime)
  show ?thesis using c
    by (auto simp: validateExecute_def n Let_def canonical_def)
qed

section \<open>Session ids are path components\<close>

lemma session_rune_not: "\<not> session_rune u 46" "\<not> session_rune u 47"
  by (simp_all add: session_rune_def is_letter_def is_digit_def char_class_defs)

lemma validateSessionID_byte:
  assumes "validateSessionID u sid = None" and "c \<in> set sid" and "byte c < 0x80"
  shows "session_rune u (byte c)"
proof -
  have "list_all (session_rune u) (runes sid)"
    using assms(1,2) by (auto simp: validateSessionID_def split: if_splits)
  then show ?thesis
    using ascii_byte_in_runes [OF assms(2,3)] by (simp add: list_all_iff)
qed

lemma validateSessionID_path_name:
  assumes "validateSessionID u sid = None" and "sid \<noteq> []"
  shows "path_name sid"
proof -
  have dot: "CHR ''.'' \<notin> set sid" and slash: "CHR ''/'' \<notin> set sid"
    using validateSessionID_byte [OF assms(1)] session_rune_not [of u] by fastforce+
  have "sid \<noteq> ''.''" and "sid \<noteq> ''..''" using dot by auto
  with slash assms(2) show ?thesis by (simp add: path_name_def)
qed

section \<open>Properties\<close>

text \<open>
  \<open>validateExecute\<close> is a normaliser onto the contract: a request it accepts is turned
  into a canonical one, and validating that again accepts it unchanged.
\<close>

theorem validateExecute_canonical:
  "(\<exists>req. validateExecute u req = (r, None)) \<longleftrightarrow> canonical u r
   \<and> validateExecute u r = (r, None)"
  using validateExecute_accepts_canonical canonical_fixed by blast

text \<open>
  What a request needs to be accepted: code that is not blank and, without trailing NUL
  bytes, has at most 64 KiB; python, python3 or node up to case and blanks; a timeout of 0
  (the default) or 1 to 300 seconds; a session id that passes \<open>validateSessionID\<close>.
\<close>

theorem validateExecute_accepts_iff:
  "snd (validateExecute u req) = None \<longleftrightarrow>
     trim_space (trim_right_set [CHR 0x00] (er_Code req)) \<noteq> []
     \<and> length (trim_right_set [CHR 0x00] (er_Code req)) \<le> 65536
     \<and> to_lower u (trim_space (er_Runtime req)) \<in> {''python'', ''python3'', ''node''}
     \<and> 0 \<le> er_Timeout req \<and> er_Timeout req \<le> 300
     \<and> validateSessionID u (trim_space (er_SessionID req)) = None"
  by (simp add: validateExecute_def Let_def normalise_def api_limits split: option.split)

text \<open>
  C34. An accepted session id is a single path component of at most 128 bytes, so a directory
  named after it lies directly below its parent, and two accepted ids share a directory only
  if they are equal.
\<close>

theorem accepted_session_path_safe:
  assumes "snd (validateExecute u req) = None" and "snd (validateExecute u req') = None"
    and "er_SessionID (fst (validateExecute u req)) = sid" and "sid \<noteq> []"
    and "er_SessionID (fst (validateExecute u req')) = sid'" and "sid' \<noteq> []"
    and "root \<noteq> []"
  shows "length sid \<le> 128 \<and> path_name sid \<and> path_base (path_join [root, sid]) = sid
     \<and> (path_join [root, sid] = path_join [root, sid'] \<longleftrightarrow> sid = sid')"
proof -
  have c: "canonical u (fst (validateExecute u req))" "canonical u (fst (validateExecute u req'))"
    using assms(1,2) validateExecute_accepts_canonical by (metis prod.collapse)+
  then have v: "validateSessionID u sid = None" "validateSessionID u sid' = None"
    using assms by (auto simp: canonical_def)
  have "length sid \<le> 128"
    using v(1) by (auto simp: validateSessionID_def api_limits split: if_splits)
  then show ?thesis
    using validateSessionID_path_name [OF v(1) assms(4)] validateSessionID_path_name [OF v(2) assms(6)]
      path_base_join path_join_inject assms(7) by blast
qed

definition sample_request :: "string \<Rightarrow> execute_request" where
  "sample_request sid = \<lparr>er_Code = ''print(1)'', er_Runtime = '' python3 '', er_Timeout = 0, er_SessionID = sid\<rparr>"

lemma sample_request_valid:
  assumes "validateSessionID ascii_tables (trim_space sid) = None"
  shows "validateExecute ascii_tables (sample_request sid) =
      (\<lparr>er_Code = ''print(1)'', er_Runtime = ''python'', er_Timeout = 30, er_SessionID = trim_space sid\<rparr>, None)"
proof -
  have "trim_right_set [CHR 0x00] ''print(1)'' = ''print(1)''" "trim_space ''print(1)'' = ''print(1)''"
    and r: "trim_space '' python3 '' = ''python3''"
    by code_simp+
  moreover have "to_lower ascii_tables (trim_space '' python3 '') = ''python3''"
    unfolding r by (rule to_lower_fixed) (simp add: char_class_defs)
  ultimately show ?thesis using assms
    by (simp add: validateExecute_def normalise_def sample_request_def api_limits Let_def)
qed

theorem accepted_session_path_safe_witness:
  "snd (validateExecute ascii_tables (sample_request '' a-1'')) = None
   \<and> path_base (path_join [''/var'', ''a-1'']) = ''a-1''
   \<and> path_join [''/var'', ''a-1''] \<noteq> path_join [''/var'', ''b_2'']"
proof -
  have t: "trim_space '' a-1'' = ''a-1''" "trim_space ''b_2'' = ''b_2''" by code_simp+
  have v: "validateSessionID ascii_tables ''a-1'' = None" "validateSessionID ascii_tables ''b_2'' = None"
    by (simp_all add: validateSessionID_def api_limits session_rune_def is_letter_def is_digit_def char_class_defs)
  note s = sample_request_valid [of "'' a-1''", unfolded t, OF v(1)]
    sample_request_valid [of "''b_2''", unfolded t, OF v(2)]
  show ?thesis
    using accepted_session_path_safe [of ascii_tables "sample_request '' a-1''" "sample_request ''b_2''"
        "''a-1''" "''b_2''" "''/var''"] by (simp add: s)
qed

end
