(* ===== verification/Audit_Log.thy ===== *)
theory Audit_Log
  imports Go_Strings
begin

text \<open>
  Package \<open>internal/audit\<close>: events, the summary of the code, and the sinks. A sink is a
  function of the event and the state of the world it writes to; it returns the new state and
  the error, if any. The interface \<open>audit.Logger\<close> is the locale \<open>audit_logger\<close>, whose \<open>seen\<close>
  reads the events a sink has stored. Parameters: the JSON text of an event, the operations on
  a file, an HTTP request, a SQL statement, and SHA-256. The zero \<open>time.Time\<close> is \<open>None\<close>; the
  error text of an event is kept as the error value it was taken from.
\<close>

section \<open>Events\<close>

record event =
  ev_Timestamp :: "int option"
  ev_RequestID :: string
  ev_SessionID :: string
  ev_Runtime :: string
  ev_CodeSHA256 :: string
  ev_CodeBytes :: int
  ev_CodePreview :: string
  ev_VMID :: string
  ev_ExitCode :: int
  ev_TimedOut :: bool
  ev_DurationMS :: int
  ev_Error :: "gerr option"
  ev_AuthMethod :: string
  ev_ClientCN :: string

definition MaxCodePreview :: nat where "MaxCodePreview = 256"

definition hex_string :: "string \<Rightarrow> string" where
  "hex_string s = concat (map (\<lambda>c. hex_pad 2 (byte c)) s)"

definition SummarizeCode :: "(string \<Rightarrow> string) \<Rightarrow> string \<Rightarrow> string \<times> int \<times> string" where
  "SummarizeCode sha256 code =
     (hex_string (sha256 code), int (length code),
      if MaxCodePreview < length code then take MaxCodePreview code else code)"

type_synonym 'a logger = "event \<Rightarrow> 'a \<Rightarrow> 'a \<times> gerr option"

definition stamp :: "int \<Rightarrow> event \<Rightarrow> event" where
  "stamp now ev = (case ev_Timestamp ev of None \<Rightarrow> ev\<lparr>ev_Timestamp := Some now\<rparr> | Some _ \<Rightarrow> ev)"

section \<open>Sinks\<close>

definition MemoryLogger_Record :: "event list logger" where
  "MemoryLogger_Record ev evs = (evs @ [ev], None)"

definition MemoryLogger_Events :: "event list \<Rightarrow> event list" where
  "MemoryLogger_Events evs = evs"

text \<open>The loop of \<open>Fanout.Record\<close>; a nil sink is \<open>None\<close>.\<close>

fun fanout_loop :: "'a logger option list \<Rightarrow> event \<Rightarrow> 'a \<Rightarrow> 'a \<times> gerr list" where
  "fanout_loop [] ev a = (a, [])"
| "fanout_loop (None # ss) ev a = fanout_loop ss ev a"
| "fanout_loop (Some s # ss) ev a = (case s ev a of (a1, r) \<Rightarrow>
     (case fanout_loop ss ev a1 of (a2, es) \<Rightarrow>
        (a2, (case r of None \<Rightarrow> es | Some e \<Rightarrow> e # es))))"

definition Fanout_Record :: "'a logger option list \<Rightarrow> 'a logger" where
  "Fanout_Record sinks ev a = (case fanout_loop sinks ev a of (a', es) \<Rightarrow> (a', errors_join es))"

text \<open>\<open>SlogSink\<close> emits the fields without the preview and the timestamp and never fails.\<close>

definition slog_fields :: "event \<Rightarrow> event" where
  "slog_fields ev = ev\<lparr>ev_CodePreview := [], ev_Timestamp := None\<rparr>"

definition SlogSink_Record :: "event list logger" where
  "SlogSink_Record ev lines = (lines @ [slog_fields ev], None)"

record 'a file_ops =
  fo_open :: "string \<Rightarrow> 'a \<Rightarrow> 'a \<times> gerr option"
  fo_write :: "string \<Rightarrow> string \<Rightarrow> 'a \<Rightarrow> 'a \<times> gerr option"
  fo_sync :: "string \<Rightarrow> 'a \<Rightarrow> 'a \<times> gerr option"
  fo_now :: "'a \<Rightarrow> int"

definition JSONLLogger_Record :: "(event \<Rightarrow> string res) \<Rightarrow> 'a file_ops \<Rightarrow> string \<Rightarrow> 'a logger" where
  "JSONLLogger_Record marshal F path ev0 a =
     (let ev = stamp (fo_now F a) ev0 in
      case marshal ev of
        Inl e \<Rightarrow> (a, Some (Wrapf ''audit marshal: %w'' [] e))
      | Inr line \<Rightarrow> (case fo_open F path a of
          (a1, Some e) \<Rightarrow> (a1, Some (Wrapf ''audit open %s: %w'' [path] e))
        | (a1, None) \<Rightarrow> (case fo_write F path (line @ [CHR 0x0A]) a1 of
            (a2, Some e) \<Rightarrow> (a2, Some (Wrapf ''audit write: %w'' [] e))
          | (a2, None) \<Rightarrow> (case fo_sync F path a2 of
              (a3, Some e) \<Rightarrow> (a3, Some (Wrapf ''audit fsync: %w'' [] e))
            | (a3, None) \<Rightarrow> (a3, None)))))"

record http_post =
  hp_URL :: string
  hp_Authorization :: "string option"
  hp_ContentType :: string
  hp_Body :: string

record http_sink =
  hs_URL :: string
  hs_Token :: string

text \<open>\<open>new_request\<close> is what \<open>http.NewRequest\<close> makes of the URL, \<open>post\<close> sends the request.\<close>

definition HTTPSink_Record :: "(event \<Rightarrow> string res) \<Rightarrow> (string \<Rightarrow> gerr option) \<Rightarrow>
    (http_post \<Rightarrow> 'a \<Rightarrow> 'a \<times> int res) \<Rightarrow> http_sink \<Rightarrow> 'a logger" where
  "HTTPSink_Record marshal new_request post h ev a =
     (if hs_URL h = [] then (a, Some (Errorf ''audit http: empty URL'' []))
      else case marshal ev of
        Inl e \<Rightarrow> (a, Some e)
      | Inr body \<Rightarrow> (case new_request (hs_URL h) of
          Some e \<Rightarrow> (a, Some e)
        | None \<Rightarrow>
            (case post \<lparr>hp_URL = hs_URL h,
                hp_Authorization = (if hs_Token h = [] then None else Some (''Bearer '' @ hs_Token h)),
                hp_ContentType = ''application/json'', hp_Body = body\<rparr> a of
               (a1, Inl e) \<Rightarrow> (a1, Some (Wrapf ''audit http: %w'' [] e))
             | (a1, Inr status) \<Rightarrow>
                 if status < 200 \<or> 300 \<le> status
                 then (a1, Some (Errorf ''audit http: status %d'' [int_dec status]))
                 else (a1, None))))"

datatype sql_stmt = AuditDDL | AuditInsert event

record sql_sink =
  sq_EnsureSchema :: bool
  sq_Timeout :: int
  sq_ensured :: bool

text \<open>
  The database handle is \<open>exec\<close>; \<open>None\<close> is a nil handle. The timeout of the sink reaches the
  statement. The sink's own flag is the first component of the state.
\<close>

definition SQLSink_Record :: "(int \<Rightarrow> sql_stmt \<Rightarrow> 'd \<Rightarrow> 'd \<times> gerr option) option \<Rightarrow> ('d \<Rightarrow> int) \<Rightarrow>
    event \<Rightarrow> sql_sink \<times> 'd \<Rightarrow> (sql_sink \<times> 'd) \<times> gerr option" where
  "SQLSink_Record db now ev st = (case db of
       None \<Rightarrow> (st, Some (Errorf ''audit sql: no database'' []))
     | Some exec \<Rightarrow> (case st of (s, d) \<Rightarrow>
         (let (d1, ddl) = (if \<not> sq_ensured s \<and> sq_EnsureSchema s
                           then exec (sq_Timeout s) AuditDDL d else (d, None));
              s1 = (if \<not> sq_ensured s \<and> sq_EnsureSchema s then s\<lparr>sq_ensured := True\<rparr> else s)
          in case ddl of
               Some e \<Rightarrow> ((s, d1), Some (Wrapf ''audit sql schema: %w'' [] e))
             | None \<Rightarrow> (case exec (sq_Timeout s) (AuditInsert (stamp (now d1) ev)) d1 of
                 (d2, Some e) \<Rightarrow> ((s1, d2), Some (Wrapf ''audit sql insert: %w'' [] e))
               | (d2, None) \<Rightarrow> ((s1, d2), None)))))"

definition StdSQL_ExecContext :: "(sql_stmt \<Rightarrow> 'd \<Rightarrow> 'd \<times> gerr option) option \<Rightarrow> sql_stmt \<Rightarrow> 'd \<Rightarrow> 'd \<times> gerr option" where
  "StdSQL_ExecContext f q d = (case f of
       None \<Rightarrow> (d, Some (Errorf ''audit sql: nil adapter'' []))
     | Some g \<Rightarrow> g q d)"

section \<open>The logger interface\<close>

text \<open>
  What a client may rely on: a \<open>Record\<close> that returns nil has stored the event once, at the
  end, at most with a timestamp filled in; one that fails has not lost an earlier event.
\<close>

definition same_event :: "event \<Rightarrow> event \<Rightarrow> bool" where
  "same_event stored ev = (\<exists>t. stored = ev \<or> (ev_Timestamp ev = None \<and> stored = ev\<lparr>ev_Timestamp := t\<rparr>))"

locale audit_logger =
  fixes Record :: "'a logger" and seen :: "'a \<Rightarrow> event list"
  assumes stores: "Record ev a = (a', None) \<Longrightarrow> \<exists>x. same_event x ev \<and> seen a' = seen a @ [x]"
    and keeps: "Record ev a = (a', Some e) \<Longrightarrow> prefix (seen a) (seen a')"
begin

lemma grows: "prefix (seen a) (seen (fst (Record ev a)))"
  using stores keeps by (cases "Record ev a"; cases "snd (Record ev a)") fastforce+

text \<open>A sequence of events, recorded one after the other, and how many of them succeeded.\<close>

fun record_all :: "event list \<Rightarrow> 'a \<Rightarrow> 'a \<times> nat" where
  "record_all [] a = (a, 0)"
| "record_all (ev # evs) a = (case Record ev a of (a1, r) \<Rightarrow>
     (case record_all evs a1 of (a2, n) \<Rightarrow> (a2, if r = None then Suc n else n)))"

lemma record_all_count: "length (seen a) + snd (record_all evs a) \<le> length (seen (fst (record_all evs a)))"
proof (induction evs arbitrary: a)
  case (Cons ev evs)
  obtain a1 r where r: "Record ev a = (a1, r)" by fastforce
  have "length (seen a) + (if r = None then 1 else 0) \<le> length (seen a1)"
    using r stores [of ev a a1] keeps [of ev a a1] by (cases r) (auto dest: prefix_length_le)
  with Cons.IH [of a1] show ?case by (auto simp: r split: prod.split)
qed simp

end

interpretation memory: audit_logger MemoryLogger_Record MemoryLogger_Events
  by unfold_locales (auto simp: MemoryLogger_Record_def MemoryLogger_Events_def same_event_def)

lemma same_event_stamp: "same_event (stamp now ev) ev"
  by (auto simp: same_event_def stamp_def split: option.split)

text \<open>
  The SQL sink on a database that keeps the rows it was asked to insert: it stores every event
  whose insert succeeded, and after its first success the table exists.
\<close>

record db_state =
  db_table :: bool
  db_rows :: "event list"
  db_down :: "nat \<Rightarrow> gerr option"
  db_calls :: nat

definition db_exec :: "int \<Rightarrow> sql_stmt \<Rightarrow> db_state \<Rightarrow> db_state \<times> gerr option" where
  "db_exec timeout q d =
     (let d1 = d\<lparr>db_calls := Suc (db_calls d)\<rparr> in
      case db_down d (db_calls d) of
        Some e \<Rightarrow> (d1, Some e)
      | None \<Rightarrow> (case q of
          AuditDDL \<Rightarrow> (d1\<lparr>db_table := True\<rparr>, None)
        | AuditInsert ev \<Rightarrow>
            if db_table d then (d1\<lparr>db_rows := db_rows d @ [ev]\<rparr>, None)
            else (d1, Some (Errorf ''relation does not exist'' []))))"

definition sql_record :: "(sql_sink \<times> db_state) logger" where
  "sql_record = SQLSink_Record (Some db_exec) (\<lambda>d. int (db_calls d))"

lemma sql_record_cases:
  assumes "sql_record ev (s, d) = ((s', d'), r)"
  shows "r = None \<Longrightarrow> \<exists>x. same_event x ev \<and> db_rows d' = db_rows d @ [x] \<and> db_table d'"
    and "r \<noteq> None \<Longrightarrow> db_rows d' = db_rows d"
  using assms same_event_stamp
  by (auto simp: sql_record_def SQLSink_Record_def db_exec_def Let_def split: if_splits option.splits)

interpretation sql: audit_logger sql_record "\<lambda>st. db_rows (snd st)"
proof unfold_locales
  fix ev and a a' :: "sql_sink \<times> db_state"
  assume r: "sql_record ev a = (a', None)"
  show "\<exists>x. same_event x ev \<and> db_rows (snd a') = db_rows (snd a) @ [x]"
    using sql_record_cases(1) [of ev "fst a" "snd a" "fst a'" "snd a'" None] r by auto
next
  fix ev and a a' :: "sql_sink \<times> db_state" and e
  assume r: "sql_record ev a = (a', Some e)"
  show "prefix (db_rows (snd a)) (db_rows (snd a'))"
    using sql_record_cases(2) [of ev "fst a" "snd a" "fst a'" "snd a'" "Some e"] r by auto
qed

section \<open>Fanout\<close>

text \<open>Each sink, made to note in a log that it was called and what it answered.\<close>

fun traced :: "nat \<Rightarrow> 'a logger option list \<Rightarrow> ('a \<times> (nat \<times> event \<times> gerr option) list) logger option list" where
  "traced i [] = []"
| "traced i (None # ss) = None # traced (Suc i) ss"
| "traced i (Some s # ss) = Some (\<lambda>ev (a, tr). case s ev a of (a', r) \<Rightarrow> ((a', tr @ [(i, ev, r)]), r))
     # traced (Suc i) ss"

definition sink_errors :: "(nat \<times> event \<times> gerr option) list \<Rightarrow> gerr list" where
  "sink_errors tr = List.map_filter (\<lambda>(i, ev, r). r) tr"

fun present :: "nat \<Rightarrow> 'a logger option list \<Rightarrow> nat list" where
  "present i [] = []"
| "present i (s # ss) = (if s = None then present (Suc i) ss else i # present (Suc i) ss)"

lemma fanout_loop_traced:
  "fanout_loop (traced i sinks) ev (a, tr) = ((a', tr'), es) \<Longrightarrow>
     \<exists>new. tr' = tr @ new \<and> map fst new = present i sinks \<and> list_all (\<lambda>x. fst (snd x) = ev) new
       \<and> es = sink_errors new \<and> fanout_loop sinks ev a = (a', es)"
proof (induction i sinks arbitrary: a tr a' tr' es rule: traced.induct)
  case (3 i s ss)
  obtain a1 r where s: "s ev a = (a1, r)" by fastforce
  obtain a2 tr2 es2 where l: "fanout_loop (traced (Suc i) ss) ev (a1, tr @ [(i, ev, r)]) = ((a2, tr2), es2)"
    by (metis prod.collapse)
  then obtain new where new: "tr2 = tr @ (i, ev, r) # new" "map fst new = present (Suc i) ss"
      "list_all (\<lambda>x. fst (snd x) = ev) new" "es2 = sink_errors new" "fanout_loop ss ev a1 = (a2, es2)"
    using 3(1) by fastforce
  have "a' = a2" "tr' = tr2" "es = (case r of None \<Rightarrow> es2 | Some e \<Rightarrow> e # es2)"
    using 3(2) by (simp_all add: s l)
  then show ?case using new
    by (intro exI [of _ "(i, ev, r) # new"]) (simp add: s sink_errors_def map_filter_simps split: option.split)
qed (simp_all add: sink_errors_def map_filter_simps)

section \<open>JSON lines\<close>

text \<open>
  What the logger relies on of a file: opening and syncing do not change its content, a write
  that succeeds appends the text, and the clock is read without an effect.
\<close>

definition append_file :: "'a file_ops \<Rightarrow> string \<Rightarrow> ('a \<Rightarrow> string) \<Rightarrow> bool" where
  "append_file F path content =
     (\<forall>a. content (fst (fo_open F path a)) = content a
        \<and> content (fst (fo_sync F path a)) = content a
        \<and> (\<forall>s a'. fo_write F path s a = (a', None) \<longrightarrow> content a' = content a @ s))"

definition one_line :: "(event \<Rightarrow> string res) \<Rightarrow> bool" where
  "one_line marshal = (\<forall>ev line. marshal ev = Inr line \<longrightarrow> CHR 0x0A \<notin> set line)"

lemma JSONL_appends:
  assumes "append_file F path content" and "JSONLLogger_Record marshal F path ev a = (a', None)"
  shows "\<exists>line. marshal (stamp (fo_now F a) ev) = Inr line \<and> content a' = content a @ line @ [CHR 0x0A]"
proof -
  obtain line where m: "marshal (stamp (fo_now F a) ev) = Inr line"
    using assms(2) by (auto simp: JSONLLogger_Record_def Let_def split: sum.splits)
  obtain a1 where o1: "fo_open F path a = (a1, None)"
    using assms(2) by (auto simp: JSONLLogger_Record_def Let_def m split: prod.splits option.splits)
  obtain a2 where w: "fo_write F path (line @ [CHR 0x0A]) a1 = (a2, None)"
    using assms(2) by (auto simp: JSONLLogger_Record_def Let_def m o1 split: prod.splits option.splits)
  have y: "fo_sync F path a2 = (a', None)"
    using assms(2) by (auto simp: JSONLLogger_Record_def Let_def m o1 w split: prod.splits option.splits)
  have "content a1 = content a" "content a2 = content a1 @ line @ [CHR 0x0A]" "content a' = content a2"
    using assms(1) o1 w y unfolding append_file_def by (metis fst_conv)+
  with m show ?thesis by simp
qed

fun jsonl_all :: "(event \<Rightarrow> string res) \<Rightarrow> 'a file_ops \<Rightarrow> string \<Rightarrow> event list \<Rightarrow> 'a \<Rightarrow> ('a \<times> event list) option" where
  "jsonl_all marshal F path [] a = Some (a, [])"
| "jsonl_all marshal F path (ev # evs) a = (case JSONLLogger_Record marshal F path ev a of
       (a1, Some _) \<Rightarrow> None
     | (a1, None) \<Rightarrow> map_option (\<lambda>(a2, xs). (a2, stamp (fo_now F a) ev # xs)) (jsonl_all marshal F path evs a1))"

lemma jsonl_all_content:
  assumes "append_file F path content" and "jsonl_all marshal F path evs a = Some (a', xs)"
  shows "\<exists>lines. map Inr lines = map marshal xs
    \<and> content a' = content a @ concat (map (\<lambda>l. l @ [CHR 0x0A]) lines)"
  using assms(2)
proof (induction evs arbitrary: a xs)
  case (Cons ev evs)
  obtain a1 where r: "JSONLLogger_Record marshal F path ev a = (a1, None)"
    using Cons.prems by (auto split: prod.splits option.splits)
  obtain line where l: "marshal (stamp (fo_now F a) ev) = Inr line" "content a1 = content a @ line @ [CHR 0x0A]"
    using JSONL_appends [OF assms(1) r] by blast
  obtain ys where ys: "jsonl_all marshal F path evs a1 = Some (a', ys)" "xs = stamp (fo_now F a) ev # ys"
    using Cons.prems by (auto simp: r)
  obtain lines where "map Inr lines = map marshal ys"
      "content a' = content a1 @ concat (map (\<lambda>l. l @ [CHR 0x0A]) lines)"
    using Cons.IH [OF ys(1)] by blast
  then show ?case using l ys(2) by (intro exI [of _ "line # lines"]) simp
qed simp

section \<open>Properties\<close>

text \<open>
  C38. \<open>Fanout.Record\<close> calls every sink that is not nil exactly once, in order, with the
  event as it was given, whatever the others answer, and returns nil only if none of them
  failed; otherwise it returns all their errors joined.
\<close>

theorem Fanout_reaches_every_sink:
  "\<exists>a' new. Fanout_Record (traced 0 sinks) ev (a, []) = ((a', new), errors_join (sink_errors new))
     \<and> Fanout_Record sinks ev a = (a', errors_join (sink_errors new))
     \<and> map fst new = present 0 sinks \<and> list_all (\<lambda>x. fst (snd x) = ev) new"
proof -
  obtain a' tr' es where l: "fanout_loop (traced 0 sinks) ev (a, []) = ((a', tr'), es)"
    by (metis prod.collapse)
  then show ?thesis
    using fanout_loop_traced [OF l] by (simp add: Fanout_Record_def)
qed

text \<open>
  C39. A JSON-lines log written by successful calls of \<open>JSONLLogger.Record\<close>, with an encoder that
  writes no newline and a file that is appended to, splits at the newlines into exactly the texts of the
  recorded events, in order, which are those given up to the timestamp.
\<close>

theorem JSONL_log_splits_into_events:
  assumes "append_file F path content" and "one_line marshal" and "content a = []"
    and "jsonl_all marshal F path evs a = Some (a', xs)"
  shows "list_all2 (\<lambda>line x. marshal x = Inr line) (butlast (split_on (CHR 0x0A) (content a'))) xs
    \<and> last (split_on (CHR 0x0A) (content a')) = []
    \<and> list_all2 same_event xs evs"
proof -
  obtain lines where l: "map Inr lines = map marshal xs"
      "content a' = concat (map (\<lambda>l. l @ [CHR 0x0A]) lines)"
    using jsonl_all_content [OF assms(1,4)] assms(3) by auto
  have "\<forall>l \<in> set lines. CHR 0x0A \<notin> set l"
  proof
    fix l assume "l \<in> set lines"
    then have "Inr l \<in> set (map marshal xs)" using l(1) by (metis image_eqI list.set_map)
    then show "CHR 0x0A \<notin> set l" using assms(2) by (auto simp: one_line_def)
  qed
  then have "split_on (CHR 0x0A) (content a') = lines @ [[]]"
    unfolding l(2) by (rule split_on_lines)
  moreover have "list_all2 (\<lambda>line x. marshal x = Inr line) lines xs"
    using l(1) by (simp add: list_all2_conv_all_nth list_eq_iff_nth_eq)
  moreover have "jsonl_all marshal F path evs a = Some (a', xs) \<Longrightarrow> list_all2 same_event xs evs" for evs a xs
    by (induction evs arbitrary: a xs) (auto simp: same_event_stamp split: prod.splits option.splits)
  ultimately show ?thesis using assms(4) by simp
qed

definition text_file :: "string file_ops" where
  "text_file = \<lparr>fo_open = \<lambda>p a. (a, None), fo_write = \<lambda>p s a. (a @ s, None), fo_sync = \<lambda>p a. (a, None),
     fo_now = \<lambda>a. int (length a)\<rparr>"

definition blank_event :: event where
  "blank_event = \<lparr>ev_Timestamp = None, ev_RequestID = ''r1'', ev_SessionID = [], ev_Runtime = ''python'',
     ev_CodeSHA256 = [], ev_CodeBytes = 0, ev_CodePreview = [], ev_VMID = [], ev_ExitCode = 0, ev_TimedOut = False,
     ev_DurationMS = 0, ev_Error = None, ev_AuthMethod = [], ev_ClientCN = []\<rparr>"

definition id_line :: "event \<Rightarrow> string res" where
  "id_line ev = (if CHR 0x0A \<in> set (ev_RequestID ev) then Inl (Errorf ''newline'' []) else Inr (ev_RequestID ev))"

theorem JSONL_log_splits_into_events_witness:
  "\<exists>a' xs. jsonl_all id_line text_file ''log'' [blank_event, blank_event] [] = Some (a', xs)
     \<and> length xs = 2 \<and> list_all2 same_event xs [blank_event, blank_event]
     \<and> last (split_on (CHR 0x0A) a') = []"
proof -
  have f: "append_file text_file ''log'' (\<lambda>a. a)" and m: "one_line id_line"
    by (auto simp: append_file_def text_file_def one_line_def id_line_def split: if_splits)
  obtain a' xs where r: "jsonl_all id_line text_file ''log'' [blank_event, blank_event] [] = Some (a', xs)" "length xs = 2"
    by (simp add: JSONLLogger_Record_def text_file_def id_line_def stamp_def blank_event_def Let_def)
  then show ?thesis using JSONL_log_splits_into_events [OF f m _ r(1)] by blast
qed

end
