(* ===== verification/Api_Server.thy ===== *)
theory Api_Server
  imports Api_Auth Api_Validate Audit_Log Runtime_Gate
begin

text \<open>
  Package \<open>internal/api\<close>, files \<open>server.go\<close>, \<open>execute.go\<close>, \<open>health.go\<close>, \<open>types.go\<close> and
  \<open>id.go\<close>: the middleware, the two handlers and the sandbox pipeline. The state of the server
  is its JWT verifier and rate limiter, the state of the runtime and that of the audit log;
  every handler maps a request and a state to the new state and the response, or to a panic,
  which the middleware turns into a 500. What \<open>encoding/json\<close> makes of the request body is an
  input (\<open>body\<close>); the response is kept as data. Routing is by the two registered paths.
\<close>

section \<open>Responses\<close>

record execute_response =
  xp_Stdout :: string
  xp_Stderr :: string
  xp_ExitCode :: int
  xp_VMID :: string
  xp_Runtime :: string
  xp_RequestID :: string
  xp_SessionID :: string
  xp_DurationMS :: int
  xp_TimedOut :: bool
  xp_Backend :: string

datatype api_code = CodeInvalidJSON | CodeInvalidRequest | CodeUnsupported | CodeBodyTooLarge
  | CodeMethodNotAllow | CodeInternal | CodeUnavailable | CodeUnauthorized | CodeBusy
  | CodeRateLimited | CodeAuditFailed

datatype resp_body =
    ErrorBody message api_code string
  | ExecuteBody execute_response
  | HealthBody string string bool
  | MuxNotFound

type_synonym response = "int \<times> resp_body"

definition writeError :: "string \<Rightarrow> int \<Rightarrow> api_code \<Rightarrow> message \<Rightarrow> response" where
  "writeError requestID status code msg = (status, ErrorBody msg code requestID)"

definition resultToResponse :: "execute_request \<Rightarrow> string \<Rightarrow> string \<Rightarrow> exec_result \<Rightarrow> int \<Rightarrow> execute_response" where
  "resultToResponse req requestID backend res durationMS =
     \<lparr>xp_Stdout = rs_Stdout res, xp_Stderr = rs_Stderr res, xp_ExitCode = rs_ExitCode res,
      xp_VMID = rs_VMID res, xp_Runtime = er_Runtime req, xp_RequestID = requestID,
      xp_SessionID = er_SessionID req, xp_DurationMS = durationMS, xp_TimedOut = rs_TimedOut res,
      xp_Backend = backend\<rparr>"

definition newRequestID :: "string option \<Rightarrow> string" where
  "newRequestID rand = (case rand of
       None \<Rightarrow> ''00000000000000000000000000000000''
     | Some b \<Rightarrow> hex_string b)"

definition mapExecError :: "gerr \<Rightarrow> int \<times> api_code \<times> string" where
  "mapExecError err =
     (if errors_is err ''runtime.ErrNotImplemented'' \<or> errors_is err ''runtime.ErrMissingAssets''
      then (503, CodeUnavailable, ''firecracker backend is not ready'')
      else if errors_is err ''runtime.ErrBusy'' then (429, CodeBusy, ''too many concurrent VMs'')
      else if errors_is err ''context.DeadlineExceeded''
      then (504, CodeInternal, ''execution timed out before a VM result'')
      else (500, CodeInternal, ''failed to execute in sandbox''))"

section \<open>The server\<close>

record ('r, 'i, 'a) dependencies =
  dp_Runtime :: "('r, 'i) runtime_ops"
  dp_Limiter :: "(string \<Rightarrow> profile \<Rightarrow> seccomp_profile \<Rightarrow> gerr option) option"
  dp_Limits :: profile
  dp_Seccomp :: seccomp_profile
  dp_Network :: policy
  dp_Audit :: "'a logger option"
  dp_AuditStrict :: bool
  dp_BootTimeout :: int
  dp_QueueWait :: int

record ('r, 'i, 'a) server =
  sv_cfg :: auth_config
  sv_deps :: "('r, 'i, 'a) dependencies"
  sv_env :: jwt_env
  sv_unicode :: unicode_tables

record ('r, 'a) srv_state =
  ss_JWT :: "jwt_verifier option"
  ss_Rate :: "fixed_window option"
  ss_rt :: 'r
  ss_audit :: 'a

text \<open>What the middleware puts into the request's context.\<close>

record req_ctx =
  rc_ctx :: context_t
  rc_requestID :: string
  rc_authMethod :: string
  rc_clientCN :: string

text \<open>
  What the two calls of \<open>Decode\<close> find: the body is cut off at the limit, is not a valid
  request (the request may be filled in part), is followed by more data, or is a request.
\<close>

datatype req_body = TooLarge | Malformed gerr execute_request | Trailing execute_request | Decoded execute_request

definition zero_request :: execute_request where
  "zero_request = \<lparr>er_Code = [], er_Runtime = [], er_Timeout = 0, er_SessionID = []\<rparr>"

definition bootTimeout :: "('r, 'i, 'a) dependencies \<Rightarrow> int" where
  "bootTimeout d = (if 0 < dp_BootTimeout d then dp_BootTimeout d else 20 * 10 ^ 9)"

definition run_spec :: "('r, 'i, 'a) dependencies \<Rightarrow> execute_request \<Rightarrow> spec" where
  "run_spec d req = \<lparr>sp_Language = er_Runtime req, sp_SessionID = er_SessionID req,
     sp_Limits = dp_Limits d, sp_Seccomp = dp_Seccomp d, sp_Network = dp_Network d\<rparr>"

text \<open>
  \<open>run\<close>, and its part from the deferred \<open>Destroy\<close> on, which runs whatever \<open>Execute\<close> does.
\<close>

definition run_instance :: "('r, 'i) runtime_ops \<Rightarrow> context_t \<Rightarrow> execute_request \<Rightarrow> 'i \<Rightarrow> 'r \<Rightarrow>
    'r \<times> (exec_result \<times> gerr option) call" where
  "run_instance ops ctx req inst r1 =
     (let timeout = er_Timeout req * 10 ^ 9;
          execCtx = with_timeout (rt_now ops r1) timeout ctx
      in case rt_Execute ops execCtx inst \<lparr>xr_Code = er_Code req, xr_Timeout = timeout\<rparr> r1 of
           (r2, out) \<Rightarrow>
             (fst (rt_Destroy ops (with_timeout (rt_now ops r2) (5 * 10 ^ 9) Background) inst r2), out))"

definition limit_check :: "('r, 'i, 'a) dependencies \<Rightarrow> spec \<Rightarrow> gerr option" where
  "limit_check d spec = (case dp_Limiter d of
       None \<Rightarrow> None
     | Some apply_limits \<Rightarrow> apply_limits ''pending-vm'' (sp_Limits spec) (sp_Seccomp spec))"

definition boot_context :: "('r, 'i, 'a) dependencies \<Rightarrow> context_t \<Rightarrow> 'r \<Rightarrow> context_t" where
  "boot_context d ctx r = with_timeout (rt_now (dp_Runtime d) r)
     (bootTimeout d + (if 0 < dp_QueueWait d then dp_QueueWait d else 0)) ctx"

definition server_run :: "('r, 'i, 'a) dependencies \<Rightarrow> context_t \<Rightarrow> execute_request \<Rightarrow> 'r \<Rightarrow>
    'r \<times> (exec_result \<times> gerr option) call" where
  "server_run d ctx req r = (case limit_check d (run_spec d req) of
       Some e \<Rightarrow> (r, Ret (zero_result, Some e))
     | None \<Rightarrow> (case rt_Boot (dp_Runtime d) (boot_context d ctx r) (run_spec d req) r of
           (r1, Panic m) \<Rightarrow> (r1, Panic m)
         | (r1, Ret (Inl e)) \<Rightarrow> (r1, Ret (zero_result, Some e))
         | (r1, Ret (Inr inst)) \<Rightarrow> run_instance (dp_Runtime d) ctx req inst r1))"

definition audit_event :: "('r, 'i, 'a) server \<Rightarrow> req_ctx \<Rightarrow> execute_request \<Rightarrow> exec_result \<Rightarrow> int \<Rightarrow> gerr option \<Rightarrow> event" where
  "audit_event s rc req res durationMS execErr =
     (case SummarizeCode (je_sha256 (sv_env s)) (er_Code req) of (hash, n, preview) \<Rightarrow>
        \<lparr>ev_Timestamp = None, ev_RequestID = rc_requestID rc, ev_SessionID = er_SessionID req,
         ev_Runtime = er_Runtime req, ev_CodeSHA256 = hash, ev_CodeBytes = n, ev_CodePreview = preview,
         ev_VMID = rs_VMID res,
         ev_ExitCode = (if execErr \<noteq> None \<and> rs_ExitCode res = 0 then -1 else rs_ExitCode res),
         ev_TimedOut = rs_TimedOut res, ev_DurationMS = durationMS, ev_Error = execErr,
         ev_AuthMethod = rc_authMethod rc, ev_ClientCN = rc_clientCN rc\<rparr>)"

definition recordAudit :: "('r, 'i, 'a) server \<Rightarrow> req_ctx \<Rightarrow> execute_request \<Rightarrow> exec_result \<Rightarrow> int \<Rightarrow> gerr option \<Rightarrow>
    ('r, 'a) srv_state \<Rightarrow> ('r, 'a) srv_state \<times> gerr option" where
  "recordAudit s rc req res durationMS execErr st = (case dp_Audit (sv_deps s) of
       None \<Rightarrow> (st, None)
     | Some Record \<Rightarrow> (case Record (audit_event s rc req res durationMS execErr) (ss_audit st) of
         (a, r) \<Rightarrow> (st\<lparr>ss_audit := a\<rparr>, r)))"

definition elapsed_ms :: "int \<Rightarrow> int \<Rightarrow> int" where
  "elapsed_ms t0 t1 = (t1 - t0) div 10 ^ 6"

definition handleExecute :: "('r, 'i, 'a) server \<Rightarrow> req_ctx \<Rightarrow> string \<Rightarrow> req_body \<Rightarrow> ('r, 'a) srv_state \<Rightarrow>
    ('r, 'a) srv_state \<times> response call" where
  "handleExecute s rc meth body st =
     (let rid = rc_requestID rc; d = sv_deps s;
          reject = (\<lambda>req e code msg. (fst (recordAudit s rc req zero_result 0 (Some e) st),
                                      Ret (writeError rid 400 code msg)))
      in if meth \<noteq> ''POST'' then (st, Ret (writeError rid 405 CodeMethodNotAllow (Lit ''POST required'')))
         else case body of
           TooLarge \<Rightarrow> (st, Ret (writeError rid 413 CodeBodyTooLarge (Lit ''request body too large'')))
         | Malformed e req \<Rightarrow> reject req e CodeInvalidJSON (Lit ''invalid JSON body'')
         | Trailing req \<Rightarrow>
             reject req (Errorf ''trailing data after JSON object'' []) CodeInvalidJSON (Lit ''invalid JSON body'')
         | Decoded req0 \<Rightarrow> (case validateExecute (sv_unicode s) req0 of
             (req, Some e) \<Rightarrow> reject req e CodeInvalidRequest (TextOf e)
           | (req, None) \<Rightarrow>
               (let started = rt_now (dp_Runtime d) (ss_rt st) in
                case server_run d (rc_ctx rc) req (ss_rt st) of
                  (r, Panic m) \<Rightarrow> (st\<lparr>ss_rt := r\<rparr>, Panic m)
                | (r, Ret (res, execErr)) \<Rightarrow>
                    (let durationMS = elapsed_ms started (rt_now (dp_Runtime d) r);
                         (st2, auditErr) = recordAudit s rc req res durationMS execErr (st\<lparr>ss_rt := r\<rparr>)
                     in case execErr of
                          Some e \<Rightarrow> (case mapExecError e of (status, code, msg) \<Rightarrow>
                            (st2, Ret (writeError rid status code (Lit msg))))
                        | None \<Rightarrow>
                            if auditErr \<noteq> None \<and> dp_AuditStrict d
                            then (st2, Ret (writeError rid 500 CodeAuditFailed (Lit ''audit sink failed'')))
                            else (st2, Ret (200, ExecuteBody (resultToResponse req rid
                                   (rt_Name (dp_Runtime d)) res durationMS)))))))"

definition handleHealth :: "('r, 'i, 'a) server \<Rightarrow> req_ctx \<Rightarrow> string \<Rightarrow> ('r, 'a) srv_state \<Rightarrow>
    ('r, 'a) srv_state \<times> response call" where
  "handleHealth s rc meth st =
     (if meth \<noteq> ''GET'' \<and> meth \<noteq> ''HEAD'' then
        (st, Ret (writeError (rc_requestID rc) 405 CodeMethodNotAllow (Lit ''method not allowed'')))
      else
        let ops = dp_Runtime (sv_deps s);
            ready = (case rt_Ready ops of None \<Rightarrow> True | Some f \<Rightarrow> f (ss_rt st) = None)
        in (st, Ret (200, HealthBody (if ready then ''ok'' else ''degraded'') (rt_Name ops) ready)))"

definition serve_mux :: "('r, 'i, 'a) server \<Rightarrow> req_ctx \<Rightarrow> http_request \<Rightarrow> req_body \<Rightarrow> ('r, 'a) srv_state \<Rightarrow>
    ('r, 'a) srv_state \<times> response call" where
  "serve_mux s rc r body st =
     (if hr_Path r = ''/health'' then handleHealth s rc (hr_Method r) st
      else if hr_Path r = ''/execute'' then handleExecute s rc (hr_Method r) body st
      else (st, Ret (404, MuxNotFound)))"

definition recovered :: "string \<Rightarrow> ('r, 'a) srv_state \<times> response call \<Rightarrow> ('r, 'a) srv_state \<times> response" where
  "recovered rid p = (fst p, case snd p of
       Ret resp \<Rightarrow> resp
     | Panic m \<Rightarrow> writeError rid 500 CodeInternal (Lit ''internal error''))"

definition middleware :: "('r, 'i, 'a) server \<Rightarrow> context_t \<Rightarrow> string option \<Rightarrow> http_request \<Rightarrow> req_body \<Rightarrow>
    ('r, 'a) srv_state \<Rightarrow> ('r, 'a) srv_state \<times> response" where
  "middleware s ctx rand r body st =
     (let hid = hr_Header r HeaderRequestID;
          rid = (if hid = [] then newRequestID rand else hid);
          rc = \<lparr>rc_ctx = ctx, rc_requestID = rid, rc_authMethod = [], rc_clientCN = []\<rparr>
      in if hr_Path r = ''/health'' then recovered rid (serve_mux s rc r body st)
         else
           let now = rt_now (dp_Runtime (sv_deps s)) (ss_rt st);
               (jwt, meth, cn, authOK) = authorize (sv_env s) (sv_cfg s) now r (ss_JWT st);
               st1 = st\<lparr>ss_JWT := jwt\<rparr>
           in if \<not> authOK then
                (fst (recordAudit s rc zero_request zero_result 0 (Some (Sentinel ''api.errUnauthorized'')) st1),
                 writeError rid 401 CodeUnauthorized (Lit ''unauthorized''))
              else
                let rc1 = rc\<lparr>rc_authMethod := meth, rc_clientCN := cn\<rparr>;
                    (rate, allowed) = (case ss_Rate st1 of
                        None \<Rightarrow> (None, True)
                      | Some w \<Rightarrow> Allow (Some w) now (rateKey (je_sha256 (sv_env s)) r meth cn));
                    st2 = st1\<lparr>ss_Rate := rate\<rparr>
                in if \<not> allowed then
                     (st2, writeError rid 429 CodeRateLimited (Lit ''rate limit exceeded''))
                   else recovered rid (serve_mux s rc1 r body st2))"

end
