(* ===== verification/Api_Server_Facts.thy ===== *)
theory Api_Server_Facts
  imports Api_Server
begin

text \<open>
  What the HTTP surface guarantees, for any runtime and audit log that keep their contracts:
  no request leaves an instance behind, nobody without credentials or budget reaches the
  runtime, and what a strict server answers with 200 is in the log.
\<close>

section \<open>Frames\<close>

lemma recordAudit_frame [frame_laws]:
  "ss_rt (fst (recordAudit s rc req res ms e st)) = ss_rt st"
  "ss_JWT (fst (recordAudit s rc req res ms e st)) = ss_JWT st"
  "ss_Rate (fst (recordAudit s rc req res ms e st)) = ss_Rate st"
  by (simp_all add: recordAudit_def split: option.split prod.split)

lemma recordAudit_frame_eq [frame_laws]:
  "recordAudit s rc req res ms e st = (st', r) \<Longrightarrow> ss_rt st' = ss_rt st"
  using recordAudit_frame(1) [of s rc req res ms e st] by simp

text \<open>The request that reaches the pipeline, if one does.\<close>

definition runnable :: "unicode_tables \<Rightarrow> string \<Rightarrow> req_body \<Rightarrow> execute_request option" where
  "runnable u meth body =
     (if meth \<noteq> ''POST'' then None
      else case body of
          Decoded req0 \<Rightarrow> (case validateExecute u req0 of (req, None) \<Rightarrow> Some req | _ \<Rightarrow> None)
        | _ \<Rightarrow> None)"

lemma runnable_canonical: "runnable u meth body = Some req \<Longrightarrow> canonical u req"
  by (auto simp: runnable_def split: if_splits req_body.splits prod.splits option.splits
      dest: validateExecute_accepts_canonical)

lemma handleExecute_rt:
  "ss_rt (fst (handleExecute s rc meth body st)) = (case runnable (sv_unicode s) meth body of
       None \<Rightarrow> ss_rt st
     | Some req \<Rightarrow> fst (server_run (sv_deps s) (rc_ctx rc) req (ss_rt st)))"
proof (cases body)
  case (Decoded req0)
  obtain req e where v: "validateExecute (sv_unicode s) req0 = (req, e)" by fastforce
  obtain r out where run: "server_run (sv_deps s) (rc_ctx rc) req (ss_rt st) = (r, out)" by fastforce
  show ?thesis
    by (cases e; cases out)
      (auto simp: handleExecute_def runnable_def Decoded v run Let_def frame_laws
        split: prod.split option.split)
qed (simp_all add: handleExecute_def runnable_def Let_def frame_laws)

lemma handleHealth_state: "fst (handleHealth s rc meth st) = st"
  by (simp add: handleHealth_def Let_def)

section \<open>Admission\<close>

text \<open>
  The verdict of the middleware on a request that is not a health check: refused for lack of
  credentials, over its budget, or passed on.
\<close>

datatype verdict = Unauthorized | Limited | Admitted

definition admission :: "('r, 'i, 'a) server \<Rightarrow> http_request \<Rightarrow> ('r, 'a) srv_state \<Rightarrow> verdict" where
  "admission s r st =
     (let now = rt_now (dp_Runtime (sv_deps s)) (ss_rt st) in
      case authorize (sv_env s) (sv_cfg s) now r (ss_JWT st) of (jwt, meth, cn, authOK) \<Rightarrow>
        if \<not> authOK then Unauthorized
        else (case ss_Rate st of
            None \<Rightarrow> Admitted
          | Some w \<Rightarrow> if snd (Allow (Some w) now (rateKey (je_sha256 (sv_env s)) r meth cn))
                      then Admitted else Limited))"

lemma middleware_rt:
  "ss_rt (fst (middleware s ctx rand r body st)) =
     (if hr_Path r = ''/execute'' \<and> admission s r st = Admitted then
        (case runnable (sv_unicode s) (hr_Method r) body of
           None \<Rightarrow> ss_rt st
         | Some req \<Rightarrow> fst (server_run (sv_deps s) ctx req (ss_rt st)))
      else ss_rt st)"
proof -
  obtain jwt meth cn authOK where a: "authorize (sv_env s) (sv_cfg s)
      (rt_now (dp_Runtime (sv_deps s)) (ss_rt st)) r (ss_JWT st) = (jwt, meth, cn, authOK)"
    using prod_cases4 by blast
  show ?thesis
  proof (cases "hr_Path r = ''/health''")
    case True
    then show ?thesis
      by (simp add: middleware_def Let_def recovered_def serve_mux_def handleHealth_state)
  next
    case False
    then show ?thesis
      by (auto simp: middleware_def admission_def Let_def recovered_def serve_mux_def handleExecute_rt a frame_laws
          split: option.splits prod.splits)
  qed
qed

section \<open>The pipeline leaves no instance behind\<close>

context vm_runtime
begin

lemma server_run_no_leak:
  assumes "inv r" and "dp_Runtime d = ops"
  shows "live (fst (server_run d ctx req r)) = live r" and "inv (fst (server_run d ctx req r))"
proof -
  obtain r1 x where b: "rt_Boot ops (boot_context d ctx r) (run_spec d req) r = (r1, x)" by fastforce
  have i1: "inv r1"
    using boot_inv [OF assms(1), of "boot_context d ctx r" "run_spec d req"] b by simp
  have "live (fst (server_run d ctx req r)) = live r \<and> inv (fst (server_run d ctx req r))"
  proof (cases "\<exists>h. x = Ret (Inr h)")
    case True
    then obtain h where x: "x = Ret (Inr h)" by blast
    have "live (fst (run_instance ops ctx req h r1)) = live r \<and> inv (fst (run_instance ops ctx req h r1))"
      using boot_exec_destroy [OF assms(1) b [unfolded x]]
      by (simp add: run_instance_def Let_def case_prod_beta)
    then show ?thesis
      using assms(1) by (simp add: server_run_def assms(2) b x split: option.split)
  next
    case False
    then have "live r1 = live r" using boot_fail [OF assms(1) b] by blast
    with False show ?thesis
      using assms(1) i1 by (auto simp: server_run_def assms(2) b split: option.split call.split sum.split)
  qed
  then show "live (fst (server_run d ctx req r)) = live r" "inv (fst (server_run d ctx req r))" by blast+
qed

lemma middleware_no_leak:
  assumes "inv (ss_rt st)" and "dp_Runtime (sv_deps s) = ops"
  shows "live (ss_rt (fst (middleware s ctx rand r body st))) = live (ss_rt st)"
    and "inv (ss_rt (fst (middleware s ctx rand r body st)))"
  using server_run_no_leak [OF assms] assms(1) by (simp_all add: middleware_rt split: option.split)

end

section \<open>Responses\<close>

lemma middleware_unauthorized:
  assumes "hr_Path r \<noteq> ''/health''" and "admission s r st = Unauthorized"
  obtains rid ev rc where "snd (middleware s ctx rand r body st) = (401, ErrorBody (Lit ''unauthorized'') CodeUnauthorized rid)"
    and "ss_Rate (fst (middleware s ctx rand r body st)) = ss_Rate st"
    and "ss_audit (fst (middleware s ctx rand r body st)) =
          ss_audit (fst (recordAudit s rc zero_request zero_result 0 (Some (Sentinel ''api.errUnauthorized'')) st))"
    and "rc_requestID rc = rid"
proof -
  obtain jwt meth cn where a: "authorize (sv_env s) (sv_cfg s)
      (rt_now (dp_Runtime (sv_deps s)) (ss_rt st)) r (ss_JWT st) = (jwt, meth, cn, False)"
    using assms(2) by (auto simp: admission_def Let_def split: prod.splits if_splits option.splits)
  have aud: "ss_audit (fst (recordAudit s rc q res ms e (st\<lparr>ss_JWT := jwt\<rparr>))) =
      ss_audit (fst (recordAudit s rc q res ms e st))" for rc q res ms e
    by (simp add: recordAudit_def split: option.split prod.split)
  show ?thesis
    by (rule that) (use assms(1) in \<open>auto simp: middleware_def Let_def a writeError_def frame_laws aud\<close>)
qed

lemma middleware_limited:
  assumes "hr_Path r \<noteq> ''/health''" and "admission s r st = Limited"
  shows "\<exists>rid. snd (middleware s ctx rand r body st) = (429, ErrorBody (Lit ''rate limit exceeded'') CodeRateLimited rid)"
    and "ss_audit (fst (middleware s ctx rand r body st)) = ss_audit st"
proof -
  obtain jwt meth cn w where a: "authorize (sv_env s) (sv_cfg s)
      (rt_now (dp_Runtime (sv_deps s)) (ss_rt st)) r (ss_JWT st) = (jwt, meth, cn, True)"
    and w: "ss_Rate st = Some w" and f: "\<not> snd (Allow (Some w) (rt_now (dp_Runtime (sv_deps s)) (ss_rt st))
        (rateKey (je_sha256 (sv_env s)) r meth cn))"
    using assms(2) by (auto simp: admission_def Let_def split: prod.splits if_splits option.splits)
  then obtain rate where r: "Allow (Some w) (rt_now (dp_Runtime (sv_deps s)) (ss_rt st))
        (rateKey (je_sha256 (sv_env s)) r meth cn) = (rate, False)" by (metis (full_types) prod.collapse)
  show "\<exists>rid. snd (middleware s ctx rand r body st) = (429, ErrorBody (Lit ''rate limit exceeded'') CodeRateLimited rid)"
    and "ss_audit (fst (middleware s ctx rand r body st)) = ss_audit st"
    using assms(1) by (simp_all add: middleware_def Let_def a w r writeError_def)
qed

text \<open>An admitted request for \<open>/execute\<close> gets the answer of the handler, a panic apart.\<close>

lemma middleware_execute:
  assumes "hr_Path r = ''/execute''" and "admission s r st = Admitted"
  obtains rc st2 where "middleware s ctx rand r body st = recovered (rc_requestID rc) (handleExecute s rc (hr_Method r) body st2)"
    and "rc_ctx rc = ctx" and "ss_rt st2 = ss_rt st" and "ss_audit st2 = ss_audit st"
proof -
  obtain jwt meth cn where a: "authorize (sv_env s) (sv_cfg s)
      (rt_now (dp_Runtime (sv_deps s)) (ss_rt st)) r (ss_JWT st) = (jwt, meth, cn, True)"
    using assms(2) by (auto simp: admission_def Let_def split: prod.splits if_splits option.splits)
  define hid where "hid = (if hr_Header r HeaderRequestID = [] then newRequestID rand else hr_Header r HeaderRequestID)"
  define rc where "rc = \<lparr>rc_ctx = ctx, rc_requestID = hid, rc_authMethod = meth, rc_clientCN = cn\<rparr>"
  show ?thesis
  proof (cases "ss_Rate st")
    case None
    show ?thesis
      by (rule that [of rc "st\<lparr>ss_JWT := jwt, ss_Rate := None\<rparr>"])
        (simp_all add: middleware_def Let_def a None assms(1) serve_mux_def rc_def hid_def)
  next
    case (Some w)
    obtain rate b where al: "Allow (Some w) (rt_now (dp_Runtime (sv_deps s)) (ss_rt st))
        (rateKey (je_sha256 (sv_env s)) r meth cn) = (rate, b)" by fastforce
    have b using assms(2) by (simp add: admission_def Let_def a Some al split: if_splits)
    with al have "Allow (Some w) (rt_now (dp_Runtime (sv_deps s)) (ss_rt st))
        (rateKey (je_sha256 (sv_env s)) r meth cn) = (rate, True)" by simp
    then show ?thesis
      by (intro that [of rc "st\<lparr>ss_JWT := jwt, ss_Rate := rate\<rparr>"])
        (simp_all add: middleware_def Let_def a Some assms(1) serve_mux_def rc_def hid_def)
  qed
qed

text \<open>The handler on a request that passes validation.\<close>

lemma handleExecute_run:
  assumes "runnable (sv_unicode s) meth body = Some req"
    and "server_run (sv_deps s) (rc_ctx rc) req (ss_rt st) = (r, Ret (res, execErr))"
  obtains ms st2 auditErr where
    "recordAudit s rc req res ms execErr (st\<lparr>ss_rt := r\<rparr>) = (st2, auditErr)"
    and "handleExecute s rc meth body st = (st2, Ret (case execErr of
          Some e \<Rightarrow> writeError (rc_requestID rc) (fst (mapExecError e)) (fst (snd (mapExecError e)))
                      (Lit (snd (snd (mapExecError e))))
        | None \<Rightarrow> if auditErr \<noteq> None \<and> dp_AuditStrict (sv_deps s)
            then writeError (rc_requestID rc) 500 CodeAuditFailed (Lit ''audit sink failed'')
            else (200, ExecuteBody (resultToResponse req (rc_requestID rc)
                   (rt_Name (dp_Runtime (sv_deps s))) res ms))))"
proof -
  obtain req0 where b: "body = Decoded req0" "meth = ''POST''" "validateExecute (sv_unicode s) req0 = (req, None)"
    using assms(1) by (auto simp: runnable_def split: if_splits req_body.splits prod.splits option.splits)
  define ms where "ms = elapsed_ms (rt_now (dp_Runtime (sv_deps s)) (ss_rt st)) (rt_now (dp_Runtime (sv_deps s)) r)"
  obtain st2 auditErr where a: "recordAudit s rc req res ms execErr (st\<lparr>ss_rt := r\<rparr>) = (st2, auditErr)" by fastforce
  show ?thesis
    by (rule that [OF a], use a assms(2) in \<open>cases execErr\<close>)
      (simp_all add: handleExecute_def Let_def b ms_def case_prod_beta)
qed

lemma handleExecute_200:
  assumes "snd (handleExecute s rc meth body st) = Ret (200, ExecuteBody resp)"
  shows "\<exists>req r res. runnable (sv_unicode s) meth body = Some req
    \<and> server_run (sv_deps s) (rc_ctx rc) req (ss_rt st) = (r, Ret (res, None))"
proof -
  obtain req where req: "runnable (sv_unicode s) meth body = Some req"
    using assms by (auto simp: handleExecute_def runnable_def Let_def writeError_def
        split: if_splits req_body.splits prod.splits option.splits)
  obtain r out where run: "server_run (sv_deps s) (rc_ctx rc) req (ss_rt st) = (r, out)" by fastforce
  obtain req0 where b: "body = Decoded req0" "meth = ''POST''" "validateExecute (sv_unicode s) req0 = (req, None)"
    using req by (auto simp: runnable_def split: if_splits req_body.splits prod.splits option.splits)
  obtain res e where out: "out = Ret (res, e)"
    using assms b run by (cases out) (auto simp: handleExecute_def Let_def)
  have "e = None"
  proof (cases e)
    case (Some err)
    have "\<exists>st2 code m. handleExecute s rc meth body st = (st2, Ret (fst (mapExecError err), ErrorBody m code (rc_requestID rc)))"
      by (rule handleExecute_run [OF req run [unfolded out Some]]) (auto simp: writeError_def)
    with assms show ?thesis by auto
  qed
  then show ?thesis using req run out by blast
qed

lemma recovered_200: "snd (recovered rid p) = (200, b) \<Longrightarrow> snd p = Ret (200, b)"
  by (auto simp: recovered_def writeError_def split: call.splits)

lemma execute_body_path:
  assumes "snd (middleware s ctx rand r body st) = (200, ExecuteBody resp)"
  shows "hr_Path r = ''/execute''" and "admission s r st = Admitted"
proof -
  obtain jwt meth cn authOK where a: "authorize (sv_env s) (sv_cfg s)
      (rt_now (dp_Runtime (sv_deps s)) (ss_rt st)) r (ss_JWT st) = (jwt, meth, cn, authOK)"
    using prod_cases4 by blast
  have h: "hr_Path r \<noteq> ''/health''"
  proof
    assume "hr_Path r = ''/health''"
    then show False
      using assms by (auto simp: middleware_def Let_def serve_mux_def handleHealth_def writeError_def recovered_def
          split: if_splits)
  qed
  show "admission s r st = Admitted"
    using assms h middleware_limited(1) [OF h, of s st ctx rand body]
      middleware_unauthorized [OF h, of s st ctx rand body] by (cases "admission s r st") fastforce+
  then show "hr_Path r = ''/execute''"
    using assms h a
    by (auto simp: middleware_def admission_def Let_def serve_mux_def recovered_def writeError_def
        split: if_splits option.splits prod.splits)
qed

section \<open>Properties\<close>

text \<open>A server on the gated stub that logs to memory, for concrete runs.\<close>

definition sample_deps :: "((stub, nat) gate, nat, event list) dependencies" where
  "sample_deps = \<lparr>dp_Runtime = gate_ops (stub_ops int_dec (\<lambda>_. [])) eager_select,
     dp_Limiter = Some ProfileLimiter_Apply, dp_Limits = sp_Limits sample_spec, dp_Seccomp = sp_Seccomp sample_spec,
     dp_Network = Default, dp_Audit = Some MemoryLogger_Record, dp_AuditStrict = True,
     dp_BootTimeout = 0, dp_QueueWait = 0\<rparr>"

definition sample_server :: "string \<Rightarrow> ((stub, nat) gate, nat, event list) server" where
  "sample_server key = \<lparr>sv_cfg = \<lparr>ac_APIKey = key, ac_MTLS = False, ac_MTLSSuffices = False, ac_RequireAll = False\<rparr>,
     sv_deps = sample_deps, sv_env = sample_env, sv_unicode = ascii_tables\<rparr>"

definition sample_state :: "((stub, nat) gate, event list) srv_state" where
  "sample_state = \<lparr>ss_JWT = None, ss_Rate = None, ss_rt = NewGate (NewStub 0) 2 0, ss_audit = []\<rparr>"

lemma sample_gate_inv: "gate_inv stub_inv stub_known stub_live (ss_rt sample_state)"
  using stub_gate.gate_inv_New [OF stub_inv_New] by (simp add: sample_state_def stub_live_def NewStub_def)

text \<open>
  C11. No request leaves an instance behind: for every runtime that keeps its contract, the
  live instances after the middleware are those before it, whatever the request, whether the
  run succeeds, fails, times out or panics.
\<close>

theorem request_leaves_no_instance:
  assumes "vm_runtime (dp_Runtime (sv_deps s)) iv kn lv" and "iv (ss_rt st)"
  shows "lv (ss_rt (fst (middleware s ctx rand r body st))) = lv (ss_rt st)
     \<and> iv (ss_rt (fst (middleware s ctx rand r body st)))"
  using vm_runtime.middleware_no_leak [OF assms refl] by blast

theorem request_leaves_no_instance_witness:
  "gate_live (ss_rt (fst (middleware (sample_server []) Background None key_request (Decoded (sample_request []))
       sample_state))) = {}"
proof -
  have "vm_runtime (dp_Runtime (sv_deps (sample_server []))) (gate_inv stub_inv stub_known stub_live) gate_known gate_live"
    using stub_gate.gated.vm_runtime_axioms by (simp add: sample_server_def sample_deps_def)
  then show ?thesis
    using request_leaves_no_instance [of "sample_server []" "gate_inv stub_inv stub_known stub_live" gate_known gate_live, OF _ sample_gate_inv]
    by (fastforce simp: gate_live_def sample_state_def NewGate_def)
qed

text \<open>
  C14. A request to any path but \<open>/health\<close> without the credentials the configuration asks for is
  answered 401 and reaches neither the rate limiter nor the runtime. Whatever the audit logger is,
  its \<open>Record\<close> is called once, on one event with the error and the request id of the answer, and
  the answer does not depend on what it returns.
\<close>

theorem unauthorized_request_refused:
  assumes "hr_Path r \<noteq> ''/health''"
    and "\<not> enough (sv_env s) (sv_cfg s) (rt_now (dp_Runtime (sv_deps s)) (ss_rt st)) r (ss_JWT st)"
  shows "\<exists>rid ev. snd (middleware s ctx rand r body st) = (401, ErrorBody (Lit ''unauthorized'') CodeUnauthorized rid)
     \<and> ss_rt (fst (middleware s ctx rand r body st)) = ss_rt st
     \<and> ss_Rate (fst (middleware s ctx rand r body st)) = ss_Rate st
     \<and> ss_audit (fst (middleware s ctx rand r body st)) =
          (case dp_Audit (sv_deps s) of None \<Rightarrow> ss_audit st | Some Record \<Rightarrow> fst (Record ev (ss_audit st)))
     \<and> ev_RequestID ev = rid \<and> ev_Error ev = Some (Sentinel ''api.errUnauthorized'') \<and> ev_ExitCode ev = -1"
proof -
  have u: "admission s r st = Unauthorized"
    using assms(2) by (auto simp: admission_def Let_def authorize_enough [symmetric] split: prod.splits)
  obtain rid rc where m: "snd (middleware s ctx rand r body st) = (401, ErrorBody (Lit ''unauthorized'') CodeUnauthorized rid)"
      "ss_Rate (fst (middleware s ctx rand r body st)) = ss_Rate st"
      "ss_audit (fst (middleware s ctx rand r body st)) =
          ss_audit (fst (recordAudit s rc zero_request zero_result 0 (Some (Sentinel ''api.errUnauthorized'')) st))"
      "rc_requestID rc = rid"
    using middleware_unauthorized [OF assms(1) u] by metis
  let ?ev = "audit_event s rc zero_request zero_result 0 (Some (Sentinel ''api.errUnauthorized''))"
  have "ev_RequestID ?ev = rid" "ev_Error ?ev = Some (Sentinel ''api.errUnauthorized'')" "ev_ExitCode ?ev = -1"
    using m(4) by (simp_all add: audit_event_def SummarizeCode_def zero_result_def)
  moreover have "ss_audit (fst (middleware s ctx rand r body st)) =
      (case dp_Audit (sv_deps s) of None \<Rightarrow> ss_audit st | Some Record \<Rightarrow> fst (Record ?ev (ss_audit st)))"
    unfolding m(3) by (simp add: recordAudit_def case_prod_beta split: option.split)
  ultimately show ?thesis using m(1,2) u by (simp add: middleware_rt) blast
qed

theorem unauthorized_request_refused_witness:
  "fst (snd (middleware (sample_server ''other'') Background None key_request TooLarge sample_state)) = 401
   \<and> length (ss_audit (fst (middleware (sample_server ''other'') Background None key_request TooLarge sample_state))) = 1"
proof -
  have t: "tokenFromRequest key_request = ''secret''" by code_simp
  have tls: "hr_TLS key_request = None" by (simp add: key_request_def)
  have "\<not> enough (sv_env (sample_server ''other'')) (sv_cfg (sample_server ''other''))
     (rt_now (dp_Runtime (sv_deps (sample_server ''other''))) (ss_rt sample_state)) key_request (ss_JWT sample_state)"
    by (simp add: enough_def key_cred_def jwt_cred_def Valid_def hasPeerCert_def sample_server_def sample_state_def t
        sample_env_def tls)
  moreover have "hr_Path key_request \<noteq> ''/health''" by (simp add: key_request_def)
  moreover have "dp_Audit (sv_deps (sample_server ''other'')) = Some MemoryLogger_Record" "ss_audit sample_state = []"
    by (simp_all add: sample_server_def sample_deps_def sample_state_def)
  ultimately show ?thesis
    using unauthorized_request_refused [of key_request "sample_server ''other''" sample_state Background None TooLarge]
    by (auto simp: MemoryLogger_Record_def)
qed

text \<open>
  The runtime is only ever reached by an admitted POST to \<open>/execute\<close> whose body is a
  request that passes validation; what is run is that request in canonical form.
\<close>

theorem runtime_reached_only_by_valid_requests:
  assumes "ss_rt (fst (middleware s ctx rand r body st)) \<noteq> ss_rt st"
  shows "\<exists>req0 req. hr_Path r = ''/execute'' \<and> hr_Method r = ''POST'' \<and> body = Decoded req0
     \<and> enough (sv_env s) (sv_cfg s) (rt_now (dp_Runtime (sv_deps s)) (ss_rt st)) r (ss_JWT st)
     \<and> validateExecute (sv_unicode s) req0 = (req, None) \<and> canonical (sv_unicode s) req
     \<and> ss_rt (fst (middleware s ctx rand r body st)) = fst (server_run (sv_deps s) ctx req (ss_rt st))"
proof -
  have p: "hr_Path r = ''/execute''" and a: "admission s r st = Admitted"
    using assms by (auto simp: middleware_rt split: if_splits)
  obtain req where req: "runnable (sv_unicode s) (hr_Method r) body = Some req"
    using assms by (auto simp: middleware_rt split: if_splits option.splits)
  have "enough (sv_env s) (sv_cfg s) (rt_now (dp_Runtime (sv_deps s)) (ss_rt st)) r (ss_JWT st)"
    unfolding authorize_enough [symmetric] using a
    by (auto simp: admission_def Let_def split: prod.splits if_splits)
  moreover obtain req0 where "hr_Method r = ''POST''" "body = Decoded req0"
      "validateExecute (sv_unicode s) req0 = (req, None)"
    using req by (auto simp: runnable_def split: if_splits req_body.splits prod.splits option.splits)
  ultimately show ?thesis
    using p a req runnable_canonical [OF req] by (simp add: middleware_rt)
qed


lemma sample_run_admitted: "admission (sample_server []) key_request sample_state = Admitted"
  by (simp add: admission_def authorize_def Let_def sample_server_def sample_state_def split: prod.split)

lemma sample_runnable:
  "runnable (sv_unicode (sample_server [])) (hr_Method key_request) (Decoded (sample_request [])) =
     Some \<lparr>er_Code = ''print(1)'', er_Runtime = ''python'', er_Timeout = 30, er_SessionID = []\<rparr>"
  using sample_request_valid [of "[]"]
  by (simp add: runnable_def sample_server_def key_request_def validateSessionID_def)

lemma sample_limits: "limit_check sample_deps (run_spec sample_deps req) = None"
  by (simp add: limit_check_def sample_deps_def run_spec_def sample_spec_def ProfileLimiter_accepts
      enforceable_DefaultProfile denies_by_default_def fail_closed_actions_def)

lemma sample_boot:
  "\<exists>g. rt_Boot (dp_Runtime sample_deps) c (run_spec sample_deps
      \<lparr>er_Code = ''print(1)'', er_Runtime = ''python'', er_Timeout = 30, er_SessionID = []\<rparr>) (ss_rt sample_state)
    = (g, Ret (Inr 0)) \<and> length (ga_leases g) = 1"
  by (simp add: sample_deps_def gate_ops_def Gate_Boot_def sample_state_def NewGate_def eager_select_def Let_def
      stub_ops_def Stub_Boot_def NewStub_def run_spec_def sample_spec_def Supported_def LangPython_def
      validate_iff [THEN iffD2] enforceable_DefaultProfile)

lemma sample_boots:
  "ss_rt (fst (middleware (sample_server []) Background None key_request (Decoded (sample_request [])) sample_state)) \<noteq> ss_rt sample_state"
proof -
  let ?req = "\<lparr>er_Code = ''print(1)'', er_Runtime = ''python'', er_Timeout = 30, er_SessionID = []\<rparr>"
  obtain g where g: "rt_Boot (dp_Runtime sample_deps) (boot_context sample_deps Background (ss_rt sample_state))
      (run_spec sample_deps ?req) (ss_rt sample_state) = (g, Ret (Inr 0))" "length (ga_leases g) = 1"
    using sample_boot by blast
  have keep: "length (ga_leases (fst (run_instance (dp_Runtime sample_deps) ctx q i h))) = length (ga_leases h)" for ctx q i h
    by (auto simp: run_instance_def sample_deps_def gate_ops_def Gate_Execute_def Gate_Destroy_def release_def Let_def
        split: prod.split)
  have "ga_leases (fst (server_run sample_deps Background ?req (ss_rt sample_state))) \<noteq> []"
    using keep [of Background ?req 0 g] g(2) by (auto simp: server_run_def sample_limits g(1))
  then show ?thesis
    using sample_runnable sample_run_admitted
    by (simp add: middleware_rt key_request_def sample_server_def) (auto simp: sample_state_def NewGate_def)
qed

theorem runtime_reached_only_by_valid_requests_witness:
  "\<exists>req0. ss_rt (fst (middleware (sample_server []) Background None key_request (Decoded req0) sample_state)) \<noteq> ss_rt sample_state
     \<and> hr_Method key_request = ''POST'' \<and> snd (validateExecute ascii_tables req0) = None"
  using runtime_reached_only_by_valid_requests [OF sample_boots] sample_boots
  by (intro exI [of _ "sample_request []"]) (auto simp: sample_server_def)

text \<open>
  A strict server answers 200 to an execution only if the log has stored it: for every log
  that keeps its contract, exactly one event was added, and it agrees with the answer on
  request, session, instance, exit code, time and timeout.
\<close>

theorem strict_success_is_audited:
  assumes "audit_logger Record seen" and "dp_Audit (sv_deps s) = Some Record" and "dp_AuditStrict (sv_deps s)"
    and "snd (middleware s ctx rand r body st) = (200, ExecuteBody resp)"
  shows "\<exists>x. seen (ss_audit (fst (middleware s ctx rand r body st))) = seen (ss_audit st) @ [x]
     \<and> ev_RequestID x = xp_RequestID resp \<and> ev_SessionID x = xp_SessionID resp \<and> ev_Runtime x = xp_Runtime resp
     \<and> ev_VMID x = xp_VMID resp \<and> ev_ExitCode x = xp_ExitCode resp \<and> ev_TimedOut x = xp_TimedOut resp
     \<and> ev_DurationMS x = xp_DurationMS resp \<and> ev_Error x = None"
proof -
  have path: "hr_Path r = ''/execute''" and adm: "admission s r st = Admitted"
    using assms(4) execute_body_path by blast+
  obtain rc st2 where m: "middleware s ctx rand r body st = recovered (rc_requestID rc) (handleExecute s rc (hr_Method r) body st2)"
    and rc: "rc_ctx rc = ctx" and rt: "ss_rt st2 = ss_rt st" and au: "ss_audit st2 = ss_audit st"
    using middleware_execute [OF path adm] by metis
  obtain req res q where req: "runnable (sv_unicode s) (hr_Method r) body = Some req"
    and run: "server_run (sv_deps s) (rc_ctx rc) req (ss_rt st2) = (q, Ret (res, None))"
    using handleExecute_200 [OF recovered_200] assms(4) unfolding m by blast
  obtain ms st3 auditErr where rec: "recordAudit s rc req res ms None (st2\<lparr>ss_rt := q\<rparr>) = (st3, auditErr)"
    and h: "handleExecute s rc (hr_Method r) body st2 = (st3, Ret (if auditErr \<noteq> None \<and> dp_AuditStrict (sv_deps s)
            then writeError (rc_requestID rc) 500 CodeAuditFailed (Lit ''audit sink failed'')
            else (200, ExecuteBody (resultToResponse req (rc_requestID rc) (rt_Name (dp_Runtime (sv_deps s))) res ms))))"
    by (rule handleExecute_run [OF req run]) simp
  have ok: "auditErr = None" and resp: "resp = resultToResponse req (rc_requestID rc) (rt_Name (dp_Runtime (sv_deps s))) res ms"
    using assms(3,4) m h by (auto simp: recovered_def writeError_def split: if_splits)
  have rec': "Record (audit_event s rc req res ms None) (ss_audit st) = (ss_audit st3, None)"
    using rec ok au by (auto simp: recordAudit_def assms(2) split: prod.splits)
  obtain x where x: "same_event x (audit_event s rc req res ms None)" "seen (ss_audit st3) = seen (ss_audit st) @ [x]"
    using audit_logger.stores [OF assms(1) rec'] by blast
  have "fst (middleware s ctx rand r body st) = st3" using m h by (simp add: recovered_def)
  then show ?thesis
    using x by (auto simp: same_event_def audit_event_def SummarizeCode_def resp resultToResponse_def)
qed

lemma sample_run:
  "\<exists>g res. server_run sample_deps Background
      \<lparr>er_Code = ''print(1)'', er_Runtime = ''python'', er_Timeout = 30, er_SessionID = []\<rparr> (ss_rt sample_state)
    = (g, Ret (res, None)) \<and> rs_VMID res = ''stub-1''"
proof -
  have "nat_dec 1 = ''1''" by code_simp
  then show ?thesis unfolding server_run_def sample_limits option.case
    by (simp add: sample_deps_def gate_ops_def Gate_Boot_def sample_state_def NewGate_def eager_select_def Let_def
        stub_ops_def Stub_Boot_def NewStub_def run_spec_def sample_spec_def Supported_def LangPython_def
        validate_iff [THEN iffD2] enforceable_DefaultProfile run_instance_def Gate_Execute_def Stub_Execute_def
        ctx_err_def with_timeout_def Background_def Gate_Destroy_def split: prod.split)
qed

lemma sample_success:
  "\<exists>resp. snd (middleware (sample_server []) Background None key_request (Decoded (sample_request [])) sample_state)
     = (200, ExecuteBody resp) \<and> xp_VMID resp = ''stub-1''"
proof -
  let ?req = "\<lparr>er_Code = ''print(1)'', er_Runtime = ''python'', er_Timeout = 30, er_SessionID = []\<rparr>"
  let ?m = "middleware (sample_server []) Background None key_request (Decoded (sample_request [])) sample_state"
  have p: "hr_Path key_request = ''/execute''" by (simp add: key_request_def)
  have d: "sv_deps (sample_server []) = sample_deps" by (simp add: sample_server_def)
  have a: "dp_Audit sample_deps = Some MemoryLogger_Record" "dp_AuditStrict sample_deps" "ss_audit sample_state = []"
    by (simp_all add: sample_deps_def sample_state_def)
  obtain g res where run: "server_run sample_deps Background ?req (ss_rt sample_state) = (g, Ret (res, None))"
      "rs_VMID res = ''stub-1''" using sample_run by blast
  obtain rc st2 where m: "?m = recovered (rc_requestID rc) (handleExecute (sample_server []) rc (hr_Method key_request)
      (Decoded (sample_request [])) st2)" "rc_ctx rc = Background" "ss_rt st2 = ss_rt sample_state"
    using middleware_execute [OF p sample_run_admitted] by metis
  have run': "server_run (sv_deps (sample_server [])) (rc_ctx rc) ?req (ss_rt st2) = (g, Ret (res, None))"
    using run m d by simp
  show "\<exists>resp. snd ?m = (200, ExecuteBody resp) \<and> xp_VMID resp = ''stub-1''"
    by (rule handleExecute_run [OF sample_runnable run'])
      (auto simp: m(1) recovered_def recordAudit_def d a MemoryLogger_Record_def resultToResponse_def run(2))
qed

theorem strict_success_is_audited_witness:
  "\<exists>resp x. snd (middleware (sample_server []) Background None key_request (Decoded (sample_request [])) sample_state)
       = (200, ExecuteBody resp) \<and> xp_VMID resp = ''stub-1''
     \<and> ss_audit (fst (middleware (sample_server []) Background None key_request (Decoded (sample_request [])) sample_state)) = [x]
     \<and> ev_VMID x = ''stub-1'' \<and> ev_Error x = None"
proof -
  have d: "sv_deps (sample_server []) = sample_deps" by (simp add: sample_server_def)
  have a: "dp_Audit sample_deps = Some MemoryLogger_Record" "dp_AuditStrict sample_deps" "ss_audit sample_state = []"
    by (simp_all add: sample_deps_def sample_state_def)
  show ?thesis
    using sample_success strict_success_is_audited [OF memory.audit_logger_axioms, of "sample_server []"] a d
    by (fastforce simp: MemoryLogger_Events_def)
qed

text \<open>
  When the gate is full, a valid request is answered 429 with code busy, without an
  instance being booted.
\<close>

theorem full_gate_answers_busy:
  assumes "dp_Runtime (sv_deps s) = gate_ops ops eager_select" and "ga_Max (ss_rt st) \<le> int (ga_sem (ss_rt st))"
    and "hr_Path r = ''/execute''" and "admission s r st = Admitted"
    and "runnable (sv_unicode s) (hr_Method r) body = Some req" and "limit_check (sv_deps s) (run_spec (sv_deps s) req) = None"
  shows "(\<exists>rid. snd (middleware s ctx rand r body st) = (429, ErrorBody (Lit ''too many concurrent VMs'') CodeBusy rid))
     \<and> ss_rt (fst (middleware s ctx rand r body st)) = ss_rt st"
proof -
  obtain rc st2 where m: "middleware s ctx rand r body st = recovered (rc_requestID rc) (handleExecute s rc (hr_Method r) body st2)"
    and rc: "rc_ctx rc = ctx" and rt: "ss_rt st2 = ss_rt st"
    using middleware_execute [OF assms(3,4)] by metis
  have run: "server_run (sv_deps s) (rc_ctx rc) req (ss_rt st2) =
      (ss_rt st, Ret (zero_result, Some (Wrapf ''%w (max %d)'' [int_dec (ga_Max (ss_rt st))] ErrBusy)))"
    using assms(2,6) by (simp add: server_run_def rt assms(1) gate_ops_def Gate_Boot_def eager_select_def)
  have "\<exists>rid. snd (middleware s ctx rand r body st) = (429, ErrorBody (Lit ''too many concurrent VMs'') CodeBusy rid)"
    by (rule handleExecute_run [OF assms(5) run]) (simp add: m recovered_def mapExecError_def writeError_def)
  moreover have "ss_rt (fst (middleware s ctx rand r body st)) = ss_rt st"
    using run rc rt assms(5) by (simp add: m recovered_def handleExecute_rt)
  ultimately show ?thesis by blast
qed

definition full_state :: "((stub, nat) gate, event list) srv_state" where
  "full_state = sample_state\<lparr>ss_rt := (NewGate (NewStub 0) 1 0)\<lparr>ga_sem := 1\<rparr>\<rparr>"

theorem full_gate_answers_busy_witness:
  "fst (snd (middleware (sample_server []) Background None key_request (Decoded (sample_request [])) full_state)) = 429"
proof -
  have a: "admission (sample_server []) key_request full_state = Admitted"
    by (simp add: admission_def authorize_def Let_def sample_server_def full_state_def sample_state_def split: prod.split)
  have o: "dp_Runtime (sv_deps (sample_server [])) = gate_ops (stub_ops int_dec (\<lambda>_. [])) eager_select"
    and d: "sv_deps (sample_server []) = sample_deps" by (simp_all add: sample_server_def sample_deps_def)
  have f: "ga_Max (ss_rt full_state) \<le> int (ga_sem (ss_rt full_state))"
    by (simp add: full_state_def NewGate_def)
  have p: "hr_Path key_request = ''/execute''" by (simp add: key_request_def)
  note b = full_gate_answers_busy [OF o f p a sample_runnable, unfolded d, OF sample_limits, of Background None]
  then show ?thesis by (metis fst_conv)
qed

text \<open>
  C40. Fail-closed limits: with \<open>ProfileLimiter\<close> in front, a process whose profile cannot be
  enforced or whose seccomp profile does not deny by default never boots anything.
\<close>

theorem unenforceable_limits_never_boot:
  assumes "dp_Limiter (sv_deps s) = Some ProfileLimiter_Apply"
    and "\<not> (enforceable (dp_Limits (sv_deps s)) \<and> denies_by_default (dp_Seccomp (sv_deps s)))"
  shows "ss_rt (fst (middleware s ctx rand r body st)) = ss_rt st"
proof -
  have "ProfileLimiter_Apply ''pending-vm'' (dp_Limits (sv_deps s)) (dp_Seccomp (sv_deps s)) \<noteq> None"
    using assms(2) profile_limiter.refuses_bad_profile profile_limiter.refuses_open_seccomp by blast
  then have "\<exists>e. limit_check (sv_deps s) (run_spec (sv_deps s) req) = Some e" for req
    by (simp add: limit_check_def run_spec_def assms(1))
  then have "fst (server_run (sv_deps s) ctx req (ss_rt st)) = ss_rt st" for req
    by (metis (no_types, lifting) fst_conv option.simps(5) server_run_def)
  then show ?thesis by (simp add: middleware_rt split: option.split)
qed

definition open_server :: "((stub, nat) gate, nat, event list) server" where
  "open_server = (sample_server [])\<lparr>sv_deps := sample_deps\<lparr>dp_Seccomp := \<lparr>DefaultAction = ''SCMP_ACT_ALLOW'',
     Architectures = [], Syscalls = []\<rparr>\<rparr>\<rparr>"

theorem unenforceable_limits_never_boot_witness:
  "ss_rt (fst (middleware open_server Background None key_request (Decoded (sample_request [])) sample_state)) = ss_rt sample_state"
  by (rule unenforceable_limits_never_boot)
    (simp_all add: open_server_def sample_deps_def denies_by_default_def fail_closed_actions_def)

end
