(* ===== verification/Warden_Main.thy ===== *)
theory Warden_Main
  imports FC_Props Api_Server_Facts
begin

text \<open>
  The program \<open>cmd/warden/main.go\<close>: what it reads from the environment and the configuration
  files, what it refuses to start with, and how it puts the components together; with
  \<open>LoadTLS\<close> of \<open>internal/api/tls.go\<close>, \<open>New\<close> of \<open>internal/runtime/runtime.go\<close> and
  \<open>OpenPostgres\<close> of \<open>internal/audit/pg.go\<close>. The result of \<open>run\<close> is the plan of the server that
  it would serve; listening, signals and logging are not modelled.
\<close>

section \<open>The environment\<close>

definition main_envOr :: "go_env \<Rightarrow> string \<Rightarrow> string \<Rightarrow> string" where
  "main_envOr g key fallback = (let v = ge_Getenv g key in if v \<noteq> [] then v else fallback)"

definition listenAddr :: "go_env \<Rightarrow> string" where
  "listenAddr g =
     (let addr = ge_Getenv g ''WARDEN_ADDR''; port = ge_Getenv g ''PORT''
      in if addr \<noteq> [] then addr
         else if port \<noteq> [] then ''0.0.0.0:'' @ port
         else ''127.0.0.1:8080'')"

definition rate_window :: "go_env \<Rightarrow> int" where
  "rate_window g =
     (let v = trim_space (ge_Getenv g ''WARDEN_RATE_WINDOW'') in
      if v \<noteq> [] then (case ge_ParseDuration g v of Some d \<Rightarrow> if 0 < d then d else minute | None \<Rightarrow> minute) else minute)"

definition buildRateLimit :: "go_env \<Rightarrow> string \<Rightarrow> fixed_window option" where
  "buildRateLimit g laddr =
     (let raw = trim_space (ge_Getenv g ''WARDEN_RATE_LIMIT'');
          limit = (if raw \<noteq> [] then sscanf_d raw 0 else if \<not> IsLoopbackAddr laddr then 60 else 0)
      in if limit \<le> 0 then None else Some (NewFixedWindow limit (rate_window g)))"

definition max_vms :: "go_env \<Rightarrow> int" where
  "max_vms g = (let v = ge_Getenv g ''WARDEN_MAX_VMS'' in if v \<noteq> [] then sscanf_d v 1 else 1)"

definition queue_wait :: "go_env \<Rightarrow> int" where
  "queue_wait g = env_duration g ''WARDEN_VM_QUEUE_WAIT'' (15 * 10 ^ 9)"

section \<open>TLS\<close>

record tls_files =
  tl_CertFile :: string
  tl_KeyFile :: string
  tl_ClientCAFile :: string

record tls_config =
  tc_MinVersion :: int
  tc_RequireClientCert :: bool

definition VersionTLS12 :: int where "VersionTLS12 = 0x0303"

text \<open>\<open>crypto\<close> is the standard library's reading of a key pair and of a certificate pool.\<close>

record tls_crypto =
  ty_LoadKeyPair :: "string \<Rightarrow> string \<Rightarrow> gerr option"
  ty_HasCerts :: "string \<Rightarrow> bool"

definition LoadTLS :: "tls_crypto \<Rightarrow> tls_files \<Rightarrow> fs \<Rightarrow> fs \<times> tls_config option res" where
  "LoadTLS y f s =
     (if tl_CertFile f = [] \<and> tl_KeyFile f = [] \<and> tl_ClientCAFile f = [] then (s, Inr None)
      else if tl_CertFile f = [] \<or> tl_KeyFile f = [] then
        (s, Inl (Errorf ''tls: both WARDEN_TLS_CERT and WARDEN_TLS_KEY are required'' []))
      else if tl_ClientCAFile f \<noteq> [] \<and> (tl_CertFile f = [] \<or> tl_KeyFile f = []) then
        (s, Inl (Errorf ''tls: WARDEN_TLS_CLIENT_CA requires a server certificate'' []))
      else (case ty_LoadKeyPair y (tl_CertFile f) (tl_KeyFile f) of
          Some e \<Rightarrow> (s, Inl (Wrapf ''tls: load server cert: %w'' [] e))
        | None \<Rightarrow>
            (let cfg = \<lparr>tc_MinVersion = VersionTLS12, tc_RequireClientCert = False\<rparr> in
             if tl_ClientCAFile f = [] then (s, Inr (Some cfg))
             else (case os_ReadFile (tl_ClientCAFile f) s of
                 (s1, Inl e) \<Rightarrow> (s1, Inl (Wrapf ''tls: read client CA: %w'' [] e))
               | (s1, Inr pem) \<Rightarrow>
                   if \<not> ty_HasCerts y pem then (s1, Inl (Errorf ''tls: client CA file has no certificates'' []))
                   else (s1, Inr (Some (cfg\<lparr>tc_RequireClientCert := True\<rparr>)))))))"

section \<open>Audit sinks\<close>

datatype audit_sink = JSONLFile string | Slog | HTTPPost http_sink | Postgres string sql_sink

text \<open>The database driver: opening a handle and pinging it.\<close>

record pg_driver =
  pg_Open :: "string \<Rightarrow> gerr option"
  pg_Ping :: "string \<Rightarrow> gerr option"

definition OpenPostgres :: "pg_driver \<Rightarrow> string \<Rightarrow> sql_sink res" where
  "OpenPostgres D dsn =
     (if dsn = [] then Inl (Errorf ''audit postgres: empty DSN'' [])
      else (case pg_Open D dsn of
          Some e \<Rightarrow> Inl (Wrapf ''audit postgres: %w'' [] e)
        | None \<Rightarrow> (case pg_Ping D dsn of
            Some e \<Rightarrow> Inl (Wrapf ''audit postgres ping: %w'' [] e)
          | None \<Rightarrow> Inr \<lparr>sq_EnsureSchema = True, sq_Timeout = 5 * 10 ^ 9, sq_ensured = False\<rparr>)))"

definition audit_dsn :: "go_env \<Rightarrow> string" where
  "audit_dsn g =
     (let dsn = trim_space (ge_Getenv g ''WARDEN_AUDIT_DATABASE_URL'')
      in if dsn = [] then trim_space (ge_Getenv g ''DATABASE_URL'') else dsn)"

definition buildAudit :: "go_env \<Rightarrow> pg_driver \<Rightarrow> string \<Rightarrow> audit_sink list res" where
  "buildAudit g D jsonlPath =
     (let url = trim_space (ge_Getenv g ''WARDEN_AUDIT_URL'');
          sinks = [JSONLFile jsonlPath, Slog]
            @ (if url \<noteq> [] then [HTTPPost \<lparr>hs_URL = url, hs_Token = ge_Getenv g ''WARDEN_AUDIT_TOKEN''\<rparr>] else [])
      in if audit_dsn g = [] then Inr sinks
         else (case OpenPostgres D (audit_dsn g) of
             Inl e \<Rightarrow> Inl e
           | Inr sink \<Rightarrow> Inr (sinks @ [Postgres (audit_dsn g) sink])))"

section \<open>The runtime\<close>

datatype backend = StubBackend | FirecrackerBackend fc_config

text \<open>\<open>runtime.New\<close>.\<close>

definition runtime_New :: "go_env \<Rightarrow> string \<Rightarrow> fs \<Rightarrow> fs \<times> backend res" where
  "runtime_New g kind s =
     (if kind = [] \<or> kind = ''stub'' then (s, Inr StubBackend)
      else if kind = ''firecracker'' then
        (case LoadConfig g (main_envOr g ''WARDEN_FC_CONFIG'' ''configs/firecracker.json'') s of
           (s1, Inl e) \<Rightarrow> (s1, Inl e)
         | (s1, Inr cfg) \<Rightarrow> (s1, Inr (FirecrackerBackend cfg)))
      else (s, Inl (Errorf ''unknown runtime %q (want stub or firecracker)'' [kind])))"

text \<open>What \<open>main\<close> puts into the configuration of the Firecracker backend.\<close>

record fc_plan =
  pl_cfg :: fc_config
  pl_cgroupRequired :: bool
  pl_tapSudo :: bool
  pl_snapshotRoot :: "string option"

definition pool_size :: "go_env \<Rightarrow> int \<Rightarrow> int" where
  "pool_size g n = (if ge_Getenv g ''WARDEN_ROOTFS_POOL'' = ''0'' then 0 else if n \<le> 0 then 2 else n)"

definition plan_firecracker :: "go_env \<Rightarrow> string \<Rightarrow> fs \<Rightarrow> fs \<times> fc_plan res" where
  "plan_firecracker g cfgDir s = (case LoadConfig g (path_join [cfgDir, ''firecracker.json'']) s of
       (s1, Inl e) \<Rightarrow> (s1, Inl (Wrapf ''load firecracker config: %w'' [] e))
     | (s1, Inr cfg) \<Rightarrow>
         (s1, Inr \<lparr>pl_cfg = cfg\<lparr>fc_RootfsPoolSize := pool_size g (fc_RootfsPoolSize cfg)\<rparr>,
            pl_cgroupRequired = (ge_Getenv g ''WARDEN_CGROUP_REQUIRED'' = ''1''),
            pl_tapSudo = (ge_Getenv g ''WARDEN_NET_SUDO'' = ''1'' \<or> ge_Getenv g ''WARDEN_JAILER_SUDO'' = ''1''),
            pl_snapshotRoot = (if fc_SnapshotDir cfg \<noteq> [] then Some (fc_SnapshotDir cfg) else None)\<rparr>))"

definition choose_runtime :: "go_env \<Rightarrow> string \<Rightarrow> string \<Rightarrow> fs \<Rightarrow> fs \<times> fc_plan option res" where
  "choose_runtime g cfgDir kind s = (case runtime_New g kind s of
       (s1, Inl e) \<Rightarrow> (s1, Inl e)
     | (s1, Inr _) \<Rightarrow>
         if kind = ''firecracker'' then
           (case plan_firecracker g cfgDir s1 of (s2, Inl e) \<Rightarrow> (s2, Inl e) | (s2, Inr p) \<Rightarrow> (s2, Inr (Some p)))
         else (s1, Inr None))"

section \<open>run\<close>

record main_files =
  mf_cgroups :: "string \<Rightarrow> profile_doc json_file"
  mf_seccomp :: "string \<Rightarrow> seccomp_profile json_file"
  mf_egress :: "string \<Rightarrow> policy_doc json_file"

record main_env =
  me_go :: go_env
  me_files :: main_files
  me_crypto :: tls_crypto
  me_pg :: pg_driver

definition load_policies :: "main_files \<Rightarrow> string \<Rightarrow> (profile \<times> seccomp_profile \<times> policy) res" where
  "load_policies f cfgDir =
     (let p1 = path_join [cfgDir, ''cgroups.json'']; p2 = path_join [cfgDir, ''seccomp.json'']; p3 = path_join [cfgDir, ''egress.json''] in
      case LoadProfile p1 (mf_cgroups f p1) of
        Inl e \<Rightarrow> Inl (Wrapf ''load cgroups: %w'' [] e)
      | Inr limits \<Rightarrow> (case LoadSeccomp p2 (mf_seccomp f p2) of
          Inl e \<Rightarrow> Inl (Wrapf ''load seccomp: %w'' [] e)
        | Inr seccomp \<Rightarrow> (case Load p3 (mf_egress f p3) of
            Inl e \<Rightarrow> Inl (Wrapf ''load egress: %w'' [] e)
          | Inr pol \<Rightarrow> (case NewStaticFilter pol of
              Inl e \<Rightarrow> Inl e
            | Inr filt \<Rightarrow> Inr (limits, seccomp, StaticFilter_Policy filt)))))"

record startup =
  su_listen :: string
  su_limits :: profile
  su_seccomp :: seccomp_profile
  su_network :: policy
  su_firecracker :: "fc_plan option"
  su_maxVMs :: int
  su_queueWait :: int
  su_tls :: "tls_config option"
  su_auth :: auth_config
  su_jwt :: "jwt_verifier option"
  su_rate :: "fixed_window option"
  su_sinks :: "audit_sink list"
  su_strict :: bool

definition tls_files_of :: "go_env \<Rightarrow> tls_files" where
  "tls_files_of g = \<lparr>tl_CertFile = ge_Getenv g ''WARDEN_TLS_CERT'', tl_KeyFile = ge_Getenv g ''WARDEN_TLS_KEY'',
     tl_ClientCAFile = ge_Getenv g ''WARDEN_TLS_CLIENT_CA''\<rparr>"

definition jwt_of :: "go_env \<Rightarrow> jwt_verifier option" where
  "jwt_of g = (let url = trim_space (ge_Getenv g ''WARDEN_JWT_JWKS'') in
     if url = [] then None
     else Some \<lparr>jv_JWKSURL = url, jv_Issuer = ge_Getenv g ''WARDEN_JWT_ISSUER'',
       jv_Audience = main_envOr g ''WARDEN_JWT_AUDIENCE'' ''warden'', jv_TTL = 0, jv_keys = None, jv_fetched = 0\<rparr>)"

definition auth_of :: "go_env \<Rightarrow> bool \<Rightarrow> auth_config" where
  "auth_of g mtls = (let req = (ge_Getenv g ''WARDEN_AUTH_REQUIRE_ALL'' = ''1'') in
     \<lparr>ac_APIKey = trim_space (ge_Getenv g ''WARDEN_API_KEY''), ac_MTLS = mtls, ac_MTLSSuffices = \<not> req, ac_RequireAll = req\<rparr>)"

definition bind_policy :: "go_env \<Rightarrow> bool \<Rightarrow> auth_policy" where
  "bind_policy g mtls = \<lparr>ap_APIKey = trim_space (ge_Getenv g ''WARDEN_API_KEY''),
     ap_AllowAnon = (ge_Getenv g ''WARDEN_ALLOW_ANON'' = ''1''), ap_JWKSURL = trim_space (ge_Getenv g ''WARDEN_JWT_JWKS''),
     ap_MTLS = mtls, ap_RequireAll = False, ap_MTLSSuffices = False\<rparr>"

definition run :: "main_env \<Rightarrow> fs \<Rightarrow> fs \<times> startup res" where
  "run M s =
     (let g = me_go M; cfgDir = main_envOr g ''WARDEN_CONFIG_DIR'' ''configs''; laddr = listenAddr g;
          kind = main_envOr g ''WARDEN_RUNTIME'' ''stub''; auditPath = main_envOr g ''WARDEN_AUDIT_LOG'' ''audit.jsonl''
      in case load_policies (me_files M) cfgDir of
           Inl e \<Rightarrow> (s, Inl e)
         | Inr (limits, seccomp, pol) \<Rightarrow> (case choose_runtime g cfgDir kind s of
             (s1, Inl e) \<Rightarrow> (s1, Inl e)
           | (s1, Inr plan) \<Rightarrow> (case LoadTLS (me_crypto M) (tls_files_of g) s1 of
               (s2, Inl e) \<Rightarrow> (s2, Inl e)
             | (s2, Inr tls) \<Rightarrow>
                 (let mtls = (case tls of None \<Rightarrow> False | Some c \<Rightarrow> tc_RequireClientCert c) in
                  case CheckBindPolicy laddr (bind_policy g mtls) of
                    Some e \<Rightarrow> (s2, Inl e)
                  | None \<Rightarrow> (case buildAudit g (me_pg M) auditPath of
                      Inl e \<Rightarrow> (s2, Inl e)
                    | Inr sinks \<Rightarrow>
                        (s2, Inr \<lparr>su_listen = laddr, su_limits = limits, su_seccomp = seccomp, su_network = pol,
                           su_firecracker = plan, su_maxVMs = max_vms g, su_queueWait = queue_wait g, su_tls = tls,
                           su_auth = auth_of g mtls, su_jwt = jwt_of g, su_rate = buildRateLimit g laddr,
                           su_sinks = sinks, su_strict = (ge_Getenv g ''WARDEN_AUDIT_STRICT'' = ''1'')\<rparr>))))))"

section \<open>The running program\<close>

definition start_firecracker :: "fc_env \<Rightarrow> unicode_tables \<Rightarrow> 'w tap \<Rightarrow> (int \<Rightarrow> int list) \<Rightarrow> snap_codec \<Rightarrow> fc_plan \<Rightarrow> 'w net_host \<Rightarrow>
    fc_config \<times> (32 word \<times> 'w) fc_deps \<times> (32 word \<times> 'w) fc_state" where
  "start_firecracker E u t desc sc p w = NewFirecrackerWithConfig E sc (pl_cfg p)
     (wire E u (Some (t\<lparr>tap_Sudo := pl_tapSudo p\<rparr>)) (Some (\<lparr>cg_Require = pl_cgroupRequired p, cg_Root = [], cg_Self = []\<rparr>, desc))
        (map_option (\<lambda>root. (sc, root)) (pl_snapshotRoot p)) False) w"

definition NewServer :: "startup \<Rightarrow> ('r, 'i) runtime_ops \<Rightarrow> 'a logger \<Rightarrow> jwt_env \<Rightarrow> unicode_tables \<Rightarrow> ('r, 'i, 'a) server" where
  "NewServer su ops log J u = \<lparr>sv_cfg = su_auth su,
     sv_deps = \<lparr>dp_Runtime = ops, dp_Limiter = Some ProfileLimiter_Apply, dp_Limits = su_limits su, dp_Seccomp = su_seccomp su,
        dp_Network = su_network su, dp_Audit = Some log, dp_AuditStrict = su_strict su, dp_BootTimeout = 20 * 10 ^ 9,
        dp_QueueWait = su_queueWait su\<rparr>, sv_env = J, sv_unicode = u\<rparr>"

definition initial_state :: "startup \<Rightarrow> 'r \<Rightarrow> 'a \<Rightarrow> (('r, 'i) gate, 'a) srv_state" where
  "initial_state su r a = \<lparr>ss_JWT = su_jwt su, ss_Rate = su_rate su, ss_rt = NewGate r (su_maxVMs su) (su_queueWait su), ss_audit = a\<rparr>"

text \<open>Requests one after the other.\<close>

fun serve_all :: "('r, 'i, 'a) server \<Rightarrow> (context_t \<times> string option \<times> http_request \<times> req_body) list \<Rightarrow> ('r, 'a) srv_state \<Rightarrow> ('r, 'a) srv_state" where
  "serve_all srv [] st = st"
| "serve_all srv ((ctx, rand, r, body) # qs) st = serve_all srv qs (fst (middleware srv ctx rand r body st))"

section \<open>Facts\<close>

lemma run_Inr:
  assumes "run M s = (s', Inr su)"
  shows "CheckBindPolicy (su_listen su) (bind_policy (me_go M) (case su_tls su of None \<Rightarrow> False | Some c \<Rightarrow> tc_RequireClientCert c)) = None"
    "su_auth su = auth_of (me_go M) (case su_tls su of None \<Rightarrow> False | Some c \<Rightarrow> tc_RequireClientCert c)"
    "su_jwt su = jwt_of (me_go M)" "su_rate su = buildRateLimit (me_go M) (su_listen su)"
    "load_policies (me_files M) (main_envOr (me_go M) ''WARDEN_CONFIG_DIR'' ''configs'') = Inr (su_limits su, su_seccomp su, su_network su)"
    "su_listen su = listenAddr (me_go M)"
  using assms by (auto simp: run_def Let_def split: sum.splits prod.splits option.splits)

lemma load_policies_valid:
  assumes "load_policies f d = Inr (limits, seccomp, pol)"
  shows "Profile_Validate limits = None" "Seccomp_Validate seccomp = None" "Policy_Validate pol = None"
  using assms
  by (auto simp: load_policies_def Let_def LoadProfile_def LoadSeccomp_def Load_def NewStaticFilter_def StaticFilter_Policy_def
      split: sum.splits option.splits json_file.splits)

lemma NewGate_live: "fc_live r = {} \<Longrightarrow> gate_live (NewGate r mx wait) = {}"
  by (simp add: gate_live_def NewGate_def)

lemma serve_all_no_leak:
  assumes "vm_runtime (dp_Runtime (sv_deps srv)) iv kn lv" and "iv (ss_rt st)"
  shows "lv (ss_rt (serve_all srv qs st)) = lv (ss_rt st) \<and> iv (ss_rt (serve_all srv qs st))"
  using assms(2)
proof (induction qs arbitrary: st)
  case (Cons q qs)
  obtain ctx rand r body where q: "q = (ctx, rand, r, body)" by (metis prod_cases4)
  note m = vm_runtime.middleware_no_leak [OF assms(1) Cons.prems refl, of ctx rand r body]
  show ?case using Cons.IH [OF m(2)] m(1) by (simp add: q)
qed simp

lemma fc_live_empty: "fc_live s = {} \<Longrightarrow> live_pids (fs_vms s) = {} \<and> live_taps (fs_vms s) = {}"
  by (auto simp: fc_live_def live_pids_def live_taps_def in_set_conv_nth)

lemma gate_inner_empty:
  assumes "gate_inv iv kn fc_live g" and "gate_live g = {}"
  shows "fc_live (ga_inner g) = {}"
proof -
  have "set (open_leases g) = {}"
    using assms(2) by (auto simp: set_open_leases gate_live_def in_set_conv_nth)
  then show ?thesis using assms(1) by (simp add: gate_inv_def)
qed

section \<open>Properties\<close>

text \<open>
  The whole program with the Firecracker backend: after any sequence of requests, whatever
  they ask for and whatever fails while they are served, no VMM runs but those whose kill failed,
  and no TAP link is up but those whose \<open>Teardown\<close> failed.
\<close>

theorem requests_leave_no_vmm:
  assumes "start_firecracker E u t desc sc p w = (c, deps, s0)" and "h_trace w = []" and "fair_select sel"
    and "st = serve_all (NewServer su (gate_ops (fc_ops E c deps) sel) log J u) qs (initial_state su s0 a)"
  shows "running (h_trace (fs_host (ga_inner (ss_rt st)))) \<subseteq> unkilled (h_trace (fs_host (ga_inner (ss_rt st))))
    \<and> taps_up (h_trace (fs_host (ga_inner (ss_rt st)))) \<subseteq> stuck_links (h_trace (fs_host (ga_inner (ss_rt st))))"
proof -
  define srv where "srv = NewServer su (gate_ops (fc_ops E c deps) sel) log J u"
  have st: "st = serve_all srv qs (initial_state su s0 a)" using assms(4) by (simp add: srv_def)
  note n = assms(1) [unfolded start_firecracker_def]
  obtain st' pool' where d: "deps = wire E u (Some (t\<lparr>tap_Sudo := pl_tapSudo p\<rparr>))
      (Some (\<lparr>cg_Require = pl_cgroupRequired p, cg_Root = [], cg_Self = []\<rparr>, desc)) st' pool'"
    using New_wired(1) [OF n] by blast
  have vr: "vm_runtime (fc_ops E c deps) (fc_inv deps) fc_known fc_live" unfolding d by (rule wired.fc.vm_runtime_axioms)
  then have gr: "gated_runtime (fc_ops E c deps) (fc_inv deps) fc_known fc_live sel"
    by (rule gated_runtime.intro) (rule gated_runtime_axioms.intro [OF assms(3)])
  have i0: "fc_inv deps s0" and l0: "fc_live s0 = {}"
    using New_inv [OF n assms(2)] New_wired(3) [OF n] by (simp_all add: fc_live_def)
  have g0: "gate_inv (fc_inv deps) fc_known fc_live (ss_rt (initial_state su s0 a))"
    using gated_runtime.gate_inv_New [OF gr i0 l0] by (simp add: initial_state_def)
  have "vm_runtime (dp_Runtime (sv_deps srv)) (gate_inv (fc_inv deps) fc_known fc_live) gate_known gate_live"
    using gated_runtime.gate_is_runtime [OF gr] by (simp add: srv_def NewServer_def)
  from serve_all_no_leak [OF this g0, of qs]
  have "gate_live (ss_rt st) = {}" and g: "gate_inv (fc_inv deps) fc_known fc_live (ss_rt st)"
    using NewGate_live [OF l0] by (auto simp: st initial_state_def)
  then have "fc_live (ga_inner (ss_rt st)) = {}" "fc_inv deps (ga_inner (ss_rt st))"
    using gate_inner_empty [OF g] by (auto simp: gate_inv_def)
  then have "held_vmms (h_trace (fs_host (ga_inner (ss_rt st)))) = {} \<and> held_links (h_trace (fs_host (ga_inner (ss_rt st)))) = {}"
    using fc_live_empty by (fastforce simp: fc_inv_def)
  then show ?thesis using running_held [of "h_trace (fs_host (ga_inner (ss_rt st)))"] taps_up_held [of "h_trace (fs_host (ga_inner (ss_rt st)))"] by simp
qed

definition demo_tap :: "unit tap" where
  "demo_tap = \<lparr>tap_Run = Some (\<lambda>c w. (w, None)), tap_Exec = \<lambda>c i w. (w, None), tap_Lookup = \<lambda>h. Inl (Errorf ''no DNS'' []),
     tap_IP = ''ip'', tap_Sudo = False, tap_LookPath = \<lambda>_. None, tap_Stat = \<lambda>_. False\<rparr>"

definition demo_plan :: fc_plan where
  "demo_plan = \<lparr>pl_cfg = demo_cfg, pl_cgroupRequired = True, pl_tapSudo = False, pl_snapshotRoot = Some ''/snaps''\<rparr>"

definition demo_vars :: "string \<Rightarrow> string" where
  "demo_vars k = (if k = ''WARDEN_ADDR'' then ''0.0.0.0:8080'' else if k = ''WARDEN_API_KEY'' then ''secret'' else [])"

definition demo_main :: main_env where
  "demo_main = \<lparr>me_go = \<lparr>ge_Getenv = demo_vars, ge_ParseDuration = \<lambda>_. None, ge_Getwd = Inr ''/'', ge_User = Inr (''1'', ''1'')\<rparr>,
     me_files = \<lparr>mf_cgroups = \<lambda>_. Document \<lparr>doc_cpu_quota_us = None, doc_cpu_period_us = None, doc_memory_bytes = None, doc_pids_max = None, doc_disk_bytes = None\<rparr>,
       mf_seccomp = \<lambda>_. Document \<lparr>DefaultAction = ''SCMP_ACT_ERRNO'', Architectures = [], Syscalls = [\<lparr>sc_Action = ''SCMP_ACT_ALLOW'', sc_Names = [''read'']\<rparr>]\<rparr>,
       mf_egress = \<lambda>_. Document \<lparr>doc_default_policy = None, doc_allowlist = None\<rparr>\<rparr>,
     me_crypto = \<lparr>ty_LoadKeyPair = \<lambda>_ _. None, ty_HasCerts = \<lambda>_. True\<rparr>, me_pg = \<lparr>pg_Open = \<lambda>_. None, pg_Ping = \<lambda>_. None\<rparr>\<rparr>"

lemma demo_run:
  "(case run demo_main (h_fs demo_host) of (_, Inr su) \<Rightarrow> (su_listen su, ac_APIKey (su_auth su), su_tls su = None, map_option fw_Limit (su_rate su), length (su_sinks su))
      | _ \<Rightarrow> ([], [], False, None, 0)) = (''0.0.0.0:8080'', ''secret'', True, Some 60, 2)"
  by code_simp

text \<open>
  C17. The program does not serve a public address without credentials: when it starts on an
  address that is not loopback and anonymous access was not asked for, either the TLS
  configuration demands a verified client certificate of every connection, or every request that
  the server authorizes carries the configured API key, a valid token or a client certificate.
  The limits, the seccomp profile and the egress policy it starts with have passed validation.
  The rate limit is 60 if \<open>WARDEN_RATE_LIMIT\<close> is unset or blank and otherwise the number that it
  starts with; a value of zero or less, or one that is not a number, turns it off.
\<close>

theorem public_server_is_closed:
  assumes "run M s = (s', Inr su)" and "\<not> IsLoopbackAddr (su_listen su)" and "ge_Getenv (me_go M) ''WARDEN_ALLOW_ANON'' \<noteq> ''1''"
  shows "((\<exists>tls. su_tls su = Some tls \<and> tc_RequireClientCert tls)
      \<or> (\<forall>J now r. snd (snd (snd (authorize J (su_auth su) now r (su_jwt su)))) \<longrightarrow>
           key_cred J (su_auth su) r \<or> jwt_cred J now r (su_jwt su) \<or> hasPeerCert r))
    \<and> enforceable (su_limits su) \<and> Seccomp_Validate (su_seccomp su) = None \<and> Policy_Validate (su_network su) = None
    \<and> map_option fw_Limit (su_rate su) = (let raw = trim_space (ge_Getenv (me_go M) ''WARDEN_RATE_LIMIT'');
          n = (if raw = [] then 60 else sscanf_d raw 0) in if n \<le> 0 then None else Some n)"
proof -
  note r = run_Inr [OF assms(1)]
  define mtls where "mtls = (case su_tls su of None \<Rightarrow> False | Some c \<Rightarrow> tc_RequireClientCert c)"
  have "mtls \<or> trim_space (ge_Getenv (me_go M) ''WARDEN_API_KEY'') \<noteq> [] \<or> trim_space (ge_Getenv (me_go M) ''WARDEN_JWT_JWKS'') \<noteq> []"
    using r(1) assms(2,3) by (auto simp: CheckBindPolicy_def bind_policy_def IsLoopbackAddr_def mtls_def split: if_splits)
  then have "mtls \<or> ac_APIKey (su_auth su) \<noteq> [] \<or> su_jwt su \<noteq> None"
    unfolding r(2,3) by (auto simp: auth_of_def jwt_of_def Let_def)
  moreover have "mtls \<Longrightarrow> \<exists>tls. su_tls su = Some tls \<and> tc_RequireClientCert tls"
    by (auto simp: mtls_def split: option.splits)
  ultimately have "(\<exists>tls. su_tls su = Some tls \<and> tc_RequireClientCert tls)
      \<or> (\<forall>J now r. snd (snd (snd (authorize J (su_auth su) now r (su_jwt su)))) \<longrightarrow>
           key_cred J (su_auth su) r \<or> jwt_cred J now r (su_jwt su) \<or> hasPeerCert r)"
    unfolding authorize_enough by (auto simp: enough_def split: if_splits)
  moreover have "map_option fw_Limit (su_rate su) = (let raw = trim_space (ge_Getenv (me_go M) ''WARDEN_RATE_LIMIT'');
          n = (if raw = [] then 60 else sscanf_d raw 0) in if n \<le> 0 then None else Some n)"
    using assms(2) unfolding r(4) by (simp add: buildRateLimit_def Let_def NewFixedWindow_def)
  ultimately show ?thesis using load_policies_valid [OF r(5)] validate_iff by blast
qed

theorem public_server_is_closed_witness:
  "\<exists>su. snd (run demo_main (h_fs demo_host)) = Inr su \<and> su_listen su = ''0.0.0.0:8080'' \<and> enforceable (su_limits su)
     \<and> map_option fw_Limit (su_rate su) = Some 60"
proof -
  obtain s' su where r: "run demo_main (h_fs demo_host) = (s', Inr su)" and l: "su_listen su = ''0.0.0.0:8080''"
    using demo_run by (auto split: prod.splits sum.splits)
  have n: "\<not> IsLoopbackAddr (su_listen su)" unfolding l by code_simp
  have v: "ge_Getenv (me_go demo_main) ''WARDEN_ALLOW_ANON'' \<noteq> ''1''" "trim_space (ge_Getenv (me_go demo_main) ''WARDEN_RATE_LIMIT'') = []"
    by (simp_all add: demo_main_def demo_vars_def)
  show ?thesis using public_server_is_closed [OF r n v(1)] v(2) r l by auto
qed

end
