(* ===== verification/Api_Concurrent.thy ===== *)
theory Api_Concurrent
  imports Api_Server_Facts
begin

text \<open>
  Requests at the same time. The HTTP server runs every request in a goroutine of its own; they
  share the token verifier, the rate limiter, the audit log and the gated runtime. A goroutine is
  cut into steps where the code takes a lock, uses the gate's channel or calls the runtime, and
  the system is a list of goroutines of which one takes a step at a time. A call of the inner
  runtime is one step. What is proved: every instance that lives is in the hands of exactly one
  goroutine that will destroy it, the slots taken are those of the goroutines that hold one, no
  request gets stuck, and the sequential server is one of the schedules.
\<close>

section \<open>The gate in two steps\<close>

definition take_slot :: "('r, 'i) gate \<Rightarrow> ('r, 'i) gate" where
  "take_slot g = g\<lparr>ga_sem := Suc (ga_sem g)\<rparr>"

text \<open>\<open>Boot\<close> from the moment the slot is taken.\<close>

definition boot_held :: "('r, 'i) runtime_ops \<Rightarrow> context_t \<Rightarrow> spec \<Rightarrow> ('r, 'i) gate \<Rightarrow> ('r, 'i) gate \<times> nat res call" where
  "boot_held ops ctx sp g = (case rt_Boot ops ctx sp (ga_inner g) of
       (r, Panic m) \<Rightarrow> (g\<lparr>ga_inner := r\<rparr>, Panic m)
     | (r, Ret (Inl e)) \<Rightarrow> (g\<lparr>ga_inner := r, ga_sem := ga_sem g - 1\<rparr>, Ret (Inl e))
     | (r, Ret (Inr i)) \<Rightarrow>
         (g\<lparr>ga_inner := r, ga_leases := ga_leases g @ [(i, False)]\<rparr>, Ret (Inr (length (ga_leases g)))))"

definition busy_error :: "('r, 'i) gate \<Rightarrow> gerr" where
  "busy_error g = Wrapf ''%w (max %d)'' [int_dec (ga_Max g)] ErrBusy"

lemma Gate_Boot_split:
  "Gate_Boot ops sel ctx sp g = (case sel ctx g of
       CtxDone e \<Rightarrow> (g, Ret (Inl e))
     | TimerFired \<Rightarrow> (g, Ret (Inl (busy_error g)))
     | Slot \<Rightarrow> boot_held ops ctx sp (take_slot g))"
  by (simp add: Gate_Boot_def boot_held_def take_slot_def busy_error_def Let_def
      split: select.split prod.split call.split sum.split)

section \<open>A goroutine\<close>

type_synonym incoming = "context_t \<times> string option \<times> http_request \<times> req_body"

text \<open>
  Where a goroutine is: the request has arrived; is authorized; is past the rate limit; is
  refused and to be audited; waits at the \<open>select\<close> of the gate; holds a slot and boots; executes;
  is to destroy its instance; is to be audited; is answered; is answered after a panic in \<open>Boot\<close>.
\<close>

datatype task =
    TArrived
  | TRate req_ctx
  | TMux req_ctx
  | TReject req_ctx execute_request gerr response
  | TSelect req_ctx execute_request int context_t
  | TBoot req_ctx execute_request int context_t
  | TExec req_ctx execute_request int nat
  | TDestroy req_ctx execute_request int nat "(exec_result \<times> gerr option) call"
  | TAudit req_ctx execute_request exec_result int "gerr option"
  | TDone response
  | TCrashed response

fun finished :: "task \<Rightarrow> bool" where
  "finished (TDone _) = True"
| "finished (TCrashed _) = True"
| "finished _ = False"

fun answer :: "task \<Rightarrow> response option" where
  "answer (TDone resp) = Some resp"
| "answer (TCrashed resp) = Some resp"
| "answer _ = None"

definition crash :: "req_ctx \<Rightarrow> response" where
  "crash rc = writeError (rc_requestID rc) 500 CodeInternal (Lit ''internal error'')"

definition arrive :: "('r, 'i, 'a) server \<Rightarrow> incoming \<Rightarrow> ('r, 'a) srv_state \<Rightarrow> ('r, 'a) srv_state \<times> task" where
  "arrive s q st = (case q of (ctx, rand, r, body) \<Rightarrow>
     let hid = hr_Header r HeaderRequestID;
         rid = (if hid = [] then newRequestID rand else hid);
         rc = \<lparr>rc_ctx = ctx, rc_requestID = rid, rc_authMethod = [], rc_clientCN = []\<rparr>
     in if hr_Path r = ''/health'' then (st, TMux rc)
        else case authorize (sv_env s) (sv_cfg s) (rt_now (dp_Runtime (sv_deps s)) (ss_rt st)) r (ss_JWT st) of
          (jwt, meth, cn, authOK) \<Rightarrow>
            (st\<lparr>ss_JWT := jwt\<rparr>,
             if authOK then TRate (rc\<lparr>rc_authMethod := meth, rc_clientCN := cn\<rparr>)
             else TReject rc zero_request (Sentinel ''api.errUnauthorized'')
                    (writeError rid 401 CodeUnauthorized (Lit ''unauthorized''))))"

definition rate_check :: "('r, 'i, 'a) server \<Rightarrow> http_request \<Rightarrow> req_ctx \<Rightarrow> ('r, 'a) srv_state \<Rightarrow> ('r, 'a) srv_state \<times> task" where
  "rate_check s r rc st = (case ss_Rate st of
       None \<Rightarrow> (st, TMux rc)
     | Some w \<Rightarrow> (case Allow (Some w) (rt_now (dp_Runtime (sv_deps s)) (ss_rt st))
                        (rateKey (je_sha256 (sv_env s)) r (rc_authMethod rc) (rc_clientCN rc)) of
         (rate, allowed) \<Rightarrow> (st\<lparr>ss_Rate := rate\<rparr>,
           if allowed then TMux rc
           else TDone (writeError (rc_requestID rc) 429 CodeRateLimited (Lit ''rate limit exceeded'')))))"

text \<open>The handler up to the call of the gate; none of it touches shared state.\<close>

definition begin_run :: "('r, 'i, 'a) server \<Rightarrow> req_ctx \<Rightarrow> execute_request \<Rightarrow> 'r \<Rightarrow> task" where
  "begin_run s rc req r =
     (let d = sv_deps s; started = rt_now (dp_Runtime d) r in
      case limit_check d (run_spec d req) of
        Some e \<Rightarrow> TAudit rc req zero_result (elapsed_ms started started) (Some e)
      | None \<Rightarrow> TSelect rc req started (boot_context d (rc_ctx rc) r))"

definition begin_execute :: "('r, 'i, 'a) server \<Rightarrow> req_ctx \<Rightarrow> string \<Rightarrow> req_body \<Rightarrow> 'r \<Rightarrow> task" where
  "begin_execute s rc meth body r =
     (let rid = rc_requestID rc;
          reject = (\<lambda>req e code msg. TReject rc req e (writeError rid 400 code msg))
      in if meth \<noteq> ''POST'' then TDone (writeError rid 405 CodeMethodNotAllow (Lit ''POST required''))
         else case body of
           TooLarge \<Rightarrow> TDone (writeError rid 413 CodeBodyTooLarge (Lit ''request body too large''))
         | Malformed e req \<Rightarrow> reject req e CodeInvalidJSON (Lit ''invalid JSON body'')
         | Trailing req \<Rightarrow>
             reject req (Errorf ''trailing data after JSON object'' []) CodeInvalidJSON (Lit ''invalid JSON body'')
         | Decoded req0 \<Rightarrow> (case validateExecute (sv_unicode s) req0 of
             (req, Some e) \<Rightarrow> reject req e CodeInvalidRequest (TextOf e)
           | (req, None) \<Rightarrow> begin_run s rc req r))"

definition mux_task :: "('r, 'i, 'a) server \<Rightarrow> http_request \<Rightarrow> req_body \<Rightarrow> req_ctx \<Rightarrow> ('r, 'a) srv_state \<Rightarrow> task" where
  "mux_task s r body rc st =
     (if hr_Path r = ''/health'' then TDone (snd (recovered (rc_requestID rc) (handleHealth s rc (hr_Method r) st)))
      else if hr_Path r = ''/execute'' then begin_execute s rc (hr_Method r) body (ss_rt st)
      else TDone (404, MuxNotFound))"

definition final_reply :: "('r, 'i, 'a) server \<Rightarrow> req_ctx \<Rightarrow> execute_request \<Rightarrow> exec_result \<Rightarrow> int \<Rightarrow> gerr option \<Rightarrow> gerr option \<Rightarrow> response" where
  "final_reply s rc req res ms execErr auditErr = (case execErr of
       Some e \<Rightarrow> (case mapExecError e of (status, code, msg) \<Rightarrow> writeError (rc_requestID rc) status code (Lit msg))
     | None \<Rightarrow>
         if auditErr \<noteq> None \<and> dp_AuditStrict (sv_deps s)
         then writeError (rc_requestID rc) 500 CodeAuditFailed (Lit ''audit sink failed'')
         else (200, ExecuteBody (resultToResponse req (rc_requestID rc) (rt_Name (dp_Runtime (sv_deps s))) res ms)))"

definition run_over :: "('r, 'i, 'a) server \<Rightarrow> req_ctx \<Rightarrow> execute_request \<Rightarrow> int \<Rightarrow> 'r \<Rightarrow> exec_result \<Rightarrow> gerr option \<Rightarrow> task" where
  "run_over s rc req started r res err = TAudit rc req res (elapsed_ms started (rt_now (dp_Runtime (sv_deps s)) r)) err"

text \<open>
  One step of a goroutine; \<open>c\<close> is the case of the gate's \<open>select\<close> that is taken when it is there.
\<close>

fun task_step :: "('r, 'i) runtime_ops \<Rightarrow> (('r, 'i) gate, nat, 'a) server \<Rightarrow> incoming \<Rightarrow> select \<Rightarrow>
    (('r, 'i) gate, 'a) srv_state \<Rightarrow> task \<Rightarrow> (('r, 'i) gate, 'a) srv_state \<times> task" where
  "task_step ops s q c st TArrived = arrive s q st"
| "task_step ops s (ctx, rand, r, body) c st (TRate rc) = rate_check s r rc st"
| "task_step ops s (ctx, rand, r, body) c st (TMux rc) = (st, mux_task s r body rc st)"
| "task_step ops s q c st (TReject rc req e resp) = (fst (recordAudit s rc req zero_result 0 (Some e) st), TDone resp)"
| "task_step ops s q c st (TSelect rc req started bctx) = (case c of
     Slot \<Rightarrow> (st\<lparr>ss_rt := take_slot (ss_rt st)\<rparr>, TBoot rc req started bctx)
   | CtxDone e \<Rightarrow> (st, run_over s rc req started (ss_rt st) zero_result (Some e))
   | TimerFired \<Rightarrow> (st, run_over s rc req started (ss_rt st) zero_result (Some (busy_error (ss_rt st)))))"
| "task_step ops s q c st (TBoot rc req started bctx) =
     (case boot_held ops bctx (run_spec (sv_deps s) req) (ss_rt st) of (g, x) \<Rightarrow>
        (st\<lparr>ss_rt := g\<rparr>, case x of
            Panic m \<Rightarrow> TCrashed (crash rc)
          | Ret (Inl e) \<Rightarrow> run_over s rc req started g zero_result (Some e)
          | Ret (Inr l) \<Rightarrow> TExec rc req started l))"
| "task_step ops s q c st (TExec rc req started l) =
     (let timeout = er_Timeout req * 10 ^ 9 in
      case Gate_Execute ops (with_timeout (rt_now ops (ga_inner (ss_rt st))) timeout (rc_ctx rc)) l
             \<lparr>xr_Code = er_Code req, xr_Timeout = timeout\<rparr> (ss_rt st) of
        (g, out) \<Rightarrow> (st\<lparr>ss_rt := g\<rparr>, TDestroy rc req started l out))"
| "task_step ops s q c st (TDestroy rc req started l out) =
     (case Gate_Destroy ops (with_timeout (rt_now ops (ga_inner (ss_rt st))) (5 * 10 ^ 9) Background) l (ss_rt st) of
        (g, _) \<Rightarrow> (st\<lparr>ss_rt := g\<rparr>, case out of
            Panic m \<Rightarrow> TDone (crash rc)
          | Ret (res, err) \<Rightarrow> run_over s rc req started g res err))"
| "task_step ops s q c st (TAudit rc req res ms err) =
     (case recordAudit s rc req res ms err st of (st', auditErr) \<Rightarrow> (st', TDone (final_reply s rc req res ms err auditErr)))"
| "task_step ops s q c st (TDone resp) = (st, TDone resp)"
| "task_step ops s q c st (TCrashed resp) = (st, TCrashed resp)"

section \<open>The system\<close>

type_synonym ('r, 'i, 'a) api_sys = "(('r, 'i) gate, 'a) srv_state \<times> task list"

text \<open>A send on the gate's channel is ready while it has room.\<close>

definition room :: "('r, 'i) gate \<Rightarrow> bool" where
  "room g = (int (ga_sem g) < ga_Max g)"

inductive api_step :: "('r, 'i) runtime_ops \<Rightarrow> (('r, 'i) gate, nat, 'a) server \<Rightarrow> incoming list \<Rightarrow>
    ('r, 'i, 'a) api_sys \<Rightarrow> ('r, 'i, 'a) api_sys \<Rightarrow> bool" for ops s qs where
  api_stepI: "i < length ts \<Longrightarrow> \<not> finished (ts ! i) \<Longrightarrow> c = Slot \<longrightarrow> room (ss_rt st) \<Longrightarrow>
    task_step ops s (qs ! i) c st (ts ! i) = (st', t) \<Longrightarrow> api_step ops s qs (st, ts) (st', ts[i := t])"

inductive_cases api_stepE: "api_step ops s qs (st, ts) y"

definition api_start :: "incoming list \<Rightarrow> 'b \<Rightarrow> 'b \<times> task list" where
  "api_start qs st = (st, map (\<lambda>_. TArrived) qs)"

section \<open>Who holds what\<close>

fun lease_of :: "task \<Rightarrow> nat option" where
  "lease_of (TExec rc req started l) = Some l"
| "lease_of (TDestroy rc req started l out) = Some l"
| "lease_of _ = None"

fun holds :: "task \<Rightarrow> bool" where
  "holds (TBoot rc req started bctx) = True"
| "holds (TCrashed resp) = True"
| "holds t = (lease_of t \<noteq> None)"

definition holding :: "task list \<Rightarrow> nat set" where
  "holding ts = {i. i < length ts \<and> holds (ts ! i)}"

text \<open>The goroutines that have an instance.\<close>

definition lessees :: "task list \<Rightarrow> nat set" where
  "lessees ts = {i. i < length ts \<and> lease_of (ts ! i) \<noteq> None}"

text \<open>
  The invariant of the system: the gate's, every open lease is in the hands of exactly one
  goroutine, and the tokens in the channel are those of the goroutines that hold a slot.
\<close>

definition sys_inv :: "('r \<Rightarrow> bool) \<Rightarrow> ('r \<Rightarrow> 'i set) \<Rightarrow> ('r \<Rightarrow> 'i set) \<Rightarrow> ('r, 'i, 'a) api_sys \<Rightarrow> bool" where
  "sys_inv iv kn lv y = (case y of (st, ts) \<Rightarrow> gate_inv iv kn lv (ss_rt st)
     \<and> gate_live (ss_rt st) = {l. \<exists>i < length ts. lease_of (ts ! i) = Some l}
     \<and> (\<forall>i < length ts. \<forall>j < length ts. lease_of (ts ! i) \<noteq> None \<longrightarrow> lease_of (ts ! i) = lease_of (ts ! j) \<longrightarrow> i = j)
     \<and> ga_sem (ss_rt st) = card (holding ts))"

lemma holds_lease: "lease_of t \<noteq> None \<Longrightarrow> holds t"
  by (cases t) simp_all

lemma finite_holding [simp]: "finite (holding ts)"
  by (simp add: holding_def)

lemma card_holding_update:
  assumes "i < length ts"
  shows "card (holding (ts[i := t])) + of_bool (holds (ts ! i)) = card (holding ts) + of_bool (holds t)"
proof -
  have "holding (ts[i := t]) = (if holds t then insert i (holding ts - {i}) else holding ts - {i})"
    using assms by (auto simp: holding_def nth_list_update)
  moreover have "i \<in> holding ts \<longleftrightarrow> holds (ts ! i)" using assms by (simp add: holding_def)
  ultimately show ?thesis
    by (cases "holds (ts ! i)") (auto simp: insert_absorb card_Suc_Diff1 simp del: card_Diff_insert)
qed

lemma open_leases_card: "length (open_leases g) = card (gate_live g)"
  by (simp add: open_leases_def gate_live_def length_filter_conv_card)

lemma finite_lessees [simp]: "finite (lessees ts)"
  by (simp add: lessees_def)

lemma lessees_holding: "lessees ts \<subseteq> holding ts"
  using holds_lease by (auto simp: lessees_def holding_def)

lemma lessees_empty: "list_all (\<lambda>t. lease_of t = None) ts \<Longrightarrow> lessees ts = {}"
  by (auto simp: lessees_def list_all_length)

lemma card_gate_live:
  assumes "sys_inv iv kn lv (st, ts)"
  shows "card (gate_live (ss_rt st)) \<le> card (lessees ts)"
proof -
  have "gate_live (ss_rt st) \<subseteq> (\<lambda>j. the (lease_of (ts ! j))) ` lessees ts"
  proof
    fix l assume "l \<in> gate_live (ss_rt st)"
    then obtain j where "j < length ts" "lease_of (ts ! j) = Some l" using assms by (auto simp: sys_inv_def)
    then show "l \<in> (\<lambda>j. the (lease_of (ts ! j))) ` lessees ts" by (intro image_eqI [of _ _ j]) (simp_all add: lessees_def)
  qed
  then show ?thesis by (rule surj_card_le [rotated]) simp
qed

text \<open>A goroutine that holds a slot without a lease leaves room between leases and tokens.\<close>

lemma sys_inv_slack:
  assumes "sys_inv iv kn lv (st, ts)" and "i < length ts" and "holds (ts ! i)" and "lease_of (ts ! i) = None"
  shows "length (open_leases (ss_rt st)) < ga_sem (ss_rt st)"
proof -
  have "i \<in> holding ts" "i \<notin> lessees ts" using assms(2-4) by (simp_all add: holding_def lessees_def)
  then have "lessees ts \<subset> holding ts" using lessees_holding by blast
  then have "card (lessees ts) < card (holding ts)" by (rule psubset_card_mono [rotated]) simp
  then show ?thesis using assms(1) card_gate_live [OF assms(1)] by (simp add: open_leases_card sys_inv_def)
qed

text \<open>A step of goroutine \<open>i\<close> keeps the invariant if it accounts for what it takes and returns.\<close>

lemma sys_inv_update:
  assumes "sys_inv iv kn lv (st, ts)" and "i < length ts" and "gate_inv iv kn lv (ss_rt st')"
    and "gate_live (ss_rt st') = (gate_live (ss_rt st) - set_option (lease_of (ts ! i))) \<union> set_option (lease_of t)"
    and "set_option (lease_of t) \<inter> gate_live (ss_rt st) \<subseteq> set_option (lease_of (ts ! i))"
    and "ga_sem (ss_rt st') + of_bool (holds (ts ! i)) = ga_sem (ss_rt st) + of_bool (holds t)"
  shows "sys_inv iv kn lv (st', ts[i := t])"
proof -
  have live: "gate_live (ss_rt st) = {l. \<exists>i < length ts. lease_of (ts ! i) = Some l}"
    and inj: "\<And>j k. j < length ts \<Longrightarrow> k < length ts \<Longrightarrow> lease_of (ts ! j) \<noteq> None \<Longrightarrow> lease_of (ts ! j) = lease_of (ts ! k) \<Longrightarrow> j = k"
    and sem: "ga_sem (ss_rt st) = card (holding ts)"
    using assms(1) by (auto simp: sys_inv_def)
  have other: "lease_of (ts ! j) = Some l \<Longrightarrow> lease_of t \<noteq> Some l" if "j < length ts" "j \<noteq> i" for j l
    using assms(5) live inj [of j i] that assms(2) by (auto simp: set_eq_iff subset_iff)
  have "l \<in> gate_live (ss_rt st') \<longleftrightarrow> (\<exists>j < length ts. lease_of (ts[i := t] ! j) = Some l)" for l
  proof -
    have "(\<exists>j < length ts. lease_of (ts[i := t] ! j) = Some l)
      \<longleftrightarrow> lease_of t = Some l \<or> (\<exists>j < length ts. j \<noteq> i \<and> lease_of (ts ! j) = Some l)"
      using assms(2) by (auto simp: nth_list_update)
    moreover have "(\<exists>j < length ts. j \<noteq> i \<and> lease_of (ts ! j) = Some l)
      \<longleftrightarrow> l \<in> gate_live (ss_rt st) \<and> lease_of (ts ! i) \<noteq> Some l"
    proof -
      have "j \<noteq> i \<longleftrightarrow> lease_of (ts ! i) \<noteq> Some l" if "j < length ts" "lease_of (ts ! j) = Some l" for j
        using inj [of j i] that assms(2) by auto
      then show ?thesis unfolding live by blast
    qed
    ultimately show ?thesis unfolding assms(4) by auto
  qed
  moreover have "ga_sem (ss_rt st') = card (holding (ts[i := t]))"
    using card_holding_update [OF assms(2), of t] assms(6) sem by (cases "holds t"; cases "holds (ts ! i)") simp_all
  moreover have "j = k" if "j < length ts" "k < length ts" "lease_of (ts[i := t] ! j) \<noteq> None" "lease_of (ts[i := t] ! j) = lease_of (ts[i := t] ! k)" for j k
  proof (cases "j = i \<or> k = i")
    case True
    show ?thesis
    proof (rule ccontr)
      assume "j \<noteq> k"
      with True that assms(2) obtain m l where "m < length ts" "m \<noteq> i" "lease_of (ts ! m) = Some l" "lease_of t = Some l"
        by (cases "j = i") (auto simp: nth_list_update)
      then show False using other by blast
    qed
  next
    case False
    then show ?thesis using that inj [of j k] by simp
  qed
  ultimately show ?thesis using assms(3) by (auto simp: sys_inv_def)
qed

text \<open>In particular when neither the gate nor what the goroutine holds changes.\<close>

lemma sys_inv_quiet:
  assumes "sys_inv iv kn lv (st, ts)" and "i < length ts" and "ss_rt st' = ss_rt st"
    and "lease_of t = lease_of (ts ! i)" and "holds t = holds (ts ! i)"
  shows "sys_inv iv kn lv (st', ts[i := t])"
  by (rule sys_inv_update [OF assms(1,2)])
    (use assms in \<open>auto simp: sys_inv_def set_eq_iff\<close>)

section \<open>The invariant is kept\<close>

context gated_runtime
begin

lemma take_slot_inv: "gate_inv inv known live g \<Longrightarrow> room g \<Longrightarrow> gate_inv inv known live (take_slot g)"
  by (auto simp: gate_inv_def take_slot_def room_def open_leases_def)

lemma boot_held_inv:
  assumes "gate_inv inv known live g" and "length (open_leases g) < ga_sem g"
  shows "gate_inv inv known live (fst (boot_held ops c sp g))"
proof -
  obtain r x where b: "rt_Boot ops c sp (ga_inner g) = (r, x)" by fastforce
  have i: "inv (ga_inner g)" using assms(1) by (simp add: gate_inv_def)
  have r: "inv r" using boot_inv [OF i, of c sp] b by simp
  show ?thesis
  proof (cases "\<exists>h. x = Ret (Inr h)")
    case True
    then obtain h where x: "x = Ret (Inr h)" by blast
    have "h \<notin> known (ga_inner g) \<and> known r = insert h (known (ga_inner g)) \<and> live r = insert h (live (ga_inner g))"
      using boot_ok [OF i] b x by blast
    then show ?thesis using assms r by (auto simp: boot_held_def b x gate_inv_def open_leases_def)
  next
    case False
    then have "known r = known (ga_inner g) \<and> live r = live (ga_inner g)" using boot_fail [OF i b] by blast
    then show ?thesis using assms r False
      by (auto simp: boot_held_def b gate_inv_def open_leases_def split: call.split sum.split)
  qed
qed

lemma boot_held_live:
  assumes "boot_held ops c sp g = (g', x)"
  shows "gate_live g' = gate_live g \<union> (case x of Ret (Inr l) \<Rightarrow> {l} | _ \<Rightarrow> {})"
    and "x = Ret (Inr l) \<Longrightarrow> l \<notin> gate_live g"
    and "ga_sem g' = (case x of Ret (Inl e) \<Rightarrow> ga_sem g - 1 | _ \<Rightarrow> ga_sem g)"
  using assms by (auto simp: boot_held_def gate_live_def nth_append less_Suc_eq split: prod.splits call.splits sum.splits)

lemma Gate_Destroy_sem:
  "l \<in> gate_live g \<Longrightarrow> ga_sem (fst (Gate_Destroy ops c l g)) = ga_sem g - 1"
  by (auto simp: Gate_Destroy_def gate_live_def release_def split: prod.splits)

lemma Gate_Execute_sem: "ga_sem (fst (Gate_Execute ops c l q g)) = ga_sem g"
  by (simp add: Gate_Execute_def split: prod.split)

text \<open>Steps that leave the gate alone.\<close>

lemma quiet_task_step:
  assumes "task_step ops s q c st t = (st', t')" and "lease_of t = None" and "\<not> holds t"
    and "\<And>rc req started bctx. t = TSelect rc req started bctx \<Longrightarrow> c \<noteq> Slot"
  shows "ss_rt st' = ss_rt st \<and> lease_of t' = None \<and> \<not> holds t'"
proof -
  obtain ctx rand r body where q: "q = (ctx, rand, r, body)" by (metis prod_cases4)
  show ?thesis
    using assms
    by (cases t) (auto simp: q arrive_def rate_check_def mux_task_def begin_execute_def begin_run_def run_over_def
        Let_def frame_laws split: prod.splits option.splits if_splits select.splits req_body.splits)
qed

lemma api_step_inv:
  assumes "api_step ops s qs y y'" and "sys_inv inv known live y"
  shows "sys_inv inv known live y'"
  using assms(1)
proof cases
  case (api_stepI i ts c st st' t)
  have y: "sys_inv inv known live (st, ts)" using assms(2) api_stepI by simp
  then have g: "gate_inv inv known live (ss_rt st)" by (simp add: sys_inv_def)
  have l: "lease_of (ts ! i) = Some l \<Longrightarrow> l \<in> gate_live (ss_rt st)" for l
    using y api_stepI(3) by (auto simp: sys_inv_def)
  have pos: "holds (ts ! i) \<Longrightarrow> 0 < ga_sem (ss_rt st)"
    using y api_stepI(3) by (auto simp: sys_inv_def card_gt_0_iff holding_def)
  note upd = sys_inv_update [OF y api_stepI(3), where st' = st' and t = t]
  note step = api_stepI(6)
  show ?thesis unfolding api_stepI(2)
  proof (cases "ts ! i")
    case (TBoot rc req started bctx)
    obtain g' x where b: "boot_held ops bctx (run_spec (sv_deps s) req) (ss_rt st) = (g', x)" by fastforce
    have "gate_inv inv known live g'"
      using boot_held_inv [OF g sys_inv_slack [OF y api_stepI(3)], of bctx "run_spec (sv_deps s) req"] by (simp add: TBoot b)
    with step pos boot_held_live [OF b] show "sys_inv inv known live (st', ts[i := t])"
      by (intro upd) (auto simp: TBoot b run_over_def split: call.splits sum.splits)
  next
    case (TExec rc req started n)
    then show "sys_inv inv known live (st', ts[i := t])"
      using step gate_inv_Execute [OF g] gate_execute_keeps Gate_Execute_sem l
      by (intro upd) (auto simp: Let_def case_prod_beta)
  next
    case (TDestroy rc req started n out)
    then show "sys_inv inv known live (st', ts[i := t])"
      using step gate_inv_Destroy [OF g] gate_destroy_dead Gate_Destroy_sem [OF l] pos
      by (intro upd) (auto simp: case_prod_beta run_over_def split: call.splits)
  next
    case (TSelect rc req started bctx)
    show "sys_inv inv known live (st', ts[i := t])"
    proof (cases "c = Slot")
      case True
      then show ?thesis
        using step TSelect api_stepI(5) take_slot_inv [OF g]
        by (intro upd) (auto simp: take_slot_def gate_live_def)
    next
      case False
      then show ?thesis using quiet_task_step [OF step] TSelect
        by (intro sys_inv_quiet [OF y api_stepI(3)]) auto
    qed
  qed (use quiet_task_step [OF step] api_stepI(4) in \<open>auto intro!: sys_inv_quiet [OF y api_stepI(3)]\<close>)
qed

lemma api_reach_inv: "(api_step ops s qs)\<^sup>*\<^sup>* y y' \<Longrightarrow> sys_inv inv known live y \<Longrightarrow> sys_inv inv known live y'"
  by (induction rule: rtranclp_induct) (auto intro: api_step_inv)

lemma sys_inv_start:
  assumes "gate_inv inv known live (ss_rt st)" and "gate_live (ss_rt st) = {}" and "ga_sem (ss_rt st) = 0"
  shows "sys_inv inv known live (api_start qs st)"
  using assms by (auto simp: sys_inv_def api_start_def holding_def)

text \<open>What the invariant says of the instances.\<close>

lemma sys_inv_bound:
  assumes "sys_inv inv known live (st, ts)"
  shows "finite (live (ga_inner (ss_rt st)))" and "int (card (live (ga_inner (ss_rt st)))) \<le> ga_Max (ss_rt st)"
    and "card (holding ts) = ga_sem (ss_rt st)" and "int (ga_sem (ss_rt st)) \<le> ga_Max (ss_rt st)"
  using assms gate_bound by (auto simp: sys_inv_def gate_inv_def)

lemma sys_inv_idle:
  assumes "sys_inv inv known live (st, ts)" and "list_all finished ts"
  shows "live (ga_inner (ss_rt st)) = {}"
proof -
  have "lease_of t = None" if "finished t" for t using that by (cases t) auto
  then have "gate_live (ss_rt st) = {}" using assms by (force simp: sys_inv_def list_all_length)
  then have "open_leases (ss_rt st) = []" using open_leases_card [of "ss_rt st"] by simp
  then show ?thesis using assms(1) by (simp add: sys_inv_def gate_inv_def)
qed

end

section \<open>Progress\<close>

fun rank :: "task \<Rightarrow> nat" where
  "rank TArrived = 8"
| "rank (TRate rc) = 7"
| "rank (TMux rc) = 6"
| "rank (TSelect rc req started bctx) = 5"
| "rank (TBoot rc req started bctx) = 4"
| "rank (TExec rc req started l) = 3"
| "rank (TDestroy rc req started l out) = 2"
| "rank (TAudit rc req res ms err) = 1"
| "rank (TReject rc req e resp) = 1"
| "rank (TDone resp) = 0"
| "rank (TCrashed resp) = 0"

lemma finished_answer: "finished t \<longleftrightarrow> answer t \<noteq> None"
  by (cases t) simp_all

lemma task_step_rank:
  assumes "task_step ops s q c st t = (st', t')" and "\<not> finished t"
  shows "rank t' < rank t"
proof -
  obtain ctx rand r body where q: "q = (ctx, rand, r, body)" by (metis prod_cases4)
  show ?thesis
    using assms
    by (cases t) (auto simp: q arrive_def rate_check_def mux_task_def begin_execute_def begin_run_def run_over_def
        Let_def split: prod.splits option.splits if_splits select.splits req_body.splits call.splits sum.splits)
qed

lemma sum_list_update_less:
  fixes f :: "'b \<Rightarrow> nat"
  assumes "i < length xs" and "f x < f (xs ! i)"
  shows "sum_list (map f (xs[i := x])) < sum_list (map f xs)"
proof -
  define a where "a = take i xs"
  define b where "b = drop (Suc i) xs"
  have "xs = a @ xs ! i # b" unfolding a_def b_def using assms(1) by (rule id_take_nth_drop)
  then have "sum_list (map f xs) = sum_list (map f a) + (f (xs ! i) + sum_list (map f b))"
    by (metis list.simps(9) map_append sum_list.Cons sum_list_append)
  moreover have "xs[i := x] = a @ x # b" unfolding a_def b_def using assms(1) by (rule upd_conv_take_nth_drop)
  ultimately show ?thesis using assms(2) by simp
qed

lemma api_step_rank:
  assumes "api_step ops s qs (st, ts) (st', ts')"
  shows "sum_list (map rank ts') < sum_list (map rank ts) \<and> length ts' = length ts"
  using assms
proof cases
  case (api_stepI i c t)
  then show ?thesis using task_step_rank [OF api_stepI(5,3)] by (simp add: sum_list_update_less)
qed

lemma api_steps_rank:
  assumes "(api_step ops s qs ^^ n) (st, ts) (st', ts')"
  shows "n + sum_list (map rank ts') \<le> sum_list (map rank ts) \<and> length ts' = length ts"
  using assms
proof (induction n arbitrary: st' ts')
  case (Suc n)
  then obtain st1 ts1 where "(api_step ops s qs ^^ n) (st, ts) (st1, ts1)" "api_step ops s qs (st1, ts1) (st', ts')"
    by (metis relpowp_Suc_E surj_pair)
  then show ?case using Suc.IH api_step_rank by fastforce
qed simp

text \<open>A goroutine that is not done can always go on: whoever waits for a slot can be timed out.\<close>

lemma api_step_enabled:
  assumes "i < length ts" and "\<not> finished (ts ! i)"
  shows "\<exists>st' t. api_step ops s qs (st, ts) (st', ts[i := t]) \<and> rank t < rank (ts ! i)"
proof -
  obtain st' t where "task_step ops s (qs ! i) TimerFired st (ts ! i) = (st', t)" by fastforce
  then show ?thesis using assms task_step_rank api_stepI [of i ts TimerFired st ops s qs st' t] by blast
qed

section \<open>One request at a time\<close>

lemma gate_ops_sel:
  "rt_Boot (gate_ops ops sel) = Gate_Boot ops sel" "rt_Execute (gate_ops ops sel) = Gate_Execute ops"
  "rt_Destroy (gate_ops ops sel) = Gate_Destroy ops" "rt_now (gate_ops ops sel) g = rt_now ops (ga_inner g)"
  by (simp_all add: gate_ops_def)

text \<open>A goroutine that runs alone.\<close>

inductive alone :: "('r, 'i) runtime_ops \<Rightarrow> (('r, 'i) gate, nat, 'a) server \<Rightarrow> incoming \<Rightarrow>
    (('r, 'i) gate, 'a) srv_state \<Rightarrow> task \<Rightarrow> (('r, 'i) gate, 'a) srv_state \<times> response \<Rightarrow> bool" for ops s q where
  alone_done: "answer t = Some resp \<Longrightarrow> alone ops s q st t (st, resp)"
| alone_step: "\<not> finished t \<Longrightarrow> c = Slot \<longrightarrow> room (ss_rt st) \<Longrightarrow> alone ops s q (fst (task_step ops s q c st t)) (snd (task_step ops s q c st t)) x
    \<Longrightarrow> alone ops s q st t x"

lemma alone_schedule:
  assumes "alone ops s q st t x" and "i < length ts" and "qs ! i = q" and "ts ! i = t"
  shows "\<exists>t'. (api_step ops s qs)\<^sup>*\<^sup>* (st, ts) (fst x, ts[i := t']) \<and> answer t' = Some (snd x)"
  using assms
proof (induction arbitrary: ts rule: alone.induct)
  case (alone_done t resp st)
  then show ?case by (intro exI [of _ t]) (metis fst_conv list_update_id rtranclp.rtrancl_refl snd_conv)
next
  case (alone_step t c st x)
  let ?y = "task_step ops s q c st t"
  have "api_step ops s qs (st, ts) (fst ?y, ts[i := snd ?y])"
    using alone_step by (intro api_stepI [of i ts c]) auto
  moreover obtain t' where "(api_step ops s qs)\<^sup>*\<^sup>* (fst ?y, ts[i := snd ?y]) (fst x, ts[i := snd ?y, i := t'])" "answer t' = Some (snd x)"
    using alone_step.IH [of "ts[i := snd ?y]"] alone_step.prems by auto
  ultimately show ?case by (metis converse_rtranclp_into_rtranclp list_update_overwrite)
qed

lemma alone_reject: "alone ops s q st (TReject rc req e resp) (fst (recordAudit s rc req zero_result 0 (Some e) st), resp)"
  by (rule alone_step [of _ TimerFired]) (simp_all add: alone_done)

lemma alone_audit:
  "alone ops s q st (TAudit rc req res ms err)
     (case recordAudit s rc req res ms err st of (st', ae) \<Rightarrow> (st', final_reply s rc req res ms err ae))"
  by (rule alone_step [of _ TimerFired]) (simp_all add: alone_done split: prod.split)

text \<open>From the outcome of \<open>run\<close> on.\<close>

definition after_run :: "('r, 'i, 'a) server \<Rightarrow> req_ctx \<Rightarrow> execute_request \<Rightarrow> int \<Rightarrow> ('r, 'a) srv_state \<Rightarrow> 'r \<times> (exec_result \<times> gerr option) call \<Rightarrow>
    ('r, 'a) srv_state \<times> response" where
  "after_run s rc req started st p = (case p of
       (r, Panic m) \<Rightarrow> (st\<lparr>ss_rt := r\<rparr>, crash rc)
     | (r, Ret (res, err)) \<Rightarrow>
         (let ms = elapsed_ms started (rt_now (dp_Runtime (sv_deps s)) r) in
          case recordAudit s rc req res ms err (st\<lparr>ss_rt := r\<rparr>) of (st', ae) \<Rightarrow> (st', final_reply s rc req res ms err ae)))"

lemma after_run_panic: "after_run s rc req started st (r, Panic m) = (st\<lparr>ss_rt := r\<rparr>, crash rc)"
  by (simp add: after_run_def)

lemma alone_run_over:
  "alone ops s q (st\<lparr>ss_rt := g\<rparr>) (run_over s rc req started g res err) (after_run s rc req started st (g, Ret (res, err)))"
  using alone_audit by (simp add: run_over_def after_run_def Let_def)

lemma alone_run_over':
  "alone ops s q st (run_over s rc req started (ss_rt st) res err) (after_run s rc req started st (ss_rt st, Ret (res, err)))"
  using alone_run_over [where st = st and g = "ss_rt st"] by simp

lemma alone_instance:
  assumes "dp_Runtime (sv_deps s) = gate_ops ops sel"
  shows "alone ops s q (st\<lparr>ss_rt := g\<rparr>) (TExec rc req started l) (after_run s rc req started st (run_instance (gate_ops ops sel) (rc_ctx rc) req l g))"
proof -
  let ?to = "er_Timeout req * 1000000000"
  obtain g1 out where e: "Gate_Execute ops (with_timeout (rt_now ops (ga_inner g)) ?to (rc_ctx rc)) l
      \<lparr>xr_Code = er_Code req, xr_Timeout = ?to\<rparr> g = (g1, out)" by fastforce
  obtain g2 x where d: "Gate_Destroy ops (with_timeout (rt_now ops (ga_inner g1)) 5000000000 Background) l g1 = (g2, x)" by fastforce
  have r: "run_instance (gate_ops ops sel) (rc_ctx rc) req l g = (g2, out)"
    by (simp add: run_instance_def gate_ops_sel e d Let_def)
  have "alone ops s q (st\<lparr>ss_rt := g2\<rparr>) (case out of Panic m \<Rightarrow> TDone (crash rc) | Ret (res, err) \<Rightarrow> run_over s rc req started g2 res err)
      (after_run s rc req started st (g2, out))"
    by (auto simp: alone_run_over [where st = st] after_run_panic alone_done split: call.split)
  then have "alone ops s q (st\<lparr>ss_rt := g1\<rparr>) (TDestroy rc req started l out) (after_run s rc req started st (g2, out))"
    by - (rule alone_step [of _ TimerFired], simp_all add: d)
  then show ?thesis unfolding r by - (rule alone_step [of _ TimerFired], simp_all add: e Let_def)
qed

lemma alone_select:
  assumes "dp_Runtime (sv_deps s) = gate_ops ops sel" and "fair_select sel"
    and "limit_check (sv_deps s) (run_spec (sv_deps s) req) = None"
  shows "alone ops s q st (TSelect rc req started (boot_context (sv_deps s) (rc_ctx rc) (ss_rt st)))
    (after_run s rc req started st (server_run (sv_deps s) (rc_ctx rc) req (ss_rt st)))"
proof -
  let ?b = "boot_context (sv_deps s) (rc_ctx rc) (ss_rt st)"
  have run: "server_run (sv_deps s) (rc_ctx rc) req (ss_rt st) = (case Gate_Boot ops sel ?b (run_spec (sv_deps s) req) (ss_rt st) of
           (r1, Panic m) \<Rightarrow> (r1, Panic m)
         | (r1, Ret (Inl e)) \<Rightarrow> (r1, Ret (zero_result, Some e))
         | (r1, Ret (Inr inst)) \<Rightarrow> run_instance (gate_ops ops sel) (rc_ctx rc) req inst r1)"
    by (simp add: server_run_def assms(1,3) gate_ops_sel)
  show ?thesis
  proof (cases "sel ?b (ss_rt st)")
    case Slot
    obtain g x where b: "boot_held ops ?b (run_spec (sv_deps s) req) (take_slot (ss_rt st)) = (g, x)" by fastforce
    have room: "room (ss_rt st)" using Slot assms(2) by (auto simp: fair_select_def room_def)
    have "alone ops s q (st\<lparr>ss_rt := g\<rparr>) (case x of
            Panic m \<Rightarrow> TCrashed (crash rc)
          | Ret (Inl e) \<Rightarrow> run_over s rc req started g zero_result (Some e)
          | Ret (Inr l) \<Rightarrow> TExec rc req started l)
        (after_run s rc req started st (server_run (sv_deps s) (rc_ctx rc) req (ss_rt st)))"
      unfolding run Gate_Boot_split Slot
      by (simp add: b after_run_panic alone_done alone_instance [OF assms(1)] alone_run_over [where st = st]
          split: call.split sum.split)
    then have "alone ops s q (st\<lparr>ss_rt := take_slot (ss_rt st)\<rparr>) (TBoot rc req started ?b)
        (after_run s rc req started st (server_run (sv_deps s) (rc_ctx rc) req (ss_rt st)))"
      by - (rule alone_step [of _ TimerFired], simp_all add: b)
    then show ?thesis by - (rule alone_step [of _ Slot], simp_all add: room)
  qed (rule alone_step [of _ "sel ?b (ss_rt st)"], simp_all add: run Gate_Boot_split alone_run_over')+
qed

lemma recovered_crash: "recovered (rc_requestID rc) (st, Panic m) = (st, crash rc)"
  by (simp add: recovered_def crash_def)

lemma alone_begin_run:
  assumes "dp_Runtime (sv_deps s) = gate_ops ops sel" and "fair_select sel"
  shows "alone ops s q st (begin_run s rc req (ss_rt st))
    (after_run s rc req (rt_now (dp_Runtime (sv_deps s)) (ss_rt st)) st (server_run (sv_deps s) (rc_ctx rc) req (ss_rt st)))"
proof (cases "limit_check (sv_deps s) (run_spec (sv_deps s) req)")
  case None
  then show ?thesis using alone_select [OF assms None] by (simp add: begin_run_def Let_def)
next
  case (Some e)
  then show ?thesis
    using alone_run_over' [of ops s q st rc req "rt_now (dp_Runtime (sv_deps s)) (ss_rt st)" zero_result "Some e"]
    by (simp add: begin_run_def server_run_def Let_def run_over_def)
qed

lemma handleExecute_after_run:
  assumes "validateExecute (sv_unicode s) req0 = (req, None)"
  shows "recovered (rc_requestID rc) (handleExecute s rc ''POST'' (Decoded req0) st)
    = after_run s rc req (rt_now (dp_Runtime (sv_deps s)) (ss_rt st)) st (server_run (sv_deps s) (rc_ctx rc) req (ss_rt st))"
proof -
  obtain r x where "server_run (sv_deps s) (rc_ctx rc) req (ss_rt st) = (r, x)" by fastforce
  then show ?thesis
    by (auto simp: handleExecute_def assms Let_def after_run_def recovered_def crash_def final_reply_def
        split: call.split option.split prod.split)
qed

lemma alone_execute:
  assumes "dp_Runtime (sv_deps s) = gate_ops ops sel" and "fair_select sel"
  shows "alone ops s q st (begin_execute s rc meth body (ss_rt st)) (recovered (rc_requestID rc) (handleExecute s rc meth body st))"
proof (cases "runnable (sv_unicode s) meth body")
  case (Some req)
  then obtain req0 where "meth = ''POST''" "body = Decoded req0" "validateExecute (sv_unicode s) req0 = (req, None)"
    by (auto simp: runnable_def split: if_splits req_body.splits prod.splits option.splits)
  then show ?thesis using alone_begin_run [OF assms] handleExecute_after_run [of s req0 req rc st]
    by (simp add: begin_execute_def Let_def)
next
  case None
  then show ?thesis
    by (auto simp: runnable_def begin_execute_def handleExecute_def recovered_def Let_def alone_reject alone_done
        split: if_splits req_body.splits prod.splits option.splits)
qed

lemma alone_mux:
  assumes "dp_Runtime (sv_deps s) = gate_ops ops sel" and "fair_select sel" and "q = (ctx, rand, r, body)"
  shows "alone ops s q st (TMux rc) (recovered (rc_requestID rc) (serve_mux s rc r body st))"
proof -
  have "alone ops s q st (mux_task s r body rc st) (recovered (rc_requestID rc) (serve_mux s rc r body st))"
    using alone_execute [OF assms(1,2), of q st rc "hr_Method r" body] handleHealth_state [of s rc "hr_Method r" st]
    by (auto simp: mux_task_def serve_mux_def recovered_def intro: alone_done)
  then show ?thesis by - (rule alone_step [of _ TimerFired], simp_all add: assms(3))
qed

lemma alone_rate:
  assumes "dp_Runtime (sv_deps s) = gate_ops ops sel" and "fair_select sel" and "q = (ctx, rand, r, body)"
  shows "alone ops s q st (TRate rc)
    (let now = rt_now (dp_Runtime (sv_deps s)) (ss_rt st);
         (rate, allowed) = (case ss_Rate st of
             None \<Rightarrow> (None, True)
           | Some w \<Rightarrow> Allow (Some w) now (rateKey (je_sha256 (sv_env s)) r (rc_authMethod rc) (rc_clientCN rc)));
         st2 = st\<lparr>ss_Rate := rate\<rparr>
     in if \<not> allowed then (st2, writeError (rc_requestID rc) 429 CodeRateLimited (Lit ''rate limit exceeded''))
        else recovered (rc_requestID rc) (serve_mux s rc r body st2))"
proof (cases "ss_Rate st")
  case None
  then have e: "st\<lparr>ss_Rate := None\<rparr> = st" by (cases st) simp
  show ?thesis using alone_mux [OF assms, of st rc]
    by - (rule alone_step [of _ TimerFired], simp_all add: assms(3) rate_check_def None e)
next
  case (Some w)
  obtain rate allowed where a: "Allow (Some w) (rt_now (dp_Runtime (sv_deps s)) (ss_rt st))
      (rateKey (je_sha256 (sv_env s)) r (rc_authMethod rc) (rc_clientCN rc)) = (rate, allowed)" by fastforce
  show ?thesis using alone_mux [OF assms, of "st\<lparr>ss_Rate := rate\<rparr>" rc]
    by - (rule alone_step [of _ TimerFired], simp_all add: assms(3) rate_check_def Some a alone_done)
qed

lemma alone_middleware:
  assumes "dp_Runtime (sv_deps s) = gate_ops ops sel" and "fair_select sel"
  shows "alone ops s (ctx, rand, r, body) st TArrived (middleware s ctx rand r body st)"
proof -
  let ?q = "(ctx, rand, r, body)"
  obtain jwt meth cn authOK where a: "authorize (sv_env s) (sv_cfg s)
      (rt_now (dp_Runtime (sv_deps s)) (ss_rt st)) r (ss_JWT st) = (jwt, meth, cn, authOK)"
    using prod_cases4 by blast
  define rid where "rid = (if hr_Header r HeaderRequestID = [] then newRequestID rand else hr_Header r HeaderRequestID)"
  define rc where "rc = \<lparr>rc_ctx = ctx, rc_requestID = rid, rc_authMethod = [], rc_clientCN = []\<rparr>"
  have rid: "rc_requestID rc = rid" by (simp add: rc_def)
  have "alone ops s ?q (fst (arrive s ?q st)) (snd (arrive s ?q st)) (middleware s ctx rand r body st)"
    using alone_mux [OF assms refl, of ctx rand r body st rc]
      alone_rate [OF assms refl, of ctx rand r body "st\<lparr>ss_JWT := jwt\<rparr>" "rc\<lparr>rc_authMethod := meth, rc_clientCN := cn\<rparr>"]
    unfolding arrive_def middleware_def Let_def prod.case a rid_def [symmetric] rc_def [symmetric]
    by (simp add: rid alone_reject Let_def cong: option.case_cong prod.case_cong if_cong)
  then show ?thesis by - (rule alone_step [of _ TimerFired], simp_all)
qed

section \<open>The bound does not change\<close>

lemma task_step_Max:
  assumes "task_step ops s q c st t = (st', t')"
  shows "ga_Max (ss_rt st') = ga_Max (ss_rt st)"
proof -
  obtain ctx rand r body where q: "q = (ctx, rand, r, body)" by (metis prod_cases4)
  show ?thesis using assms
    by (cases t) (auto simp: q arrive_def rate_check_def Let_def take_slot_def boot_held_def Gate_Execute_def
        Gate_Destroy_def release_def frame_laws split: prod.splits option.splits if_splits select.splits call.splits sum.splits)
qed

lemma api_reach_Max: "(api_step ops s qs)\<^sup>*\<^sup>* y y' \<Longrightarrow> ga_Max (ss_rt (fst y')) = ga_Max (ss_rt (fst y))"
proof (induction rule: rtranclp_induct)
  case (step y z)
  have "ga_Max (ss_rt (fst z)) = ga_Max (ss_rt (fst y))"
    using step(2) by (cases rule: api_step.cases) (simp add: task_step_Max)
  with step.IH show ?case by simp
qed simp

section \<open>The log\<close>

definition recorded :: "event list \<Rightarrow> execute_response \<Rightarrow> bool" where
  "recorded evs p = (\<exists>x \<in> set evs. ev_RequestID x = xp_RequestID p \<and> ev_SessionID x = xp_SessionID p \<and> ev_Runtime x = xp_Runtime p
     \<and> ev_VMID x = xp_VMID p \<and> ev_ExitCode x = xp_ExitCode p \<and> ev_TimedOut x = xp_TimedOut p
     \<and> ev_DurationMS x = xp_DurationMS p \<and> ev_Error x = None)"

definition log_inv :: "('a \<Rightarrow> event list) \<Rightarrow> (('r, 'a) srv_state \<times> task list) \<Rightarrow> bool" where
  "log_inv seen y = (\<forall>i < length (snd y). \<forall>p. answer (snd y ! i) = Some (200, ExecuteBody p) \<longrightarrow> recorded (seen (ss_audit (fst y))) p)"

lemma recorded_mono: "recorded evs p \<Longrightarrow> prefix evs evs' \<Longrightarrow> recorded evs' p"
  using set_mono_prefix by (force simp: recorded_def)

context audit_logger
begin

lemma recordAudit_grows:
  assumes "dp_Audit (sv_deps s) = Some Record"
  shows "prefix (seen (ss_audit st)) (seen (ss_audit (fst (recordAudit s rc req res ms e st))))"
  using grows [of "ss_audit st"] by (auto simp: recordAudit_def assms case_prod_beta)

lemma recordAudit_recorded:
  assumes "dp_Audit (sv_deps s) = Some Record" and "recordAudit s rc req res ms None st = (st', None)"
  shows "recorded (seen (ss_audit st')) (resultToResponse req (rc_requestID rc) backend res ms)"
proof -
  have "Record (audit_event s rc req res ms None) (ss_audit st) = (ss_audit st', None)"
    using assms by (auto simp: recordAudit_def split: prod.splits)
  then obtain x where "same_event x (audit_event s rc req res ms None)" "seen (ss_audit st') = seen (ss_audit st) @ [x]"
    using stores by blast
  then show ?thesis
    by (auto simp: recorded_def same_event_def audit_event_def SummarizeCode_def resultToResponse_def)
qed

lemma task_step_log:
  assumes "task_step ops s q c st t = (st', t')" and "dp_Audit (sv_deps s) = Some Record"
  shows "prefix (seen (ss_audit st)) (seen (ss_audit st'))"
proof -
  obtain ctx rand r body where q: "q = (ctx, rand, r, body)" by (metis prod_cases4)
  show ?thesis
    using assms(1) recordAudit_grows [OF assms(2), of st]
    by (cases t) (auto simp: q arrive_def rate_check_def Let_def case_prod_beta
        split: option.splits if_splits select.splits)
qed

lemma task_step_recorded:
  assumes "task_step ops s q c st t = (st', t')" and "\<not> finished t" and "answer t' = Some (200, ExecuteBody p)"
    and "dp_Audit (sv_deps s) = Some Record" and "dp_AuditStrict (sv_deps s)"
    and "\<And>rc req e resp. t = TReject rc req e resp \<Longrightarrow> fst resp \<noteq> 200"
  shows "recorded (seen (ss_audit st')) p"
proof -
  obtain ctx rand r body where q: "q = (ctx, rand, r, body)" by (metis prod_cases4)
  show ?thesis
  proof (cases t)
    case (TAudit rc req res ms err)
    obtain auditErr where r: "recordAudit s rc req res ms err st = (st', auditErr)"
      and t': "t' = TDone (final_reply s rc req res ms err auditErr)"
      using assms(1) TAudit by (auto split: prod.splits)
    have "err = None" "auditErr = None" "p = resultToResponse req (rc_requestID rc) (rt_Name (dp_Runtime (sv_deps s))) res ms"
      using assms(3,5) t' by (auto simp: final_reply_def writeError_def split: option.splits if_splits prod.splits)
    then show ?thesis using recordAudit_recorded [OF assms(4)] r by simp
  qed (use assms in \<open>auto simp: q arrive_def rate_check_def mux_task_def begin_execute_def begin_run_def run_over_def
        recovered_def handleHealth_def crash_def writeError_def Let_def
        split: prod.splits option.splits if_splits select.splits req_body.splits call.splits sum.splits\<close>)
qed

end

text \<open>A refusal is never a success.\<close>

definition refusals_ok :: "task list \<Rightarrow> bool" where
  "refusals_ok ts = list_all (\<lambda>t. case t of TReject rc req e resp \<Rightarrow> fst resp \<noteq> 200 | _ \<Rightarrow> True) ts"

lemma task_step_refusal:
  assumes "task_step ops s q c st t = (st', TReject rc req e resp)"
  shows "fst resp \<noteq> 200"
proof -
  obtain ctx rand r body where q: "q = (ctx, rand, r, body)" by (metis prod_cases4)
  show ?thesis
    using assms
    by (cases t) (auto simp: q arrive_def rate_check_def mux_task_def begin_execute_def begin_run_def run_over_def writeError_def
        Let_def split: prod.splits option.splits if_splits select.splits req_body.splits call.splits sum.splits)
qed

lemma api_step_refusals: "api_step ops s qs (st, ts) (st', ts') \<Longrightarrow> refusals_ok ts \<Longrightarrow> refusals_ok ts'"
proof (erule api_stepE)
  fix i c st1 t
  assume "refusals_ok ts" "(st', ts') = (st1, ts[i := t])" "task_step ops s (qs ! i) c st (ts ! i) = (st1, t)"
  then show "refusals_ok ts'"
    using task_step_refusal [of ops s "qs ! i" c st "ts ! i" st1] set_update_subset_insert [of ts i t]
    by (fastforce simp: refusals_ok_def list_all_iff split: task.splits)
qed

context audit_logger
begin

lemma api_step_log:
  assumes "api_step ops s qs (st, ts) (st', ts')" and "log_inv seen (st, ts)" and "refusals_ok ts"
    and d: "dp_Audit (sv_deps s) = Some Record" "dp_AuditStrict (sv_deps s)"
  shows "log_inv seen (st', ts')"
  using assms(1)
proof cases
  case (api_stepI i c t)
  have pre: "prefix (seen (ss_audit st)) (seen (ss_audit st'))" using task_step_log [OF api_stepI(5) d(1)] .
  have "recorded (seen (ss_audit st')) p" if "j < length ts" "answer (ts[i := t] ! j) = Some (200, ExecuteBody p)" for j p
  proof (cases "j = i")
    case True
    have "\<And>rc req e resp. ts ! i = TReject rc req e resp \<Longrightarrow> fst resp \<noteq> 200"
      using assms(3) api_stepI(2) by (fastforce simp: refusals_ok_def list_all_length)
    then show ?thesis using task_step_recorded [OF api_stepI(5,3) _ d] that True by simp
  next
    case False
    then show ?thesis using assms(2) that recorded_mono [OF _ pre] by (auto simp: log_inv_def)
  qed
  then show ?thesis using api_stepI by (simp add: log_inv_def)
qed

lemma api_reach_log:
  assumes "(api_step ops s qs)\<^sup>*\<^sup>* (api_start qs st) y" and "dp_Audit (sv_deps s) = Some Record" "dp_AuditStrict (sv_deps s)"
  shows "log_inv seen y \<and> refusals_ok (snd y)"
  using assms(1)
proof (induction rule: rtranclp_induct)
  case base
  then show ?case by (auto simp: log_inv_def api_start_def refusals_ok_def list_all_iff)
next
  case (step y z)
  obtain a b c d where "y = (a, b)" "z = (c, d)" by fastforce
  then show ?case using step api_step_log [OF _ _ _ assms(2,3)] api_step_refusals by fastforce
qed

end

section \<open>Properties\<close>

text \<open>
  The goroutines do not stop each other in the steps of the handler: here a lock is granted at
  once and a call of the runtime, of the audit log or of the key set returns, each in one step. Then
  a goroutine that has not answered can always take a step of its own, and a run is over after at most eight
  steps for each request.
\<close>

lemma every_request_answered:
  assumes "(api_step ops s qs ^^ n) (api_start qs st) (st', ts)"
  shows "n \<le> 8 * length qs \<and> length ts = length qs
    \<and> (\<forall>i < length qs. answer (ts ! i) = None \<longrightarrow>
         (\<exists>st2 t. api_step ops s qs (st', ts) (st2, ts[i := t]) \<and> rank t < rank (ts ! i)))
    \<and> ((\<nexists>y. api_step ops s qs (st', ts) y) \<longrightarrow> (\<forall>i < length qs. answer (ts ! i) \<noteq> None))"
proof -
  have "n \<le> 8 * length qs" and l: "length ts = length qs"
    using api_steps_rank [OF assms [unfolded api_start_def]] by (auto simp: sum_list_triv o_def mult.commute)
  moreover have "\<exists>st2 t. api_step ops s qs (st', ts) (st2, ts[i := t]) \<and> rank t < rank (ts ! i)"
    if "i < length qs" "answer (ts ! i) = None" for i
    using api_step_enabled [of i ts] that l by (simp add: finished_answer)
  ultimately show ?thesis by (metis (no_types))
qed

definition sample_incoming :: incoming where
  "sample_incoming = (Background, None, key_request, Decoded (sample_request []))"

text \<open>The stub behind a gate with one slot, and two requests of which the first has been served.\<close>

lemma sample_schedule:
  "\<exists>n t. (api_step (stub_ops int_dec (\<lambda>_. [])) (sample_server []) [sample_incoming, sample_incoming] ^^ n)
      (api_start [sample_incoming, sample_incoming] sample_state)
      (fst (middleware (sample_server []) Background None key_request (Decoded (sample_request [])) sample_state), [t, TArrived])
    \<and> answer t = Some (snd (middleware (sample_server []) Background None key_request (Decoded (sample_request [])) sample_state))"
proof -
  have o: "dp_Runtime (sv_deps (sample_server [])) = gate_ops (stub_ops int_dec (\<lambda>_. [])) eager_select"
    by (simp add: sample_server_def sample_deps_def)
  have f: "fair_select eager_select" by (simp add: fair_select_def eager_select_def)
  show ?thesis
    using alone_schedule [OF alone_middleware [OF o f, of Background None key_request "Decoded (sample_request [])" sample_state],
        of 0 "[TArrived, TArrived]" "[sample_incoming, sample_incoming]"]
    by (auto simp: sample_incoming_def api_start_def rtranclp_is_Sup_relpowp)
qed

text \<open>
  The sequential server is one of the schedules of the concurrent one: a goroutine that runs
  alone from its arrival takes the shared state to what the middleware computes, and answers with its
  response, whichever case the gate's select takes.
\<close>

lemma sequential_server_is_a_schedule:
  assumes "dp_Runtime (sv_deps s) = gate_ops ops sel" and "fair_select sel"
    and "i < length ts" and "ts ! i = TArrived" and "qs ! i = (ctx, rand, r, body)"
  shows "\<exists>t. (api_step ops s qs)\<^sup>*\<^sup>* (st, ts) (fst (middleware s ctx rand r body st), ts[i := t])
    \<and> answer t = Some (snd (middleware s ctx rand r body st))"
  using alone_schedule [OF alone_middleware [OF assms(1,2)] assms(3,5,4)] .

text \<open>
  C13. With requests at the same time, a strict server answers 200 to an execution only if its log
  holds an event of that execution, for every log that keeps its contract.
\<close>

theorem concurrent_success_is_audited:
  assumes "audit_logger Record seen" and "dp_Audit (sv_deps s) = Some Record" and "dp_AuditStrict (sv_deps s)"
    and "(api_step ops s qs)\<^sup>*\<^sup>* (api_start qs st) (st', ts)" and "t \<in> set ts" and "answer t = Some (200, ExecuteBody p)"
  shows "\<exists>x \<in> set (seen (ss_audit st')). ev_RequestID x = xp_RequestID p \<and> ev_SessionID x = xp_SessionID p
     \<and> ev_Runtime x = xp_Runtime p \<and> ev_VMID x = xp_VMID p \<and> ev_ExitCode x = xp_ExitCode p
     \<and> ev_TimedOut x = xp_TimedOut p \<and> ev_DurationMS x = xp_DurationMS p \<and> ev_Error x = None"
proof -
  have "log_inv seen (st', ts)" using audit_logger.api_reach_log [OF assms(1,4,2,3)] by simp
  then have "recorded (seen (ss_audit st')) p" using assms(5,6) by (auto simp: log_inv_def in_set_conv_nth)
  then show ?thesis by (simp add: recorded_def)
qed

theorem concurrent_success_is_audited_witness:
  "\<exists>st ts p. (api_step (stub_ops int_dec (\<lambda>_. [])) (sample_server []) [sample_incoming, sample_incoming])\<^sup>*\<^sup>*
      (api_start [sample_incoming, sample_incoming] sample_state) (st, ts)
    \<and> answer (ts ! 0) = Some (200, ExecuteBody p) \<and> xp_VMID p = ''stub-1''
    \<and> (\<exists>x \<in> set (ss_audit st). ev_VMID x = ''stub-1'' \<and> ev_Error x = None)"
proof -
  obtain n t where s: "(api_step (stub_ops int_dec (\<lambda>_. [])) (sample_server []) [sample_incoming, sample_incoming] ^^ n)
      (api_start [sample_incoming, sample_incoming] sample_state)
      (fst (middleware (sample_server []) Background None key_request (Decoded (sample_request [])) sample_state), [t, TArrived])"
    and t: "answer t = Some (snd (middleware (sample_server []) Background None key_request (Decoded (sample_request [])) sample_state))"
    using sample_schedule by blast
  note r = relpowp_imp_rtranclp [OF s]
  obtain p where p: "answer t = Some (200, ExecuteBody p)" "xp_VMID p = ''stub-1''" using t sample_success by auto
  have d: "dp_Audit (sv_deps (sample_server [])) = Some MemoryLogger_Record" "dp_AuditStrict (sv_deps (sample_server []))"
    by (simp_all add: sample_server_def sample_deps_def)
  have "\<exists>x \<in> set (ss_audit (fst (middleware (sample_server []) Background None key_request (Decoded (sample_request [])) sample_state))).
      ev_VMID x = ''stub-1'' \<and> ev_Error x = None"
    using concurrent_success_is_audited [OF memory.audit_logger_axioms d r _ p(1)] p(2) by (force simp: MemoryLogger_Events_def)
  with r p show ?thesis by (intro exI conjI) auto
qed

end
