(* ===== verification/Warden_Life.thy ===== *)
theory Warden_Life
  imports Warden_Main Api_Concurrent
begin

text \<open>
  The life of the process: \<open>ListenAndServe\<close> and \<open>Shutdown\<close> of \<open>internal/api/server.go\<close> and the end of
  \<open>run\<close> and \<open>main\<close> in \<open>cmd/warden/main.go\<close>. While the process serves, goroutines handle requests;
  a signal closes the listener and gives those that have begun ten seconds; then the process
  exits, and with it every goroutine that is left. Of \<open>net/http\<close> the model uses what its
  documentation says of \<open>Serve\<close> and \<open>Shutdown\<close>. While draining, the phase holds the time that is left;
  time may pass between any two steps of the goroutines.
\<close>

section \<open>The listener\<close>

record http_config =
  hc_Addr :: string
  hc_ReadTimeout :: int
  hc_WriteTimeout :: int
  hc_IdleTimeout :: int
  hc_ShutdownTimeout :: int

definition api_DefaultConfig :: "string \<Rightarrow> http_config" where
  "api_DefaultConfig addr = \<lparr>hc_Addr = addr, hc_ReadTimeout = 15 * 10 ^ 9, hc_WriteTimeout = (MaxTimeoutS + 15) * 10 ^ 9,
     hc_IdleTimeout = 60 * 10 ^ 9, hc_ShutdownTimeout = 10 * 10 ^ 9\<rparr>"

text \<open>The \<open>http.Server\<close> that \<open>NewServer\<close> makes, without its handler, which is \<open>middleware\<close>.\<close>

record http_server =
  hs_Addr :: string
  hs_TLSConfig :: "tls_config option"
  hs_ReadHeaderTimeout :: int
  hs_ReadTimeout :: int
  hs_WriteTimeout :: int
  hs_IdleTimeout :: int

definition new_http_server :: "http_config \<Rightarrow> tls_config option \<Rightarrow> http_server" where
  "new_http_server c tls = \<lparr>hs_Addr = hc_Addr c, hs_TLSConfig = tls, hs_ReadHeaderTimeout = 5 * 10 ^ 9,
     hs_ReadTimeout = hc_ReadTimeout c, hs_WriteTimeout = hc_WriteTimeout c, hs_IdleTimeout = hc_IdleTimeout c\<rparr>"

text \<open>
  Every timeout of the server is set, and the time for writing a response, which runs from the end of
  the request's header, is as long as the longest job and fifteen seconds more: a job of that length
  that has waited for a slot and a boot for more than these seconds is answered too late.
\<close>

lemma server_timeouts:
  "0 < hs_ReadHeaderTimeout (new_http_server (api_DefaultConfig addr) tls)" "0 < hs_ReadTimeout (new_http_server (api_DefaultConfig addr) tls)"
  "0 < hs_IdleTimeout (new_http_server (api_DefaultConfig addr) tls)"
  "15 * 10 ^ 9 < wait + boot \<Longrightarrow> hs_WriteTimeout (new_http_server (api_DefaultConfig addr) tls) < wait + boot + MaxTimeoutS * 10 ^ 9"
  by (simp_all add: new_http_server_def api_DefaultConfig_def algebra_simps)

datatype http_listener = TLSListener string tls_config | PlainListener string

abbreviation ErrServerClosed :: gerr where
  "ErrServerClosed \<equiv> Sentinel ''http.ErrServerClosed''"

text \<open>
  \<open>net_listen\<close> binds an address; \<open>serve\<close> is what the accept loop returns in the end, which is never
  nil. The result is what was listened on, and the error.
\<close>

definition ListenAndServe :: "(string \<Rightarrow> gerr option) \<Rightarrow> gerr \<Rightarrow> string \<Rightarrow> tls_config option \<Rightarrow> http_listener option \<times> gerr" where
  "ListenAndServe net_listen serve addr tls = (case tls of
       Some c \<Rightarrow> (case net_listen addr of
           Some e \<Rightarrow> (None, e)
         | None \<Rightarrow> (Some (TLSListener addr c), serve))
     | None \<Rightarrow> (case net_listen addr of
           Some e \<Rightarrow> (None, e)
         | None \<Rightarrow> (Some (PlainListener addr), serve)))"

text \<open>What the serving goroutine sends on \<open>errCh\<close>.\<close>

definition serve_report :: "gerr \<Rightarrow> gerr option" where
  "serve_report e = (if errors_is e ''http.ErrServerClosed'' then None else Some e)"

section \<open>The process\<close>

datatype phase = Serving | Draining int | Exited "gerr option"

text \<open>\<open>main\<close>: the exit code for what \<open>run\<close> returned.\<close>

definition main_exit :: "gerr option \<Rightarrow> int" where
  "main_exit r = (case r of None \<Rightarrow> 0 | Some _ \<Rightarrow> 1)"

text \<open>A request that the server still works on.\<close>

definition in_flight :: "task \<Rightarrow> bool" where
  "in_flight t = (t \<noteq> TArrived \<and> \<not> finished t)"

text \<open>
  The steps of the process: a goroutine goes on; the accept loop fails and \<open>run\<close> returns its error;
  a signal arrives; while draining only goroutines that have begun go on; \<open>Shutdown\<close> returns nil
  when none of them is in flight, or the error of its context when no time is left.
\<close>

inductive proc_step :: "('r, 'i) runtime_ops \<Rightarrow> (('r, 'i) gate, nat, 'a) server \<Rightarrow> incoming list \<Rightarrow>
    (('r, 'i, 'a) api_sys \<times> phase) \<Rightarrow> (('r, 'i, 'a) api_sys \<times> phase) \<Rightarrow> bool" for ops s qs where
  serve: "api_step ops s qs y y' \<Longrightarrow> proc_step ops s qs (y, Serving) (y', Serving)"
| accept_fails: "serve_report e = Some e' \<Longrightarrow> proc_step ops s qs (y, Serving) (y, Exited (Some e'))"
| signal: "proc_step ops s qs (y, Serving) (y, Draining (10 * 10 ^ 9))"
| passes: "0 < d \<Longrightarrow> d \<le> left \<Longrightarrow> proc_step ops s qs (y, Draining left) (y, Draining (left - d))"
| drain: "api_step ops s qs (st, ts) (st', ts[i := t]) \<Longrightarrow> i < length ts \<Longrightarrow> in_flight (ts ! i) \<Longrightarrow>
    proc_step ops s qs ((st, ts), Draining left) ((st', ts[i := t]), Draining left)"
| drained: "\<not> list_ex in_flight ts \<Longrightarrow> proc_step ops s qs ((st, ts), Draining left) ((st, ts), Exited None)"
| expired: "proc_step ops s qs (y, Draining 0) (y, Exited (Some DeadlineExceeded))"

inductive_cases proc_stepE: "proc_step ops s qs p p'"

lemma proc_api: "(proc_step ops s qs)\<^sup>*\<^sup>* p p' \<Longrightarrow> (api_step ops s qs)\<^sup>*\<^sup>* (fst p) (fst p')"
proof (induction rule: rtranclp_induct)
  case (step p p')
  have "(api_step ops s qs)\<^sup>*\<^sup>* (fst p) (fst p')" using step(2) by (cases rule: proc_step.cases) auto
  with step.IH show ?case by auto
qed simp

text \<open>An exit with code 0 happens only when nothing is in flight, and nothing happens after it.\<close>

lemma proc_exit_clean:
  assumes "(proc_step ops s qs)\<^sup>*\<^sup>* (y0, Serving) p"
  shows "snd p = Exited None \<Longrightarrow> \<not> list_ex in_flight (snd (fst p))"
  using assms
proof (induction rule: rtranclp_induct)
  case (step p p')
  then show ?case by (auto elim: proc_stepE)
qed simp

section \<open>The backend under concurrent requests\<close>

lemma card_live_pids: "finite (live_pids (fs_vms s)) \<and> card (live_pids (fs_vms s)) \<le> card (fc_live s)"
proof -
  have f: "finite (fc_live s)" by (simp add: fc_live_def)
  have "live_pids (fs_vms s) \<subseteq> (\<lambda>i. the (vi_pid (fs_vms s ! i))) ` fc_live s"
    by (force simp: live_pids_def fc_live_def in_set_conv_nth)
  with f show ?thesis by (meson card_image_le card_mono finite_imageI finite_subset le_trans)
qed

lemma card_live_taps: "finite (live_taps (fs_vms s)) \<and> card (live_taps (fs_vms s)) \<le> card (fc_live s)"
proof -
  have f: "finite (fc_live s)" by (simp add: fc_live_def)
  have "live_taps (fs_vms s) \<subseteq> (\<lambda>i. the (vi_tap (fs_vms s ! i))) ` fc_live s"
    by (force simp: live_taps_def fc_live_def in_set_conv_nth)
  with f show ?thesis by (meson card_image_le card_mono finite_imageI finite_subset le_trans)
qed

text \<open>What the program builds satisfies the contract of a gated runtime and starts empty.\<close>

lemma start_gated:
  assumes "start_firecracker E u t desc sc p w = (c, deps, s0)" and "h_trace w = []"
  shows "gated_runtime (fc_ops E c deps) (fc_inv deps) fc_known fc_live eager_select"
    and "sys_inv (fc_inv deps) fc_known fc_live (api_start qs (initial_state su s0 a))"
proof -
  note n = assms(1) [unfolded start_firecracker_def]
  obtain st' pool' where d: "deps = wire E u (Some (t\<lparr>tap_Sudo := pl_tapSudo p\<rparr>))
      (Some (\<lparr>cg_Require = pl_cgroupRequired p, cg_Root = [], cg_Self = []\<rparr>, desc)) st' pool'"
    using New_wired(1) [OF n] by blast
  show g: "gated_runtime (fc_ops E c deps) (fc_inv deps) fc_known fc_live eager_select"
    unfolding d by (rule wired_gate.gated_runtime_axioms)
  have i0: "fc_inv deps s0" and l0: "fc_live s0 = {}"
    using New_inv [OF n assms(2)] New_wired(3) [OF n] by (simp_all add: fc_live_def)
  show "sys_inv (fc_inv deps) fc_known fc_live (api_start qs (initial_state su s0 a))"
    by (rule gated_runtime.sys_inv_start [OF g])
      (use gated_runtime.gate_inv_New [OF g i0 l0] in \<open>auto simp: initial_state_def NewGate_def gate_live_def\<close>)
qed

text \<open>What is up belongs to a goroutine that holds a lease.\<close>

lemma sys_held:
  assumes "sys_inv (fc_inv deps) fc_known fc_live (st, ts)"
  shows "finite (held_vmms (h_trace (fs_host (ga_inner (ss_rt st))))) \<and> finite (held_links (h_trace (fs_host (ga_inner (ss_rt st)))))"
    and "card (held_vmms (h_trace (fs_host (ga_inner (ss_rt st))))) \<le> card (lessees ts)"
    and "card (held_links (h_trace (fs_host (ga_inner (ss_rt st))))) \<le> card (lessees ts)"
proof -
  let ?s = "ga_inner (ss_rt st)"
  have inv: "fc_inv deps ?s" and live: "fc_live ?s = set (open_leases (ss_rt st))"
    using assms by (auto simp: sys_inv_def gate_inv_def)
  have sub: "held_vmms (h_trace (fs_host ?s)) \<subseteq> live_pids (fs_vms ?s)" "held_links (h_trace (fs_host ?s)) \<subseteq> live_taps (fs_vms ?s)"
    using inv by (simp_all add: fc_inv_def)
  note p = card_live_pids [of ?s] and t = card_live_taps [of ?s]
  show "finite (held_vmms (h_trace (fs_host ?s))) \<and> finite (held_links (h_trace (fs_host ?s)))"
    using finite_subset [OF sub(1)] finite_subset [OF sub(2)] p t by simp
  have "card (gate_live (ss_rt st)) \<le> card (lessees ts)" using assms by (rule card_gate_live)
  moreover have "card (fc_live ?s) \<le> card (gate_live (ss_rt st))"
    unfolding live open_leases_card [symmetric] by (rule card_length)
  ultimately have "card (fc_live ?s) \<le> card (lessees ts)" by simp
  then show "card (held_vmms (h_trace (fs_host ?s))) \<le> card (lessees ts)"
    "card (held_links (h_trace (fs_host ?s))) \<le> card (lessees ts)"
    using p t card_mono [OF _ sub(1)] card_mono [OF _ sub(2)] by linarith+
qed

lemma no_lease: "\<not> in_flight t \<Longrightarrow> lease_of t = None"
  by (cases t) (auto simp: in_flight_def)

lemma up_held:
  assumes "sys_inv (fc_inv deps) fc_known fc_live (st, ts)" and "tr = h_trace (fs_host (ga_inner (ss_rt st)))"
  shows "card (running tr - unkilled tr) \<le> card (lessees ts)" "card (taps_up tr - stuck_links tr) \<le> card (lessees ts)"
proof -
  note h = sys_held [OF assms(1), folded assms(2)]
  have "running tr - unkilled tr \<subseteq> held_vmms tr" "taps_up tr - stuck_links tr \<subseteq> held_links tr" using running_held taps_up_held by blast+
  then have "card (running tr - unkilled tr) \<le> card (held_vmms tr)" "card (taps_up tr - stuck_links tr) \<le> card (held_links tr)"
    using h(1) by (auto intro: card_mono)
  with h(2,3) show "card (running tr - unkilled tr) \<le> card (lessees ts)" "card (taps_up tr - stuck_links tr) \<le> card (lessees ts)" by simp_all
qed

lemma up_none:
  assumes "sys_inv (fc_inv deps) fc_known fc_live (st, ts)" and "lessees ts = {}" and "tr = h_trace (fs_host (ga_inner (ss_rt st)))"
  shows "running tr \<subseteq> unkilled tr \<and> taps_up tr \<subseteq> stuck_links tr"
  using sys_held [OF assms(1), folded assms(3)] assms(2) running_held [of tr] taps_up_held [of tr] by auto

section \<open>Properties\<close>

text \<open>
  C1. The whole program with the Firecracker backend and requests at the same time, a call of the
  backend being one step: in every reachable state at most as many VMMs run, beside those whose kill
  failed, and at most as many TAP links are up, beside those whose \<open>Teardown\<close> failed, as requests hold a
  slot of the gate (from before their boot until after their teardown), which are never more than the
  configured number; and when every request is answered, no VMM runs and no link is up but these.
\<close>

theorem concurrent_requests_leave_no_vmm:
  assumes "start_firecracker E u t desc sc p w = (c, deps, s0)" and "h_trace w = []"
    and "(api_step (fc_ops E c deps) (NewServer su (gate_ops (fc_ops E c deps) eager_select) log J u) qs)\<^sup>*\<^sup>*
           (api_start qs (initial_state su s0 a)) (st, ts)"
    and "tr = h_trace (fs_host (ga_inner (ss_rt st)))"
  shows "card (running tr - unkilled tr) \<le> card (holding ts) \<and> card (taps_up tr - stuck_links tr) \<le> card (holding ts)
    \<and> int (card (holding ts)) \<le> max 1 (su_maxVMs su)
    \<and> (list_all finished ts \<longrightarrow> running tr \<subseteq> unkilled tr \<and> taps_up tr \<subseteq> stuck_links tr)"
proof -
  note g = start_gated [OF assms(1,2)]
  have inv: "sys_inv (fc_inv deps) fc_known fc_live (st, ts)" using gated_runtime.api_reach_inv [OF g(1) assms(3) g(2)] .
  have "ga_Max (ss_rt st) = max 1 (su_maxVMs su)"
    using api_reach_Max [OF assms(3)] by (simp add: api_start_def initial_state_def NewGate_def max_def)
  moreover have "lessees ts = {}" if "list_all finished ts"
    by (rule lessees_empty) (use that no_lease in \<open>auto simp: list_all_iff in_flight_def\<close>)
  moreover have "card (lessees ts) \<le> card (holding ts)" by (rule card_mono [OF _ lessees_holding]) simp
  moreover have "int (card (holding ts)) \<le> ga_Max (ss_rt st)" using inv by (auto simp: sys_inv_def gate_inv_def)
  ultimately show ?thesis using up_held [OF inv assms(4)] up_none [OF inv _ assms(4)] by simp
qed

text \<open>
  C2. What is left when the process ends: after an exit with code 0 every request that was taken up
  has been answered, no VMM runs but those whose kill failed, and no TAP link is up but those whose
  \<open>Teardown\<close> failed; whatever the exit code, there are beside these at most as many VMMs and links left
  as requests that were still in flight.
\<close>

theorem clean_exit_leaves_no_vmm:
  assumes "start_firecracker E u t desc sc p w = (c, deps, s0)" and "h_trace w = []"
    and "(proc_step (fc_ops E c deps) (NewServer su (gate_ops (fc_ops E c deps) eager_select) log J u) qs)\<^sup>*\<^sup>*
           (api_start qs (initial_state su s0 a), Serving) ((st, ts), Exited r)"
    and "tr = h_trace (fs_host (ga_inner (ss_rt st)))"
  shows "(main_exit r = 0 \<longrightarrow> list_all (\<lambda>t. t = TArrived \<or> answer t \<noteq> None) ts \<and> running tr \<subseteq> unkilled tr \<and> taps_up tr \<subseteq> stuck_links tr)
    \<and> card (running tr - unkilled tr) \<le> card {i. i < length ts \<and> in_flight (ts ! i)}
    \<and> card (taps_up tr - stuck_links tr) \<le> card {i. i < length ts \<and> in_flight (ts ! i)}"
proof -
  note g = start_gated [OF assms(1,2)]
  have inv: "sys_inv (fc_inv deps) fc_known fc_live (st, ts)"
    using gated_runtime.api_reach_inv [OF g(1) _ g(2)] proc_api [OF assms(3)] by simp
  have "lessees ts \<subseteq> {i. i < length ts \<and> in_flight (ts ! i)}" 
    by (auto simp: lessees_def) (metis no_lease option.distinct(1))
  then have "card (lessees ts) \<le> card {i. i < length ts \<and> in_flight (ts ! i)}" by (rule card_mono [rotated]) simp
  moreover have "list_all (\<lambda>t. t = TArrived \<or> answer t \<noteq> None) ts \<and> lessees ts = {}" if "main_exit r = 0"
  proof -
    have "r = None" using that by (simp add: main_exit_def split: option.splits)
    then have n: "\<not> list_ex in_flight ts" using proc_exit_clean [OF assms(3)] by simp
    then have "list_all (\<lambda>t. t = TArrived \<or> answer t \<noteq> None) ts"
      by (auto simp: list_all_iff list_ex_iff in_flight_def finished_answer)
    moreover have "lessees ts = {}" by (rule lessees_empty) (use n no_lease in \<open>auto simp: list_all_iff list_ex_iff\<close>)
    ultimately show ?thesis by blast
  qed
  ultimately show ?thesis using up_held [OF inv assms(4)] up_none [OF inv _ assms(4)] by simp
qed

section \<open>Examples\<close>

text \<open>A run of the whole program that serves one request to its end.\<close>

definition demo_codec :: snap_codec where
  "demo_codec = \<lparr>sc_marshal = \<lambda>_. Inr [], sc_unmarshal = \<lambda>_. Inr zero_record\<rparr>"

definition demo_startup :: startup where
  "demo_startup = \<lparr>su_listen = ''127.0.0.1:8080'', su_limits = DefaultProfile, su_seccomp = sp_Seccomp sample_spec, su_network = Default,
     su_firecracker = Some demo_plan, su_maxVMs = 0, su_queueWait = 0, su_tls = None,
     su_auth = \<lparr>ac_APIKey = [], ac_MTLS = False, ac_MTLSSuffices = False, ac_RequireAll = False\<rparr>, su_jwt = None, su_rate = None,
     su_sinks = [], su_strict = False\<rparr>"

lemma demo_served:
  "\<exists>c deps s0 st t. start_firecracker (demo_env 204) ascii_tables demo_tap (\<lambda>_. []) demo_codec demo_plan demo_host = (c, deps, s0)
     \<and> (api_step (fc_ops (demo_env 204) c deps)
          (NewServer demo_startup (gate_ops (fc_ops (demo_env 204) c deps) eager_select) MemoryLogger_Record sample_env ascii_tables) [sample_incoming])\<^sup>*\<^sup>*
        (api_start [sample_incoming] (initial_state demo_startup s0 [])) (st, [t]) \<and> finished t"
proof -
  obtain c deps s0 where b: "start_firecracker (demo_env 204) ascii_tables demo_tap (\<lambda>_. []) demo_codec demo_plan demo_host = (c, deps, s0)"
    by (metis prod_cases3)
  have o: "dp_Runtime (sv_deps (NewServer demo_startup (gate_ops (fc_ops (demo_env 204) c deps) eager_select) MemoryLogger_Record sample_env ascii_tables))
      = gate_ops (fc_ops (demo_env 204) c deps) eager_select" by (simp add: NewServer_def)
  have f: "fair_select eager_select" by (simp add: fair_select_def eager_select_def)
  from alone_schedule [OF alone_middleware [OF o f, of Background None key_request "Decoded (sample_request [])" "initial_state demo_startup s0 []"],
      of 0 "[TArrived]" "[sample_incoming]"]
  obtain st t where "(api_step (fc_ops (demo_env 204) c deps)
      (NewServer demo_startup (gate_ops (fc_ops (demo_env 204) c deps) eager_select) MemoryLogger_Record sample_env ascii_tables) [sample_incoming])\<^sup>*\<^sup>*
      (initial_state demo_startup s0 [], [TArrived]) (st, [t])" "answer t \<noteq> None"
    by (auto simp: sample_incoming_def)
  with b show ?thesis by (intro exI [of _ c] exI [of _ deps] exI [of _ s0] exI [of _ st] exI [of _ t]) (simp add: api_start_def finished_answer)
qed

lemma serve_then:
  assumes "(api_step ops s qs)\<^sup>*\<^sup>* y y'" and "proc_step ops s qs (y', Serving) p" and "proc_step ops s qs p p'"
  shows "(proc_step ops s qs)\<^sup>*\<^sup>* (y, Serving) p'"
proof -
  have "(proc_step ops s qs)\<^sup>*\<^sup>* (y, Serving) (y', Serving)"
    using assms(1) by (induction rule: rtranclp_induct) (auto intro: serve rtranclp.rtrancl_into_rtrancl)
  with assms(2,3) show ?thesis by (meson rtranclp.rtrancl_into_rtrancl)
qed

theorem concurrent_requests_leave_no_vmm_witness:
  "\<exists>c deps s0 st t. start_firecracker (demo_env 204) ascii_tables demo_tap (\<lambda>_. []) demo_codec demo_plan demo_host = (c, deps, s0)
     \<and> (api_step (fc_ops (demo_env 204) c deps)
          (NewServer demo_startup (gate_ops (fc_ops (demo_env 204) c deps) eager_select) MemoryLogger_Record sample_env ascii_tables) [sample_incoming])\<^sup>*\<^sup>*
        (api_start [sample_incoming] (initial_state demo_startup s0 [])) (st, [t])
     \<and> running (h_trace (fs_host (ga_inner (ss_rt st)))) \<subseteq> unkilled (h_trace (fs_host (ga_inner (ss_rt st))))"
proof -
  obtain c deps s0 st t where b: "start_firecracker (demo_env 204) ascii_tables demo_tap (\<lambda>_. []) demo_codec demo_plan demo_host = (c, deps, s0)"
    and r: "(api_step (fc_ops (demo_env 204) c deps)
          (NewServer demo_startup (gate_ops (fc_ops (demo_env 204) c deps) eager_select) MemoryLogger_Record sample_env ascii_tables) [sample_incoming])\<^sup>*\<^sup>*
        (api_start [sample_incoming] (initial_state demo_startup s0 [])) (st, [t])" and t: "finished t"
    using demo_served by blast
  have "h_trace demo_host = []" by (simp add: demo_host_def)
  from concurrent_requests_leave_no_vmm [OF b this r refl] t
  have "running (h_trace (fs_host (ga_inner (ss_rt st)))) \<subseteq> unkilled (h_trace (fs_host (ga_inner (ss_rt st))))" by simp
  with b r show ?thesis by blast
qed

theorem clean_exit_leaves_no_vmm_witness:
  "\<exists>c deps s0 st t. start_firecracker (demo_env 204) ascii_tables demo_tap (\<lambda>_. []) demo_codec demo_plan demo_host = (c, deps, s0)
     \<and> (proc_step (fc_ops (demo_env 204) c deps)
          (NewServer demo_startup (gate_ops (fc_ops (demo_env 204) c deps) eager_select) MemoryLogger_Record sample_env ascii_tables) [sample_incoming])\<^sup>*\<^sup>*
        (api_start [sample_incoming] (initial_state demo_startup s0 []), Serving) ((st, [t]), Exited None)
     \<and> running (h_trace (fs_host (ga_inner (ss_rt st)))) \<subseteq> unkilled (h_trace (fs_host (ga_inner (ss_rt st))))"
proof -
  obtain c deps s0 st t where b: "start_firecracker (demo_env 204) ascii_tables demo_tap (\<lambda>_. []) demo_codec demo_plan demo_host = (c, deps, s0)"
    and r: "(api_step (fc_ops (demo_env 204) c deps)
          (NewServer demo_startup (gate_ops (fc_ops (demo_env 204) c deps) eager_select) MemoryLogger_Record sample_env ascii_tables) [sample_incoming])\<^sup>*\<^sup>*
        (api_start [sample_incoming] (initial_state demo_startup s0 [])) (st, [t])" and t: "finished t"
    using demo_served by blast
  have "\<not> list_ex in_flight [t]" using t by (simp add: in_flight_def)
  note r' = serve_then [OF r signal drained [OF this]]
  have "h_trace demo_host = []" by (simp add: demo_host_def)
  from clean_exit_leaves_no_vmm [OF b this r' refl]
  have "running (h_trace (fs_host (ga_inner (ss_rt st)))) \<subseteq> unkilled (h_trace (fs_host (ga_inner (ss_rt st))))" by (simp add: main_exit_def)
  with b r' show ?thesis by blast
qed

end
