(* ===== verification/Api_Wire.thy ===== *)
theory Api_Wire
  imports Api_Server_Facts Guest_Proto
begin

text \<open>
  The bytes of the HTTP API: how \<open>handleExecute\<close> reads the request body through
  \<open>http.MaxBytesReader\<close> and a \<open>json.Decoder\<close> that refuses unknown members (\<open>execute.go\<close>), and how
  \<open>writeJSON\<close> writes a response (\<open>server.go\<close>), with the JSON of theory \<open>Go_Json\<close>. A body arrives as a
  whole. Whether the scanner of \<open>encoding/json\<close> wants more input at the end of a body that is cut off at
  the limit, instead of having met an error before, is the parameter \<open>wants\<close>. The text of an error
  is the parameter \<open>text_of\<close>.
\<close>

section \<open>Reading a request\<close>

definition execute_setters :: "execute_request setters" where
  "execute_setters =
     [(''code'', into_string (\<lambda>v q. q\<lparr>er_Code := v\<rparr>)),
      (''runtime'', into_string (\<lambda>v q. q\<lparr>er_Runtime := v\<rparr>)),
      (''timeout'', into_int (\<lambda>v q. q\<lparr>er_Timeout := v\<rparr>)),
      (''session_id'', into_string (\<lambda>v q. q\<lparr>er_SessionID := v\<rparr>))]"

text \<open>
  \<open>Decode\<close> with \<open>DisallowUnknownFields\<close>: an unknown member or one of the wrong type is an error, but the
  other members are stored all the same; the first error is the one reported.
\<close>

definition unknown_field :: "string \<Rightarrow> gerr" where
  "unknown_field k = Errorf ''json: unknown field %q'' [k]"

definition unmarshal_type_error :: "string \<Rightarrow> gerr" where
  "unmarshal_type_error k = Errorf ''json: cannot unmarshal into Go struct field %s'' [k]"

definition first_error :: "gerr option \<Rightarrow> gerr \<Rightarrow> gerr option" where
  "first_error e e' = (case e of None \<Rightarrow> Some e' | Some _ \<Rightarrow> e)"

fun fill_members :: "'b setters \<Rightarrow> (string \<times> json) list \<Rightarrow> 'b \<times> gerr option \<Rightarrow> 'b \<times> gerr option" where
  "fill_members fs [] x = x"
| "fill_members fs ((k, j) # ms) (x, e) = fill_members fs ms (case find_setter fs k of
       None \<Rightarrow> (x, first_error e (unknown_field k))
     | Some f \<Rightarrow> (case f j x of
         None \<Rightarrow> (x, first_error e (unmarshal_type_error k))
       | Some y \<Rightarrow> (y, e)))"

definition fill_struct :: "'b setters \<Rightarrow> 'b \<Rightarrow> json \<Rightarrow> 'b \<times> gerr option" where
  "fill_struct fs x j = (case j of
       JObj ms \<Rightarrow> fill_members fs ms (x, None)
     | JNull \<Rightarrow> (x, None)
     | _ \<Rightarrow> (x, Some (unmarshal_type_error [])))"

fun composite :: "json \<Rightarrow> bool" where
  "composite (JObj _) = True"
| "composite (JArr _) = True"
| "composite _ = False"

text \<open>
  The two calls of \<open>Decode\<close> on a body of which at most \<open>MaxRequestBytes\<close> are delivered: an object is
  over at its brace, another value only at the next byte or at the end of the body. The second
  call finds the end of the body only behind blanks, and only if nothing was cut off.
\<close>

definition decode_body :: "(string \<Rightarrow> bool) \<Rightarrow> string \<Rightarrow> req_body" where
  "decode_body wants body =
     (let p = take MaxRequestBytes body; over = (MaxRequestBytes < length body) in
      case json_decode p of
        None \<Rightarrow> if over \<and> wants p then TooLarge else Malformed (Errorf ''json: invalid input'' []) zero_request
      | Some (j, rest) \<Rightarrow>
          if over \<and> rest = [] \<and> \<not> composite j then TooLarge
          else (case fill_struct execute_setters zero_request j of
              (req, Some e) \<Rightarrow> Malformed e req
            | (req, None) \<Rightarrow> if over \<or> \<not> list_all json_space rest then Trailing req else Decoded req))"

section \<open>Writing a response\<close>

fun code_text :: "api_code \<Rightarrow> string" where
  "code_text CodeInvalidJSON = ''invalid_json''"
| "code_text CodeInvalidRequest = ''invalid_request''"
| "code_text CodeUnsupported = ''unsupported_runtime''"
| "code_text CodeBodyTooLarge = ''body_too_large''"
| "code_text CodeMethodNotAllow = ''method_not_allowed''"
| "code_text CodeInternal = ''internal_error''"
| "code_text CodeUnavailable = ''backend_unavailable''"
| "code_text CodeUnauthorized = ''unauthorized''"
| "code_text CodeBusy = ''busy''"
| "code_text CodeRateLimited = ''rate_limited''"
| "code_text CodeAuditFailed = ''audit_failed''"

fun message_text :: "(gerr \<Rightarrow> string) \<Rightarrow> message \<Rightarrow> string" where
  "message_text text_of (Lit s) = s"
| "message_text text_of (TextOf e) = text_of e"

definition omit_string :: "string \<Rightarrow> string \<Rightarrow> (string \<times> string) list" where
  "omit_string k v = (if v = [] then [] else [(k, json_quote v)])"

definition execute_members :: "execute_response \<Rightarrow> (string \<times> string) list" where
  "execute_members p =
     [(''stdout'', json_quote (xp_Stdout p)), (''stderr'', json_quote (xp_Stderr p)), (''exit_code'', int_dec (xp_ExitCode p)),
      (''vm_id'', json_quote (xp_VMID p)), (''runtime'', json_quote (xp_Runtime p)), (''request_id'', json_quote (xp_RequestID p))]
     @ omit_string ''session_id'' (xp_SessionID p)
     @ [(''duration_ms'', int_dec (xp_DurationMS p)), (''timed_out'', json_bool (xp_TimedOut p)), (''backend'', json_quote (xp_Backend p))]"

definition body_members :: "(gerr \<Rightarrow> string) \<Rightarrow> resp_body \<Rightarrow> (string \<times> string) list" where
  "body_members text_of b = (case b of
       ErrorBody msg code rid \<Rightarrow>
         [(''error'', json_quote (message_text text_of msg)), (''code'', json_quote (code_text code))] @ omit_string ''request_id'' rid
     | ExecuteBody p \<Rightarrow> execute_members p
     | HealthBody status backend ready \<Rightarrow>
         [(''status'', json_quote status), (''backend'', json_quote backend), (''ready'', json_bool ready)]
     | MuxNotFound \<Rightarrow> [])"

text \<open>
  What is sent: the status, the headers and the body. The middleware has set the request id and
  \<open>nosniff\<close>; \<open>http.NotFound\<close> of the mux writes plain text.
\<close>

definition not_found_text :: string where
  "not_found_text = ''404 page not found'' @ [CHR 0x0A]"

definition writeJSON :: "string \<Rightarrow> int \<Rightarrow> (string \<times> string) list \<Rightarrow> int \<times> (string \<times> string) list \<times> string" where
  "writeJSON rid status ms =
     (status, [(''X-Request-Id'', rid), (''X-Content-Type-Options'', ''nosniff''), (''Content-Type'', ''application/json'')],
      json_object ms @ [CHR 0x0A])"

definition send_response :: "(gerr \<Rightarrow> string) \<Rightarrow> string \<Rightarrow> response \<Rightarrow> int \<times> (string \<times> string) list \<times> string" where
  "send_response text_of rid resp = (case resp of (status, b) \<Rightarrow>
     if b = MuxNotFound then
       (status, [(''X-Request-Id'', rid), (''X-Content-Type-Options'', ''nosniff''), (''Content-Type'', ''text/plain; charset=utf-8'')], not_found_text)
     else writeJSON rid status (body_members text_of b))"

text \<open>A request in bytes and its answer in bytes.\<close>

definition http_exchange :: "('r, 'i, 'a) server \<Rightarrow> (string \<Rightarrow> bool) \<Rightarrow> (gerr \<Rightarrow> string) \<Rightarrow> context_t \<Rightarrow> string option \<Rightarrow> http_request \<Rightarrow> string \<Rightarrow>
    ('r, 'a) srv_state \<Rightarrow> ('r, 'a) srv_state \<times> int \<times> (string \<times> string) list \<times> string" where
  "http_exchange s wants text_of ctx rand r bytes st =
     (let hid = hr_Header r HeaderRequestID; rid = (if hid = [] then newRequestID rand else hid) in
      case middleware s ctx rand r (decode_body wants bytes) st of (st', resp) \<Rightarrow> (st', send_response text_of rid resp))"

section \<open>What a client writes is what is read\<close>

text \<open>A client that encodes the request as \<open>encoding/json\<close> would, with or without a session.\<close>

definition client_members :: "execute_request \<Rightarrow> (string \<times> string) list" where
  "client_members q = [(''code'', json_quote (er_Code q)), (''runtime'', json_quote (er_Runtime q)), (''timeout'', int_dec (er_Timeout q))]
     @ omit_string ''session_id'' (er_SessionID q)"

definition received_execute :: "execute_request \<Rightarrow> execute_request" where
  "received_execute q = q\<lparr>er_Code := to_valid (er_Code q), er_Runtime := to_valid (er_Runtime q), er_SessionID := to_valid (er_SessionID q)\<rparr>"

lemma wire_names:
  "list_all (\<lambda>k. to_valid k = k) [''code'', ''runtime'', ''timeout'', ''session_id'', ''stdout'', ''stderr'', ''exit_code'', ''vm_id'',
     ''request_id'', ''duration_ms'', ''timed_out'', ''backend'']"
  by (simp add: to_valid_id valid_utf8_ascii del: valid_utf8.simps)

lemma execute_setter:
  "find_setter execute_setters ''code'' = Some (into_string (\<lambda>v q. q\<lparr>er_Code := v\<rparr>))"
  "find_setter execute_setters ''runtime'' = Some (into_string (\<lambda>v q. q\<lparr>er_Runtime := v\<rparr>))"
  "find_setter execute_setters ''timeout'' = Some (into_int (\<lambda>v q. q\<lparr>er_Timeout := v\<rparr>))"
  "find_setter execute_setters ''session_id'' = Some (into_string (\<lambda>v q. q\<lparr>er_SessionID := v\<rparr>))"
  by (simp_all add: find_setter_def execute_setters_def equal_fold_self fold_eq_def)

lemma to_valid_nil [simp]: "to_valid [] = []"
  by (simp add: to_valid_def)

lemma decode_client:
  "json_decode (json_object (client_members q) @ t) = Some (JObj (zip (map (\<lambda>m. to_valid (fst m)) (client_members q))
     ([JStr (to_valid (er_Code q)), JStr (to_valid (er_Runtime q)), JNum (int_dec (er_Timeout q))]
       @ (if er_SessionID q = [] then [] else [JStr (to_valid (er_SessionID q))]))), t)"
  by (rule json_decode_object) (auto simp: client_members_def omit_string_def scalar_string scalar_int)

lemma client_filled:
  assumes "fits64 (er_Timeout q)"
  shows "fill_struct execute_setters zero_request (JObj (zip (map (\<lambda>m. to_valid (fst m)) (client_members q))
     ([JStr (to_valid (er_Code q)), JStr (to_valid (er_Runtime q)), JNum (int_dec (er_Timeout q))]
       @ (if er_SessionID q = [] then [] else [JStr (to_valid (er_SessionID q))])))) = (received_execute q, None)"
proof -
  have n: "to_valid ''code'' = ''code''" "to_valid ''runtime'' = ''runtime''" "to_valid ''timeout'' = ''timeout''"
    "to_valid ''session_id'' = ''session_id''"
    using wire_names by simp_all
  show ?thesis
    using assms by (simp add: fill_struct_def client_members_def omit_string_def n execute_setter into_string_def into_int_def
        atoi_int_dec zero_request_def received_execute_def)
qed

lemma client_body_decoded:
  assumes "fits64 (er_Timeout q)" and "list_all json_space blanks"
    and "length (json_object (client_members q) @ blanks) \<le> MaxRequestBytes"
  shows "decode_body wants (json_object (client_members q) @ blanks) = Decoded (received_execute q)"
  using assms client_filled [OF assms(1)] by (simp add: decode_body_def Let_def decode_client)

section \<open>What is read was well formed\<close>

lemma first_error_simps [simp]: "first_error None e' = Some e'" "first_error (Some e) e' = Some e"
  by (simp_all add: first_error_def)

lemma fill_members_error: "snd (fill_members fs ms (x, Some e)) = Some e"
proof (induction ms arbitrary: x)
  case (Cons m ms)
  then show ?case by (cases m) (simp split: option.split)
qed simp

lemma fill_members_ok:
  "fill_members fs ms (x, None) = (y, None) \<Longrightarrow> m \<in> set ms \<Longrightarrow> find_setter fs (fst m) \<noteq> None"
proof (induction ms arbitrary: x)
  case (Cons n ms)
  obtain k j where n: "n = (k, j)" by fastforce
  show ?case
  proof (cases "find_setter fs k")
    case None
    then show ?thesis using Cons.prems fill_members_error [of fs ms x "unknown_field k"] by (simp add: n)
  next
    case (Some f)
    then show ?thesis
      using Cons fill_members_error [of fs ms x "unmarshal_type_error k"]
      by (auto simp: n split: option.splits)
  qed
qed simp

definition known_object :: "json \<Rightarrow> bool" where
  "known_object j = (case j of JObj ms \<Rightarrow> list_all (\<lambda>m. find_setter execute_setters (fst m) \<noteq> None) ms | JNull \<Rightarrow> True | _ \<Rightarrow> False)"

lemma decode_body_Decoded:
  assumes "decode_body wants body = Decoded req"
  obtains j rest where "length body \<le> MaxRequestBytes" "json_decode body = Some (j, rest)" "list_all json_space rest" "known_object j"
    "fill_struct execute_setters zero_request j = (req, None)"
proof -
  have l: "length body \<le> MaxRequestBytes"
    using assms by (auto simp: decode_body_def Let_def not_le split: option.splits prod.splits if_splits)
  then obtain j rest where d: "json_decode body = Some (j, rest)" "list_all json_space rest"
      "fill_struct execute_setters zero_request j = (req, None)"
    using assms by (auto simp: decode_body_def Let_def split: option.splits prod.splits if_splits)
  then have "known_object j"
    using fill_members_ok [of execute_setters _ zero_request req]
    by (auto simp: fill_struct_def known_object_def list_all_iff split: json.splits)
  with l d that show thesis by blast
qed

section \<open>Responses\<close>

definition executed_setters :: "execute_response setters" where
  "executed_setters =
     [(''stdout'', into_string (\<lambda>v q. q\<lparr>xp_Stdout := v\<rparr>)), (''stderr'', into_string (\<lambda>v q. q\<lparr>xp_Stderr := v\<rparr>)),
      (''exit_code'', into_int (\<lambda>v q. q\<lparr>xp_ExitCode := v\<rparr>)), (''vm_id'', into_string (\<lambda>v q. q\<lparr>xp_VMID := v\<rparr>)),
      (''runtime'', into_string (\<lambda>v q. q\<lparr>xp_Runtime := v\<rparr>)), (''request_id'', into_string (\<lambda>v q. q\<lparr>xp_RequestID := v\<rparr>)),
      (''session_id'', into_string (\<lambda>v q. q\<lparr>xp_SessionID := v\<rparr>)), (''duration_ms'', into_int (\<lambda>v q. q\<lparr>xp_DurationMS := v\<rparr>)),
      (''timed_out'', into_bool (\<lambda>v q. q\<lparr>xp_TimedOut := v\<rparr>)), (''backend'', into_string (\<lambda>v q. q\<lparr>xp_Backend := v\<rparr>))]"

definition zero_response :: execute_response where
  "zero_response = \<lparr>xp_Stdout = [], xp_Stderr = [], xp_ExitCode = 0, xp_VMID = [], xp_Runtime = [], xp_RequestID = [],
     xp_SessionID = [], xp_DurationMS = 0, xp_TimedOut = False, xp_Backend = []\<rparr>"

text \<open>A client reads the response into the same struct.\<close>

definition client_read :: "string \<Rightarrow> execute_response option" where
  "client_read bytes = (case json_decode bytes of None \<Rightarrow> None | Some (j, _) \<Rightarrow> decode_struct executed_setters zero_response j)"

definition received_executed :: "execute_response \<Rightarrow> execute_response" where
  "received_executed p = p\<lparr>xp_Stdout := to_valid (xp_Stdout p), xp_Stderr := to_valid (xp_Stderr p), xp_VMID := to_valid (xp_VMID p),
     xp_Runtime := to_valid (xp_Runtime p), xp_RequestID := to_valid (xp_RequestID p), xp_SessionID := to_valid (xp_SessionID p),
     xp_Backend := to_valid (xp_Backend p)\<rparr>"

lemma executed_setter:
  "find_setter executed_setters ''stdout'' = Some (into_string (\<lambda>v q. q\<lparr>xp_Stdout := v\<rparr>))"
  "find_setter executed_setters ''stderr'' = Some (into_string (\<lambda>v q. q\<lparr>xp_Stderr := v\<rparr>))"
  "find_setter executed_setters ''exit_code'' = Some (into_int (\<lambda>v q. q\<lparr>xp_ExitCode := v\<rparr>))"
  "find_setter executed_setters ''vm_id'' = Some (into_string (\<lambda>v q. q\<lparr>xp_VMID := v\<rparr>))"
  "find_setter executed_setters ''runtime'' = Some (into_string (\<lambda>v q. q\<lparr>xp_Runtime := v\<rparr>))"
  "find_setter executed_setters ''request_id'' = Some (into_string (\<lambda>v q. q\<lparr>xp_RequestID := v\<rparr>))"
  "find_setter executed_setters ''session_id'' = Some (into_string (\<lambda>v q. q\<lparr>xp_SessionID := v\<rparr>))"
  "find_setter executed_setters ''duration_ms'' = Some (into_int (\<lambda>v q. q\<lparr>xp_DurationMS := v\<rparr>))"
  "find_setter executed_setters ''timed_out'' = Some (into_bool (\<lambda>v q. q\<lparr>xp_TimedOut := v\<rparr>))"
  "find_setter executed_setters ''backend'' = Some (into_string (\<lambda>v q. q\<lparr>xp_Backend := v\<rparr>))"
  by (simp_all add: find_setter_def executed_setters_def equal_fold_self fold_eq_def)

lemma decode_executed:
  "json_decode (json_object (execute_members p) @ t) = Some (JObj (zip (map (\<lambda>m. to_valid (fst m)) (execute_members p))
     ([JStr (to_valid (xp_Stdout p)), JStr (to_valid (xp_Stderr p)), JNum (int_dec (xp_ExitCode p)), JStr (to_valid (xp_VMID p)),
       JStr (to_valid (xp_Runtime p)), JStr (to_valid (xp_RequestID p))]
      @ (if xp_SessionID p = [] then [] else [JStr (to_valid (xp_SessionID p))])
      @ [JNum (int_dec (xp_DurationMS p)), JBool (xp_TimedOut p), JStr (to_valid (xp_Backend p))])), t)"
  by (rule json_decode_object) (auto simp: execute_members_def omit_string_def scalar_string scalar_int scalar_bool)

lemma executed_read:
  assumes "fits64 (xp_ExitCode p)" and "fits64 (xp_DurationMS p)"
  shows "client_read (json_object (execute_members p) @ t) = Some (received_executed p)"
proof -
  have n: "to_valid ''stdout'' = ''stdout''" "to_valid ''stderr'' = ''stderr''" "to_valid ''exit_code'' = ''exit_code''"
    "to_valid ''vm_id'' = ''vm_id''" "to_valid ''runtime'' = ''runtime''" "to_valid ''request_id'' = ''request_id''"
    "to_valid ''session_id'' = ''session_id''" "to_valid ''duration_ms'' = ''duration_ms''" "to_valid ''timed_out'' = ''timed_out''"
    "to_valid ''backend'' = ''backend''"
    using wire_names by simp_all
  show ?thesis unfolding client_read_def decode_executed
    using assms by (simp add: decode_struct_def execute_members_def omit_string_def n executed_setter into_string_def into_int_def
        into_bool_def atoi_int_dec zero_response_def received_executed_def)
qed

text \<open>The encoder never writes a raw markup character or a control character.\<close>

definition inert :: "char \<Rightarrow> bool" where
  "inert c = (c \<noteq> CHR ''<'' \<and> c \<noteq> CHR ''>'' \<and> c \<noteq> CHR ''&'' \<and> 0x20 \<le> byte c)"

lemma inert_byte: "inert c \<longleftrightarrow> byte c \<noteq> 60 \<and> byte c \<noteq> 62 \<and> byte c \<noteq> 38 \<and> 32 \<le> byte c"
proof -
  have "byte (CHR ''<'') = 60" "byte (CHR ''>'') = 62" "byte (CHR ''&'') = 38" by simp_all
  then show ?thesis unfolding inert_def by (metis of_char_eq_iff)
qed

lemma inert_wide: "0x80 \<le> byte c \<Longrightarrow> inert c"
  by (simp add: inert_byte)

lemma inert_hex_char: "k < 16 \<Longrightarrow> inert (hex_char k)"
  by (auto simp: inert_byte hex_char_def Let_def)

lemma inert_hex_pad: "list_all inert (hex_pad 4 n)"
proof -
  have four: "(4::nat) = Suc (Suc (Suc (Suc 0)))" by simp
  show ?thesis unfolding four by (simp add: inert_hex_char)
qed

lemma inert_ascii: "list_all inert (json_ascii c)"
  by (auto simp: json_ascii_def inert_hex_pad) (auto simp: inert_def)

lemma encode_rune_high:
  assumes "0x80 \<le> r"
  shows "list_all (\<lambda>x. 0x80 \<le> byte x) (encode_rune r)"
proof -
  define q where "q = (if (0xD800 \<le> r \<and> r \<le> 0xDFFF) \<or> 0x10FFFF < r then rune_error else r)"
  have q: "0x80 \<le> q" "q \<le> 0x10FFFF" using assms by (auto simp: q_def rune_error_def)
  have m: "(0x80 + k mod 64) mod 256 = 0x80 + k mod (64 :: nat)" for k :: nat
    by (rule mod_less) (use mod_less_divisor [of 64 k] in linarith)
  have "(0xC0 + q div 64) mod 256 = 0xC0 + q div 64" if "q < 0x800"
    by (rule mod_less) (use that less_mult_imp_div_less [of q 32 64] in simp)
  moreover have "(0xE0 + q div 4096) mod 256 = 0xE0 + q div 4096" if "q < 0x10000"
    by (rule mod_less) (use that less_mult_imp_div_less [of q 16 4096] in simp)
  moreover have "q div 262144 < 5" using q(2) by (simp add: less_mult_imp_div_less)
  ultimately show ?thesis
    unfolding encode_rune_def q_def [symmetric] Let_def using q(1) m [of q] m [of "q div 64"] m [of "q div 4096"] by simp
qed

lemma decode_rune_bytes:
  assumes "decode_rune (c # cs) = (r, w)" and "0x80 \<le> byte c" and "w \<noteq> 1"
  shows "list_all (\<lambda>x. 0x80 \<le> byte x) (take w (c # cs))"
  using decode_rune_wide [OF assms] encode_rune_high [of r] by metis

lemma inert_body: "list_all inert (json_body s)"
proof (induction s rule: json_body.induct)
  case (2 c cs)
  obtain r w where rw: "decode_rune (c # cs) = (r, w)" by fastforce
  have IH: "list_all inert (json_body (drop (w - 1) cs))" using 2 [OF rw [symmetric]] .
  have u: "inert (CHR 0x5C)" "inert (CHR ''u'')" by (simp_all add: inert_def)
  have "list_all inert (take w (c # cs))" if "\<not> byte c < 0x80" "w \<noteq> 1"
    using decode_rune_bytes [OF rw _ that(2)] that(1) inert_wide by (auto simp: list_all_iff)
  then show ?case using IH inert_ascii inert_hex_pad u by (simp add: rw del: decode_rune.simps)
qed simp

lemma inert_quote: "list_all inert (json_quote s)"
  using inert_body [of s] by (simp add: json_quote_def inert_def)

lemma inert_nat_dec: "list_all inert (nat_dec n)"
  using nat_dec_digits [of _ n] by (fastforce simp: list_all_iff inert_byte dec_digit_def)

lemma inert_int_dec: "list_all inert (int_dec i)"
  by (simp add: int_dec_def inert_nat_dec) (simp add: inert_def)

lemma inert_bool: "list_all inert (json_bool b)"
  by (simp add: json_bool_def inert_def)

lemma inert_members: "list_all (\<lambda>m. list_all inert (snd m)) (body_members text_of b)"
  by (cases b) (auto simp: body_members_def execute_members_def omit_string_def inert_quote inert_int_dec inert_bool)

lemma inert_join: "list_all (list_all inert) xs \<Longrightarrow> list_all inert (join_with '','' xs)"
proof (induction xs)
  case (Cons x xs)
  then show ?case by (cases xs) (simp_all add: inert_def)
qed simp

lemma inert_object: "list_all (\<lambda>m. list_all inert (snd m)) ms \<Longrightarrow> list_all inert (json_object ms)"
proof -
  assume "list_all (\<lambda>m. list_all inert (snd m)) ms"
  then have "list_all (list_all inert) (map json_member ms)"
    by (auto simp: list_all_iff json_member_def inert_quote [unfolded list_all_iff]) (simp add: inert_def)
  then have "list_all inert (join_with '','' (map json_member ms))" by (rule inert_join)
  then show ?thesis unfolding json_object_def by (simp add: inert_def)
qed

section \<open>Properties\<close>

text \<open>
  C32. What a client sends is what the server validates: a request encoded as a JSON object of at most
  \<open>MaxRequestBytes\<close>, with blanks behind it or not, is decoded to itself, its strings made valid UTF-8.
\<close>

theorem client_request_roundtrip:
  assumes "fits64 (er_Timeout q)" and "list_all json_space blanks"
    and "length (json_object (client_members q) @ blanks) \<le> MaxRequestBytes"
  shows "decode_body wants (json_object (client_members q) @ blanks) = Decoded (received_execute q)
    \<and> (valid_utf8 (er_Code q) \<and> valid_utf8 (er_Runtime q) \<and> valid_utf8 (er_SessionID q) \<longrightarrow> received_execute q = q)"
  using client_body_decoded [OF assms] by (simp add: received_execute_def to_valid_id)

definition wire_request :: execute_request where
  "wire_request = \<lparr>er_Code = ''print('' @ [CHR 0x22] @ ''<a>'' @ [CHR 0x22, CHR '')''], er_Runtime = ''python'', er_Timeout = 10, er_SessionID = ''abc''\<rparr>"

theorem client_request_roundtrip_witness:
  "decode_body (\<lambda>_. True) (json_object (client_members wire_request) @ [CHR 0x0A]) = Decoded wire_request"
proof -
  have "length (json_object (client_members wire_request) @ [CHR 0x0A]) \<le> 1000" by code_simp
  then have l: "length (json_object (client_members wire_request) @ [CHR 0x0A]) \<le> MaxRequestBytes" by (simp add: MaxRequestBytes_def)
  have f: "fits64 (er_Timeout wire_request)" "list_all json_space [CHR 0x0A]"
    by (simp_all add: wire_request_def fits64_def json_space_def)
  have "valid_utf8 (er_Code wire_request)" "valid_utf8 (er_Runtime wire_request)" "valid_utf8 (er_SessionID wire_request)"
    by (rule valid_utf8_ascii, simp add: wire_request_def)+
  with client_request_roundtrip [OF f l, of "\<lambda>_. True"] show ?thesis by simp
qed

text \<open>
  C31. Only well-formed bodies reach the runtime: when an exchange changes the runtime's state, the body
  was at most \<open>MaxRequestBytes\<close> long and one JSON object without unknown members, with nothing but
  blanks behind it, and the request it stands for passed validation.
\<close>

theorem runtime_reached_only_by_wellformed_bytes:
  assumes "ss_rt (fst (http_exchange s wants text_of ctx rand r bytes st)) \<noteq> ss_rt st"
  shows "length bytes \<le> MaxRequestBytes \<and> (\<exists>j rest req0 req. json_decode bytes = Some (j, rest) \<and> list_all json_space rest
    \<and> known_object j \<and> fill_struct execute_setters zero_request j = (req0, None) \<and> validateExecute (sv_unicode s) req0 = (req, None))"
proof -
  have "ss_rt (fst (middleware s ctx rand r (decode_body wants bytes) st)) \<noteq> ss_rt st"
    using assms by (simp add: http_exchange_def Let_def split: prod.splits)
  then obtain req where "runnable (sv_unicode s) (hr_Method r) (decode_body wants bytes) = Some req"
    by (auto simp: middleware_rt split: if_splits option.splits)
  then obtain req0 where d: "decode_body wants bytes = Decoded req0" and v: "validateExecute (sv_unicode s) req0 = (req, None)"
    by (auto simp: runnable_def split: if_splits req_body.splits prod.splits option.splits)
  show ?thesis by (rule decode_body_Decoded [OF d]) (use v in blast)
qed

theorem runtime_reached_only_by_wellformed_bytes_witness:
  "\<exists>bytes j rest. ss_rt (fst (http_exchange (sample_server []) (\<lambda>_. True) (\<lambda>_. []) Background None key_request bytes sample_state)) \<noteq> ss_rt sample_state
     \<and> json_decode bytes = Some (j, rest) \<and> known_object j"
proof -
  let ?b = "json_object (client_members (sample_request [])) @ []"
  have "length ?b \<le> 1000" by code_simp
  then have l: "length ?b \<le> MaxRequestBytes" by (simp add: MaxRequestBytes_def)
  have f: "fits64 (er_Timeout (sample_request []))" "list_all json_space []" by (simp_all add: sample_request_def fits64_def)
  have "valid_utf8 (er_Code (sample_request []))" "valid_utf8 (er_Runtime (sample_request []))"
    by (rule valid_utf8_ascii, simp add: sample_request_def)+
  then have "received_execute (sample_request []) = sample_request []"
    by (simp add: received_execute_def to_valid_id) (simp add: sample_request_def)
  then have "decode_body (\<lambda>_. True) ?b = Decoded (sample_request [])" using client_body_decoded [OF f l] by simp
  then have ne: "ss_rt (fst (http_exchange (sample_server []) (\<lambda>_. True) (\<lambda>_. []) Background None key_request ?b sample_state)) \<noteq> ss_rt sample_state"
    using sample_boots by (simp add: http_exchange_def Let_def case_prod_beta)
  from runtime_reached_only_by_wellformed_bytes [OF ne] ne show ?thesis by blast
qed

text \<open>
  What the server sends is what the client reads: the body of a response to an execution decodes to
  that response, its strings made valid UTF-8.
\<close>

theorem response_readable:
  assumes "fits64 (xp_ExitCode p)" and "fits64 (xp_DurationMS p)"
    and "send_response text_of rid (status, ExecuteBody p) = (status', headers, bytes)"
  shows "status' = status \<and> client_read bytes = Some (received_executed p)"
  using assms(3) executed_read [OF assms(1,2)] by (auto simp: send_response_def writeJSON_def body_members_def)

definition wire_response :: execute_response where
  "wire_response = zero_response\<lparr>xp_Stdout := ''<b>'' @ [CHR 0x0A], xp_VMID := ''fc-1'', xp_ExitCode := -1\<rparr>"

theorem response_readable_witness:
  "client_read (snd (snd (send_response (\<lambda>_. []) ''r1'' (200, ExecuteBody wire_response)))) = Some wire_response"
proof -
  have f: "fits64 (xp_ExitCode wire_response)" "fits64 (xp_DurationMS wire_response)"
    by (simp_all add: wire_response_def zero_response_def fits64_def)
  have "to_valid (xp_Stdout wire_response) = xp_Stdout wire_response" "to_valid (xp_VMID wire_response) = xp_VMID wire_response"
    by (rule to_valid_id, rule valid_utf8_ascii, simp add: wire_response_def zero_response_def)+
  then have "received_executed wire_response = wire_response"
    by (simp add: received_executed_def) (simp add: wire_response_def zero_response_def)
  then show ?thesis using response_readable [OF f, of "\<lambda>_. []" "''r1''" 200] by (metis prod.collapse)
qed

text \<open>
  C33. No response can be taken for markup: the body of a JSON response has no raw angle bracket,
  ampersand or control character in it, but for the newline at its end, whatever a guest
  printed, and every response forbids sniffing.
\<close>

theorem responses_are_inert:
  assumes "send_response text_of rid (status, b) = (status', headers, bytes)" and "b \<noteq> MuxNotFound"
  shows "(\<exists>line. bytes = line @ [CHR 0x0A] \<and> list_all inert line)
    \<and> (''X-Content-Type-Options'', ''nosniff'') \<in> set headers \<and> (''Content-Type'', ''application/json'') \<in> set headers"
  using assms inert_object [OF inert_members, of text_of b] by (auto simp: send_response_def writeJSON_def)

theorem responses_are_inert_witness:
  "\<exists>line. snd (snd (send_response (\<lambda>_. []) ''r1'' (200, ExecuteBody wire_response))) = line @ [CHR 0x0A] \<and> list_all inert line"
  using responses_are_inert [of "\<lambda>_. []" "''r1''" 200 "ExecuteBody wire_response"] by (metis prod.collapse resp_body.distinct(9))

end
