(* ===== verification/FC_Separation.thy ===== *)
theory FC_Separation
  imports FC_Props
begin

text \<open>
  What the machines of the backend do not share. An instance has an id of its own, taken from the
  64-bit sequence number, and a directory named by it: the working directory, or the jail. The
  directories of two instances have no path in common, so the removal of one does not reach into the
  other. A session is shared: two machines of the same session that run at the same time have the same
  disk and the same vsock socket.
\<close>

section \<open>Where a machine lives\<close>

definition machine_dir :: "fc_config \<Rightarrow> string \<Rightarrow> string" where
  "machine_dir cfg vid =
     (if fc_Jailer cfg = [] then path_join [fc_WorkDir cfg, vid]
      else path_join [if fc_WorkDir cfg = [] then ''/srv/jailer'' else fc_WorkDir cfg, path_base (fc_Binary cfg), vid])"

definition address :: "'n vm \<Rightarrow> string \<times> bool \<times> string" where
  "address v = (vi_id v, vi_jailed v, vi_workDir v)"

abbreviation lives_at :: "fc_config \<Rightarrow> string \<Rightarrow> 'n launching \<Rightarrow> bool" where
  "lives_at cfg vid l \<equiv> vi_id (la_vm l) = vid \<and> vi_workDir (la_vm l) = machine_dir cfg vid"

text \<open>Every stage but the preparation of the paths leaves the address alone.\<close>

lemma keeps_address:
  "keeps (\<lambda>l. address (la_vm l)) (check_disk sp)"
  "keeps (\<lambda>l. address (la_vm l)) (setup_tap deps sp)"
  "keeps (\<lambda>l. address (la_vm l)) (recreate_tap deps sp rec)"
  "keeps (\<lambda>l. address (la_vm l)) (import_file E fmt src name)"
  "keeps (\<lambda>l. address (la_vm l)) (restore_open cfg rec)"
  "keeps (\<lambda>l. address (la_vm l)) (prepare_open E cfg deps src)"
  "keeps (\<lambda>l. address (la_vm l)) (start_vmm E cfg fmt)"
  "keeps (\<lambda>l. address (la_vm l)) (attachCgroup deps sp)"
  "keeps (\<lambda>l. address (la_vm l)) (wait_socket E fmt mk ctx path mx)"
  "keeps (\<lambda>l. address (la_vm l)) set_client"
  "keeps (\<lambda>l. address (la_vm l)) (\<lambda>l. whileAlive E (c l) (calls l) l)"
  "keeps (\<lambda>l. address (la_vm l)) (wait_agent E cfg t0 ctx)"
  by (rule keepsI; auto simp: address_def stage_defs split: prod.splits sum.splits option.splits if_splits; fail)+

lemma keeps_or_kill_address: "keeps (\<lambda>l. address (la_vm l)) f \<Longrightarrow> keeps (\<lambda>l. address (la_vm l)) (or_kill E f)"
  by (rule keepsI) (auto simp: or_kill_def kill_def address_def split: prod.splits option.splits dest!: keepsD)

lemma keeps_wait_guest: "keeps (\<lambda>l. address (la_vm l)) (wait_guest E cfg ctx)"
proof -
  have "keeps (\<lambda>l. address (la_vm l)) (stages [or_kill E (wait_socket E fmt mk ctx path mx), or_kill E (wait_agent E cfg t0 ctx)])" for fmt mk path mx t0
    by (rule keeps_stages) (auto intro: keeps_or_kill_address keeps_address)
  note s = this [unfolded keeps_def, rule_format]
  show ?thesis unfolding keeps_def wait_guest_def Let_def by (intro allI) (rule s)
qed

abbreviation named :: "fc_config \<Rightarrow> string \<Rightarrow> 'n launching \<Rightarrow> bool" where
  "named cfg vid l \<equiv> vi_id (la_vm l) = vid \<and> vi_workDir (la_vm l) = path_join [fc_WorkDir cfg, vid]"

lemma keeps_lives: "keeps (\<lambda>l. address (la_vm l)) f \<Longrightarrow> triple (lives_at cfg vid) f (lives_at cfg vid) (\<lambda>_. True)"
  by (rule triple_weaken [OF keeps_triple [where view = "\<lambda>l. address (la_vm l)" and P = "\<lambda>a. fst a = vid \<and> snd (snd a) = machine_dir cfg vid"]])
    (auto simp: address_def)

lemma keeps_named: "keeps (\<lambda>l. address (la_vm l)) f \<Longrightarrow> triple (named cfg vid) f (named cfg vid) (\<lambda>_. True)"
  by (rule triple_weaken [OF keeps_triple [where view = "\<lambda>l. address (la_vm l)" and P = "\<lambda>a. fst a = vid \<and> snd (snd a) = path_join [fc_WorkDir cfg, vid]"]])
    (auto simp: address_def)

lemma open_dir: "fc_Jailer cfg = [] \<Longrightarrow> machine_dir cfg vid = path_join [fc_WorkDir cfg, vid]"
  by (simp add: machine_dir_def)

lemma prepare_jailed_lives:
  "fc_Jailer cfg \<noteq> [] \<Longrightarrow> triple (named cfg vid) (prepare_jailed E cfg deps src) (lives_at cfg vid) (\<lambda>_. True)"
  by (rule tripleI) (auto simp: prepare_jailed_def jail_vm_def newJailLayout_def machine_dir_def Let_def
      split: option.splits sum.splits prod.splits if_splits)

lemma preparePathsFrom_lives: "triple (named cfg vid) (preparePathsFrom E cfg deps src) (lives_at cfg vid) (\<lambda>_. True)"
proof (cases "fc_Jailer cfg = []")
  case True
  then show ?thesis by (simp add: preparePathsFrom_def open_dir keeps_named [OF keeps_address(6)])
qed (simp add: preparePathsFrom_def prepare_jailed_lives)

lemma prepareRestore_lives: "triple (named cfg vid) (prepareRestore E cfg deps rec) (lives_at cfg vid) (\<lambda>_. True)"
proof (cases "fc_Jailer cfg = []")
  case True
  then show ?thesis by (simp add: prepareRestore_def open_dir keeps_named [OF keeps_address(5)])
next
  case False
  then show ?thesis
    by (auto simp: prepareRestore_def simp del: stages.simps
        intro!: stages_Cons [OF preparePathsFrom_lives] stages_Cons [OF keeps_lives [OF keeps_address(4)]] stages_Nil)
qed

text \<open>A machine that has booted lives in the directory of its id.\<close>

lemma stages_lives:
  "(\<And>f. f \<in> set fs \<Longrightarrow> keeps (\<lambda>l. address (la_vm l)) f) \<Longrightarrow> triple (lives_at cfg vid) (stages fs) (lives_at cfg vid) (\<lambda>_. True)"
  by (rule keeps_lives [OF keeps_stages])

lemma run_launch_lives: "triple (named cfg vid) (run_launch E cfg deps ctx sp reco) (lives_at cfg vid) (\<lambda>_. True)"
proof (cases reco)
  case None
  have "triple (named cfg vid) (launch E cfg deps ctx sp) (lives_at cfg vid) (\<lambda>_. True)"
    unfolding launch_def preparePaths_def
    by (rule stages_Cons [OF preparePathsFrom_lives], rule stages_lives)
      (auto intro: keeps_or_kill_address keeps_address keeps_wait_guest)
  with None show ?thesis by (simp add: run_launch_def)
next
  case (Some rec)
  have "triple (named cfg vid) (stages
      [recreate_tap deps sp rec, prepareRestore E cfg deps rec, start_vmm E cfg fmt, or_kill E (attachCgroup deps sp),
       or_kill E (wait_socket E fmt' mk ctx path mx), set_client,
       or_kill E (\<lambda>l. whileAlive E ctx (restore_calls cfg rec l) l), wait_guest E cfg ctx]) (lives_at cfg vid) (\<lambda>_. True)" for fmt fmt' mk path mx
    by (rule stages_Cons [OF keeps_named [OF keeps_address(3)]], rule stages_Cons [OF prepareRestore_lives], rule stages_lives)
      (auto intro: keeps_or_kill_address keeps_address keeps_wait_guest)
  with Some show ?thesis by (simp add: run_launch_def launchRestore_def triple_def)
qed

lemma boot_vm_lives:
  assumes "boot_vm E cfg deps ctx sp reco vid cid w = (w', Ret (Inr v))"
  shows "vi_id v = vid \<and> vi_workDir v = machine_dir cfg vid"
proof -
  obtain w2 r0 l where l: "run_launch E cfg deps ctx sp reco (start_launch cfg ((new_vm cfg sp vid cid)\<lparr>vi_snapRec := r0\<rparr>) w2) = (l, None)"
    and v: "v = la_vm l"
    using assms by (auto simp: boot_vm_def finish_boot_def split: prod.splits option.splits sum.splits if_splits)
  have "named cfg vid (start_launch cfg ((new_vm cfg sp vid cid)\<lparr>vi_snapRec := r0\<rparr>) w2)"
    by (simp add: start_launch_def new_vm_def Let_def)
  from triple_ok [OF run_launch_lives this l] show ?thesis by (simp add: v)
qed

section \<open>Directories with different names have nothing in common\<close>

lemma vm_name_path: "path_name (vm_name k)"
  using nat_dec_digits [of "CHR ''/''" "unat k"] by (auto simp: path_name_def vm_name_def dec_digit_def)

lemma vm_name_inject [simp]: "vm_name a = vm_name b \<longleftrightarrow> a = b"
  by (simp add: vm_name_def word_unat_eq_iff)

lemma path_parts_name: "path_name n \<Longrightarrow> path_parts n = (False, [n])"
  using clean_comps_names [of "[n]" False "[]"]
  by (cases n) (auto simp: path_parts_def path_name_def is_abs_def split_on_single)

lemma machine_dir_base: "\<exists>b. \<forall>n. path_name n \<longrightarrow> machine_dir cfg n = b @ n"
proof (cases "fc_Jailer cfg = [] \<and> fc_WorkDir cfg = []")
  case True
  then show ?thesis by (intro exI [of _ "[]"]) (simp add: machine_dir_def path_join_def path_clean_def path_parts_name path_name_def)
next
  case False
  define root where "root = (if fc_Jailer cfg = [] then fc_WorkDir cfg
    else (if fc_WorkDir cfg = [] then ''/srv/jailer'' else fc_WorkDir cfg) @ CHR ''/'' # path_base (fc_Binary cfg))"
  have "root \<noteq> []" using False by (auto simp: root_def)
  moreover have "machine_dir cfg n = path_join [root, n]" for n
    using False by (auto simp: machine_dir_def root_def path_join_def)
  ultimately show ?thesis using path_join_base [of root] by simp
qed

lemma siblings_apart:
  assumes "path_name m" and "path_name n" and "m \<noteq> n" and "below (b @ m) q"
  shows "\<not> below (b @ n) q"
proof
  assume "below (b @ n) q"
  have cut: "takeWhile (\<lambda>c. c \<noteq> CHR ''/'') r = k" if "path_name k" and "q = b @ r" and "below (b @ k) q" for k r
  proof -
    have "CHR ''/'' \<notin> set k" using that(1) by (simp add: path_name_def)
    moreover from that(2,3) have "r = k \<or> (\<exists>z. r = k @ CHR ''/'' # z)" by (auto simp: below_def prefix_def)
    ultimately show ?thesis by (auto intro!: takeWhile_append_stop)
  qed
  obtain r where "q = b @ r" using assms(4) by (auto simp: below_def prefix_def)
  with cut [OF assms(1) _ assms(4)] cut [OF assms(2) _ \<open>below (b @ n) q\<close>] assms(3) show False by blast
qed

section \<open>The ids in use\<close>

text \<open>The ids are different and come from sequence numbers that have been given out.\<close>

definition apart_inv :: "fc_config \<Rightarrow> 'n fc_state \<Rightarrow> bool" where
  "apart_inv cfg s = (distinct (map vi_id (fs_vms s))
     \<and> (\<forall>v \<in> set (fs_vms s). \<exists>k \<le> fs_seq s. vi_id v = vm_name k \<and> vi_workDir v = machine_dir cfg (vm_name k)))"

lemma apart_mono: "apart_inv cfg s \<Longrightarrow> fs_vms s' = fs_vms s \<Longrightarrow> fs_seq s \<le> fs_seq s' \<Longrightarrow> apart_inv cfg s'"
  by (fastforce simp: apart_inv_def intro: order.trans)

lemma seq_grows: "unat k + 1 < 2 ^ 64 \<Longrightarrow> unat (k + 1 :: 64 word) = unat k + 1 \<and> k < k + 1"
  by (simp add: word_less_nat_alt unat_word_ariths)

lemma bootOne_apart:
  assumes "apart_inv cfg s" and "bootOne E cfg deps ctx sp reco s = (s', x)" and "unat (fs_seq s) + 1 < 2 ^ 64"
  shows "apart_inv cfg s' \<and> unat (fs_seq s') = unat (fs_seq s) + 1"
proof -
  obtain w y where b: "boot_vm E cfg deps ctx sp reco (vm_name (fs_seq s + 1)) (choose_cid reco (next_cid (fs_cids s))) (fs_host s) = (w, y)"
    by fastforce
  note g = seq_grows [OF assms(3)]
  have q: "fs_seq s' = fs_seq s + 1" using assms(2) b by (auto simp: bootOne_def Let_def split: call.splits sum.splits)
  have "apart_inv cfg s'"
  proof (cases "\<exists>v. y = Ret (Inr v)")
    case True
    then obtain v where y: "y = Ret (Inr v)" by blast
    then have v: "vi_id v = vm_name (fs_seq s + 1)" "vi_workDir v = machine_dir cfg (vm_name (fs_seq s + 1))"
      using boot_vm_lives [of E cfg deps ctx sp reco] b by blast+
    have "fs_vms s' = fs_vms s @ [v]" using assms(2) b y by (auto simp: bootOne_def Let_def)
    moreover have "vm_name (fs_seq s + 1) \<notin> vi_id ` set (fs_vms s)" using assms(1) g by (fastforce simp: apart_inv_def)
    ultimately show ?thesis using assms(1) g v q by (fastforce simp: apart_inv_def intro: order.trans)
  next
    case False
    then have "fs_vms s' = fs_vms s" using assms(2) b by (auto simp: bootOne_def Let_def split: call.splits sum.splits)
    with assms(1) g q show ?thesis by (auto intro: apart_mono)
  qed
  with g q show ?thesis by simp
qed

lemma saveSnapshot_address: "saveSnapshot E st v w = (v', w', r) \<Longrightarrow> address v' = address v"
  by (auto simp: saveSnapshot_def address_def Let_def split: sum.splits prod.splits option.splits)

lemma vm_Execute_address: "vm_Execute E deps ctx req v w = (v', w', r) \<Longrightarrow> address v' = address v"
  by (auto simp: vm_Execute_def maybeSnapshot_def Let_def split: if_splits sum.splits option.splits prod.splits dest!: saveSnapshot_address)

lemma apart_update:
  assumes "apart_inv cfg s" and "address v = address (fs_vms s ! i)"
  shows "apart_inv cfg (s\<lparr>fs_vms := (fs_vms s)[i := v], fs_host := w\<rparr>)"
proof -
  have m: "map address ((fs_vms s)[i := v]) = map address (fs_vms s)" using assms(2) by (metis list_update_id map_update)
  then have "map vi_id ((fs_vms s)[i := v]) = map vi_id (fs_vms s)"
    by (metis (no_types, lifting) address_def fst_conv list.map_comp map_eq_conv o_apply)
  moreover have "\<exists>v' \<in> set (fs_vms s). address v' = address u" if "u \<in> set ((fs_vms s)[i := v])" for u
    using that arg_cong [OF m, of set] by (metis (no_types, lifting) image_iff list.set_map)
  ultimately show ?thesis using assms(1) by (fastforce simp: apart_inv_def address_def)
qed

lemma FC_Execute_apart: "apart_inv cfg s \<Longrightarrow> FC_Execute E deps ctx i req s = (s', x) \<Longrightarrow> apart_inv cfg s' \<and> fs_seq s' = fs_seq s"
  by (auto simp: FC_Execute_def split: if_splits prod.splits intro!: apart_update dest!: vm_Execute_address)

lemma FC_Destroy_apart: "apart_inv cfg s \<Longrightarrow> FC_Destroy E deps ctx i s = (s', x) \<Longrightarrow> apart_inv cfg s' \<and> fs_seq s' = fs_seq s"
  by (auto simp: FC_Destroy_def vm_Destroy_def address_def split: if_splits prod.splits intro!: apart_update)

context quiet_deps
begin

lemma FC_Boot_apart:
  assumes "apart_inv cfg s" and "FC_Boot E cfg deps ctx sp s = (s', x)" and "unat (fs_seq s) + 2 < 2 ^ 64"
  shows "apart_inv cfg s' \<and> unat (fs_seq s') \<le> unat (fs_seq s) + 2"
proof (rule FC_Boot_cases [OF assms(2)])
  fix e assume "same s s'"
  then show ?thesis using assms(1) by (auto simp: same_def intro: apart_mono)
next
  fix s1 assume "same s s1" and b: "bootOne E cfg deps ctx sp None s1 = (s', x)"
  then have "apart_inv cfg s1" "fs_seq s1 = fs_seq s" using assms(1) by (auto simp: same_def intro: apart_mono)
  then show ?thesis using bootOne_apart [OF _ b] assms(3) by simp
next
  fix s1 rec assume "same s s1" and b: "bootOne E cfg deps ctx sp (Some rec) s1 = (s', x)"
  then have "apart_inv cfg s1" "fs_seq s1 = fs_seq s" using assms(1) by (auto simp: same_def intro: apart_mono)
  then show ?thesis using bootOne_apart [OF _ b] assms(3) by simp
next
  fix s1 rec s2 e s3
  assume s: "same s s1" "same s2 s3" and b: "bootOne E cfg deps ctx sp (Some rec) s1 = (s2, Ret (Inl e))"
    "bootOne E cfg deps ctx sp None s3 = (s', x)"
  have "apart_inv cfg s1" "fs_seq s1 = fs_seq s" using assms(1) s(1) by (auto simp: same_def intro: apart_mono)
  then have 2: "apart_inv cfg s2" "unat (fs_seq s2) = unat (fs_seq s) + 1" using bootOne_apart [OF _ b(1)] assms(3) by auto
  then have "apart_inv cfg s3" "fs_seq s3 = fs_seq s2" using s(2) by (auto simp: same_def intro: apart_mono)
  then show ?thesis using bootOne_apart [OF _ b(2)] 2 assms(3) by simp
qed

lemma fc_step_apart:
  assumes "fc_step E cfg deps s s'" and "apart_inv cfg s" and "unat (fs_seq s) + 2 < 2 ^ 64"
  shows "apart_inv cfg s' \<and> unat (fs_seq s') \<le> unat (fs_seq s) + 2"
  using assms(1)
proof cases
  case (boot ctx sp x)
  then show ?thesis using FC_Boot_apart [OF assms(2) _ assms(3)] by blast
next
  case (execute ctx i req x)
  then show ?thesis using FC_Execute_apart [OF assms(2)] by fastforce
next
  case (destroy ctx i r)
  then show ?thesis using FC_Destroy_apart [OF assms(2)] by fastforce
next
  case outside
  then show ?thesis using assms(2) by (auto intro: apart_mono)
qed

lemma fc_runs_apart:
  assumes "(fc_step E cfg deps ^^ n) s s'" and "apart_inv cfg s" and "fs_seq s = 0" and "n < 2 ^ 63"
  shows "apart_inv cfg s' \<and> unat (fs_seq s') \<le> 2 * n"
  using assms(1,4)
proof (induction n arbitrary: s')
  case 0
  then show ?case using assms(2,3) by simp
next
  case (Suc n)
  then obtain t where t: "(fc_step E cfg deps ^^ n) s t" "fc_step E cfg deps t s'" by auto
  with Suc have i: "apart_inv cfg t" "unat (fs_seq t) \<le> 2 * n" by auto
  then show ?case using fc_step_apart [OF t(2) i(1)] Suc.prems(2) by auto
qed

end

section \<open>What the removal of a machine's files leaves alone\<close>

lemma machine_dir_clean: "path_name vid \<Longrightarrow> path_clean (machine_dir cfg vid) = machine_dir cfg vid"
  by (simp add: machine_dir_def path_join_def path_name_def)

lemma os_RemoveFile_frame: "q \<noteq> path_clean p \<Longrightarrow> fs_tree (fst (os_RemoveFile p s)) q = fs_tree s q"
  by (auto simp: os_RemoveFile_def split: option.split node.split)

lemma cleanupFiles_frame:
  assumes "\<not> below (path_clean (vi_workDir v)) q" and "q \<noteq> path_clean (vi_vsockUDS v)"
  shows "fs_tree (h_fs (fst (cleanupFiles v w))) q = fs_tree (h_fs w) q"
proof -
  have "fs_tree (h_fs (fst (on_fs (os_RemoveAll (vi_workDir v)) w1))) q = fs_tree (h_fs w1) q" for w1 :: "'a host"
    using os_RemoveAll_frame [OF surjective_pairing assms(1)] by (simp add: on_fs_def split: prod.split) (metis fst_conv)
  moreover have "fs_tree (h_fs (fst (on_fs (os_RemoveFile (vi_vsockUDS v)) w1))) q = fs_tree (h_fs w1) q" for w1 :: "'a host"
    using os_RemoveFile_frame [OF assms(2)] by (simp add: on_fs_def split: prod.split) (metis fst_conv)
  ultimately show ?thesis by (simp add: cleanupFiles_def Let_def note_event_def case_prod_beta split: option.split)
qed

lemma apart_dirs:
  assumes "apart_inv cfg s" and "i < length (fs_vms s)" and "j < length (fs_vms s)" and "i \<noteq> j"
    and "below (vi_workDir (fs_vms s ! j)) q"
  shows "vi_id (fs_vms s ! i) \<noteq> vi_id (fs_vms s ! j)" "\<not> below (vi_workDir (fs_vms s ! i)) q"
    "path_clean (vi_workDir (fs_vms s ! i)) = vi_workDir (fs_vms s ! i)"
proof -
  have home: "\<exists>k. vi_id (fs_vms s ! n) = vm_name k \<and> vi_workDir (fs_vms s ! n) = machine_dir cfg (vm_name k)" if "n < length (fs_vms s)" for n
    using assms(1) that by (fastforce simp: apart_inv_def)
  obtain a b where ab: "vi_id (fs_vms s ! i) = vm_name a" "vi_workDir (fs_vms s ! i) = machine_dir cfg (vm_name a)"
    "vi_id (fs_vms s ! j) = vm_name b" "vi_workDir (fs_vms s ! j) = machine_dir cfg (vm_name b)"
    using home [OF assms(2)] home [OF assms(3)] by blast
  have "map vi_id (fs_vms s) ! i \<noteq> map vi_id (fs_vms s) ! j"
    using assms(1-4) by (simp only: apart_inv_def nth_eq_iff_index_eq length_map) simp
  then show d: "vi_id (fs_vms s ! i) \<noteq> vi_id (fs_vms s ! j)" using assms(2,3) by simp
  obtain base where "\<forall>n. path_name n \<longrightarrow> machine_dir cfg n = base @ n" using machine_dir_base by blast
  with siblings_apart [of "vm_name b" "vm_name a" base q] d assms(5) vm_name_path
  show "\<not> below (vi_workDir (fs_vms s ! i)) q" by (simp add: ab)
  show "path_clean (vi_workDir (fs_vms s ! i)) = vi_workDir (fs_vms s ! i)" by (simp add: ab machine_dir_clean vm_name_path)
qed

lemma New_apart:
  assumes "NewFirecrackerWithConfig E sc cfg (wire E u t cg st pool) w = (c, deps, s)"
  shows "apart_inv c s" "fs_seq s = 0"
  using New_wired [OF assms] by (simp_all add: apart_inv_def)

section \<open>Properties\<close>

text \<open>
  C10. However many machines have been booted, and in whatever order they were used and destroyed, two
  of them never have the same id, their directories have no path in common, and the removal of the
  files of one leaves every file of the other as it is (but for the machine's own vsock socket, which
  may be in the directory of its session). The bound on the number of calls keeps the 64-bit sequence
  number from wrapping: a call takes at most two numbers.
\<close>

theorem machines_are_separate:
  assumes "NewFirecrackerWithConfig E sc cfg (wire E u t cg st pool) w0 = (c, deps, s0)"
    and "(fc_step E c deps ^^ n) s0 s" and "n < 2 ^ 63"
    and "i < length (fs_vms s)" and "j < length (fs_vms s)" and "i \<noteq> j"
    and "below (vi_workDir (fs_vms s ! j)) q"
  shows "FC_ID i s \<noteq> FC_ID j s \<and> \<not> below (vi_workDir (fs_vms s ! i)) q
    \<and> (q \<noteq> path_clean (vi_vsockUDS (fs_vms s ! i)) \<longrightarrow> fs_tree (h_fs (fst (cleanupFiles (fs_vms s ! i) w))) q = fs_tree (h_fs w) q)"
proof -
  obtain st' pool' where d: "deps = wire E u t cg st' pool'" using New_wired(1) [OF assms(1)] by blast
  have "apart_inv c s" using wired.fc_runs_apart assms(2,3) New_apart [OF assms(1)] unfolding d by blast
  note a = apart_dirs [OF this assms(4-7)]
  then show ?thesis using cleanupFiles_frame [of "fs_vms s ! i" q w] by (auto simp: FC_ID_def)
qed

text \<open>A backend with a session store, and two machines of one session.\<close>

definition session_codec :: snap_codec where
  "session_codec = \<lparr>sc_marshal = \<lambda>_. Inr [], sc_unmarshal = \<lambda>_. Inr zero_record\<rparr>"

definition session_cfg :: fc_config where
  "session_cfg = demo_cfg\<lparr>fc_SnapshotDir := ''/s''\<rparr>"

definition session_deps :: "(32 word \<times> unit) fc_deps" where
  "session_deps = demo_deps\<lparr>fd_Snapshots := Some (store_interface session_codec ''/s'')\<rparr>"

definition session_spec :: "string \<Rightarrow> spec" where
  "session_spec sid = demo_spec\<lparr>sp_SessionID := sid\<rparr>"

definition session_boot :: "string \<Rightarrow> (32 word \<times> unit) fc_state \<Rightarrow> (32 word \<times> unit) fc_state \<times> nat res call" where
  "session_boot sid s = FC_Boot (demo_env 204) session_cfg session_deps Background (session_spec sid) s"

text \<open>The guest of the first machine writes to its disk before the second is booted.\<close>

definition guest_writes :: "(32 word \<times> unit) fc_state \<Rightarrow> (32 word \<times> unit) fc_state" where
  "guest_writes s = s\<lparr>fs_host := (fs_host s)\<lparr>h_fs := put (vi_hostRootfs (fs_vms s ! 0)) (File ''dirty'') (h_fs (fs_host s))\<rparr>\<rparr>"

definition one_machine :: "(32 word \<times> unit) fc_state" where
  "one_machine = guest_writes (fst (session_boot ''a'' demo_start))"

definition two_machines :: "(32 word \<times> unit) fc_state" where
  "two_machines = fst (session_boot ''a'' one_machine)"

lemma session_new:
  "NewFirecrackerWithConfig (demo_env 204) session_codec session_cfg (wire (demo_env 204) ascii_tables None None None False) demo_host
     = (session_cfg, session_deps, demo_start)"
proof -
  have "fill_config (fe_go (demo_env 204)) session_cfg = session_cfg"
    by (simp add: fill_config_def session_cfg_def demo_cfg_def DefaultConfig_def DefaultPort_def absPath_def is_abs_def)
  then show ?thesis
    by (simp add: NewFirecrackerWithConfig_def demo_wire [symmetric] default_store_def default_pool_def session_cfg_def
        demo_cfg_def demo_deps_def DefaultConfig_def demo_start_def session_deps_def)
qed

lemma session_boot_step: "fc_step (demo_env 204) session_cfg session_deps s (fst (session_boot sid s))"
  unfolding session_boot_def by (rule fc_step.boot [OF surjective_pairing])

lemma guest_writes_step: "fc_step (demo_env 204) session_cfg session_deps s (guest_writes s)"
  unfolding guest_writes_def by (rule fc_step.outside) simp

lemma one_machine_run: "(fc_step (demo_env 204) session_cfg session_deps ^^ 2) demo_start one_machine"
  using session_boot_step guest_writes_step unfolding one_machine_def by (auto simp: numeral_2_eq_2)

lemma two_machines_run: "(fc_step (demo_env 204) session_cfg session_deps ^^ 3) demo_start two_machines"
  using relpowp_Suc_I [OF one_machine_run] session_boot_step unfolding two_machines_def by (simp add: numeral_3_eq_3 numeral_2_eq_2)

lemma two_machines_vms:
  "map (\<lambda>v. (vi_id v, vi_dead v, vi_workDir v, vi_hostRootfs v, vi_vsockUDS v)) (fs_vms two_machines)
     = [(''fc-1'', False, ''/w/fc-1'', ''/s/a/rootfs.ext4'', ''/s/a/v.sock''), (''fc-2'', False, ''/w/fc-2'', ''/s/a/rootfs.ext4'', ''/s/a/v.sock'')]"
  by code_simp

lemma two_machines_disk:
  "(case session_boot ''a'' one_machine of (_, Ret (Inr i)) \<Rightarrow> i | _ \<Rightarrow> 0) = 1"
  "(vi_hostRootfs (fs_vms one_machine ! 0), fs_tree (h_fs (fs_host one_machine)) ''/s/a/rootfs.ext4'') = (''/s/a/rootfs.ext4'', Some (File ''dirty''))"
  "fs_tree (h_fs (fs_host two_machines)) ''/s/a/rootfs.ext4'' = Some (File ''g'')"
  by code_simp+

theorem machines_are_separate_witness:
  "FC_ID 0 two_machines \<noteq> FC_ID 1 two_machines \<and> \<not> below ''/w/fc-1'' ''/w/fc-2/api.sock''
     \<and> fs_tree (h_fs (fst (cleanupFiles (fs_vms two_machines ! 0) (fs_host two_machines)))) ''/w/fc-2/firecracker.log'' = Some (File [])"
proof -
  obtain v1 v2 where v: "fs_vms two_machines = [v1, v2]" and d: "vi_workDir v1 = ''/w/fc-1''" "vi_workDir v2 = ''/w/fc-2''" "vi_vsockUDS v1 = ''/s/a/v.sock''"
    using two_machines_vms by (auto simp: map_eq_Cons_conv)
  have b: "below (vi_workDir (fs_vms two_machines ! 1)) ''/w/fc-2/api.sock''" "below (vi_workDir (fs_vms two_machines ! 1)) ''/w/fc-2/firecracker.log''"
    by (simp_all add: v d below_def)
  have u: "path_clean (vi_vsockUDS (fs_vms two_machines ! 0)) = ''/s/a/v.sock''" unfolding v by (simp add: d) code_simp
  have l: "fs_tree (h_fs (fs_host two_machines)) ''/w/fc-2/firecracker.log'' = Some (File [])" by code_simp
  note m = machines_are_separate [OF session_new two_machines_run, of 0 1, where w = "fs_host two_machines"]
  from m [OF _ _ _ _ b(1)] m [OF _ _ _ _ b(2)] show ?thesis using u l d by (simp add: v)
qed

end
