(* ===== verification/FC_Typing.thy ===== *)
theory FC_Typing
  imports FC_Separation
begin

text \<open>
  The well-formedness of the machines of the backend: whatever was asked for, a machine that exists
  has a supported language, limits that were validated, an id that the jailer accepts (and that is a
  single path component), a vsock context id that is not reserved and a port.
\<close>

section \<open>The ids are legal\<close>

lemma nat_dec_length: "n < 10 ^ Suc k \<Longrightarrow> length (nat_dec n) \<le> Suc k"
proof (induction k arbitrary: n)
  case 0
  then show ?case by (simp add: nat_dec.simps [of n])
next
  case (Suc k)
  then have "n div 10 < 10 ^ Suc k" by (simp add: less_mult_imp_div_less)
  with Suc.IH [of "n div 10"] show ?case by (simp add: nat_dec.simps [of n])
qed

lemma seq_digits: "length (nat_dec (unat (k :: 64 word))) \<le> 20"
proof -
  have "unat k < 2 ^ 64" using unsigned_less [of k] by simp
  also have "\<dots> < (10 :: nat) ^ 20" by simp
  finally show ?thesis using nat_dec_length [of "unat k" 19] by simp
qed

lemma vm_name_legal: "validateJailerID (vm_name k) = None"
proof -
  have d: "48 \<le> byte c \<and> byte c \<le> 57" if "c \<in> set (nat_dec (unat k))" for c
    using nat_dec_digits [OF that] by (simp add: dec_digit_def)
  then have "\<forall>c \<in> set (vm_name k). byte c < 0x80" by (fastforce simp: vm_name_def)
  moreover have "list_all (\<lambda>c. alnum (byte c) \<or> byte c = 45) (vm_name k)"
    using d by (auto simp: vm_name_def list_all_iff char_class_defs)
  ultimately show ?thesis
    using seq_digits [of k] by (simp add: validateJailerID_def runes_ascii list_all_iff) (simp add: vm_name_def)
qed

section \<open>The invariant\<close>

definition vm_typed :: "fc_config \<Rightarrow> 'n vm \<Rightarrow> bool" where
  "vm_typed cfg v = (Supported (vi_language v) \<and> Profile_Validate (vi_limits v) = None
     \<and> validateJailerID (vi_id v) = None \<and> 3 \<le> vi_cid v \<and> vi_port v = fc_AgentPort cfg)"

lemma typed_ident: "snd (ident v') = snd (ident v) \<Longrightarrow> vi_id v' = vi_id v \<Longrightarrow> vm_typed cfg v' = vm_typed cfg v"
  by (simp add: ident_def vm_typed_def)

lemma new_vm_typed:
  assumes "Supported (sp_Language sp)" and "Profile_Validate (sp_Limits sp) = None"
    and "ident v = ident (new_vm cfg sp (vm_name k) (choose_cid reco (next_cid c)) :: 'n vm)"
  shows "vm_typed cfg v"
  using assms next_cid_reserved [of c]
  by (auto simp: vm_typed_def ident_def new_vm_def Let_def vm_name_legal choose_cid_def split: option.split)

lemma FC_Boot_guard:
  assumes "FC_Boot E cfg deps ctx sp s = (s', x)" and "fs_vms s' \<noteq> fs_vms s"
  shows "Supported (sp_Language sp)" "Profile_Validate (sp_Limits sp) = None"
  using assms by (auto simp: FC_Boot_def split: if_splits option.splits)

context quiet_deps
begin

lemma bootOne_new:
  assumes "bootOne E cfg deps ctx sp reco s = (s', x)"
  shows "fs_vms s' = fs_vms s \<or> (\<exists>v. fs_vms s' = fs_vms s @ [v]
    \<and> ident v = ident (new_vm cfg sp (vm_name (fs_seq s + 1)) (choose_cid reco (next_cid (fs_cids s))) :: 'n vm))"
proof -
  obtain w y where b: "boot_vm E cfg deps ctx sp reco (vm_name (fs_seq s + 1)) (choose_cid reco (next_cid (fs_cids s))) (fs_host s) = (w, y)"
    by fastforce
  show ?thesis
    using assms b boot_vm_accounts [OF b order.refl order.refl]
    by (auto simp: bootOne_def Let_def split: call.splits sum.splits)
qed

lemma FC_Boot_typed:
  assumes "FC_Boot E cfg deps ctx sp s = (s', x)" and "list_all (vm_typed cfg) (fs_vms s)"
  shows "list_all (vm_typed cfg) (fs_vms s')"
proof (cases "fs_vms s' = fs_vms s")
  case False
  note g = FC_Boot_guard [OF assms(1) False]
  have one: "list_all (vm_typed cfg) (fs_vms b)" if "bootOne E cfg deps ctx sp reco a = (b, y)" and "list_all (vm_typed cfg) (fs_vms a)" for reco a b y
    using bootOne_new [OF that(1)] that(2) new_vm_typed [OF g] by auto
  show ?thesis
    by (rule FC_Boot_cases [OF assms(1)]) (use assms(2) in \<open>auto simp: same_def dest!: one\<close>)
qed (use assms(2) in simp)

lemma FC_Execute_typed:
  assumes "FC_Execute E deps ctx i req s = (s', x)" and "list_all (vm_typed cfg) (fs_vms s)"
  shows "list_all (vm_typed cfg) (fs_vms s')"
  using assms vm_Execute_calm typed_ident
  by (fastforce simp: FC_Execute_def list_all_length nth_list_update ident_def split: if_splits prod.splits)

lemma FC_Destroy_typed:
  assumes "FC_Destroy E deps ctx i s = (s', x)" and "list_all (vm_typed cfg) (fs_vms s)"
  shows "list_all (vm_typed cfg) (fs_vms s')"
  using assms by (auto simp: FC_Destroy_def vm_Destroy_def vm_typed_def list_all_length nth_list_update split: if_splits prod.splits)

lemma fc_step_typed: "fc_step E cfg deps s s' \<Longrightarrow> list_all (vm_typed cfg) (fs_vms s) \<Longrightarrow> list_all (vm_typed cfg) (fs_vms s')"
  by (erule fc_stepE) (auto intro: FC_Boot_typed FC_Execute_typed FC_Destroy_typed)

lemma fc_reach_typed: "(fc_step E cfg deps)\<^sup>*\<^sup>* s s' \<Longrightarrow> list_all (vm_typed cfg) (fs_vms s) \<Longrightarrow> list_all (vm_typed cfg) (fs_vms s')"
  by (induction rule: rtranclp_induct) (auto intro: fc_step_typed)

end

section \<open>Property\<close>

text \<open>
  C9. Every machine in every reachable state of the backend is well-formed: a supported language,
  validated limits, an id that the jailer accepts, a context id that is not reserved, and the agent's
  port, which is not zero.
\<close>

theorem machines_well_formed:
  assumes "NewFirecrackerWithConfig E sc cfg (wire E u t cg st pool) w = (c, deps, s0)"
    and "(fc_step E c deps)\<^sup>*\<^sup>* s0 s"
  shows "list_all (vm_typed c) (fs_vms s) \<and> fc_AgentPort c \<noteq> 0"
proof -
  obtain st' pool' where d: "deps = wire E u t cg st' pool'" using New_wired(1) [OF assms(1)] by blast
  have "list_all (vm_typed c) (fs_vms s)" using wired.fc_reach_typed assms(2) New_wired(3) [OF assms(1)] unfolding d by fastforce
  then show ?thesis using New_wired(2) [OF assms(1)] by (simp add: fill_config_def DefaultPort_def)
qed

theorem machines_well_formed_witness:
  "vm_typed session_cfg (fs_vms two_machines ! 0) \<and> vi_id (fs_vms two_machines ! 0) = ''fc-1''"
proof -
  obtain v1 v2 where "fs_vms two_machines = [v1, v2]" "vi_id v1 = ''fc-1''" using two_machines_vms by (auto simp: map_eq_Cons_conv)
  then show ?thesis using machines_well_formed [OF session_new relpowp_imp_rtranclp [OF two_machines_run]] by simp
qed

end
