(* ===== verification/FC_Reaper.thy ===== *)
theory FC_Reaper
  imports FC_Props
begin

text \<open>
  The end of a VMM process. A goroutine (\<open>reap\<close>) waits for the process from its start, stores its
  exit status and closes the channel \<open>exited\<close>; any number of goroutines may call \<open>Destroy\<close>, of which
  the compare-and-swap of \<open>dead\<close> lets one pass: it asks the guest to shut down, waits two seconds for
  the channel, kills the process group if they are over, and waits for the channel without a limit
  (\<open>wait\<close>). The process may exit at any time, and the kill may fail. Every interleaving ends; unless a
  kill failed, it ends with one caller that has seen the status of the process, and with the events
  that \<open>end_vmm\<close> gives to a teardown.
\<close>

section \<open>The processes\<close>

datatype vmm_proc = Running | Zombie "gerr option" | Reaped "gerr option"

text \<open>Where \<open>reap\<close> is: in \<open>cmd.Wait\<close>, before the store of its result, before the close.\<close>

datatype reaper = InWait | Storing "gerr option" | Closing | ReapDone

text \<open>Where a caller of \<open>Destroy\<close> is. \<open>Past e\<close>: \<open>wait\<close> has returned \<open>e\<close>, the VMM is gone.\<close>

datatype destroyer = Called | Asking | Selecting | Killing | Awaiting | Past "gerr option" | Refused

record vmm_state =
  vp_proc :: vmm_proc
  vp_reaper :: reaper
  vp_waitErr :: "gerr option"
  vp_exited :: bool
  vp_dead :: bool
  vp_calls :: "destroyer list"
  vp_trace :: "fc_event list"

definition started :: "nat \<Rightarrow> vmm_state" where
  "started n = \<lparr>vp_proc = Running, vp_reaper = InWait, vp_waitErr = None, vp_exited = False, vp_dead = False,
     vp_calls = replicate n Called, vp_trace = []\<rparr>"

definition moves :: "vmm_state \<Rightarrow> nat \<Rightarrow> destroyer \<Rightarrow> fc_event list \<Rightarrow> vmm_state" where
  "moves s i c es = s\<lparr>vp_calls := (vp_calls s)[i := c], vp_trace := vp_trace s @ es\<rparr>"

abbreviation at :: "vmm_state \<Rightarrow> nat \<Rightarrow> destroyer \<Rightarrow> bool" where
  "at s i c \<equiv> i < length (vp_calls s) \<and> vp_calls s ! i = c"

definition shutdown_request :: "bool \<Rightarrow> fc_event list" where
  "shutdown_request client = (if client then [EApi sendCtrlAltDel] else [])"

section \<open>The steps\<close>

inductive reap_step :: "vmm_state \<Rightarrow> vmm_state \<Rightarrow> bool" where
  waited: "vp_proc s = Zombie e \<Longrightarrow> vp_reaper s = InWait \<Longrightarrow> reap_step s (s\<lparr>vp_proc := Reaped e, vp_reaper := Storing e\<rparr>)"
| stored: "vp_reaper s = Storing e \<Longrightarrow> reap_step s (s\<lparr>vp_waitErr := e, vp_reaper := Closing\<rparr>)"
| closed: "vp_reaper s = Closing \<Longrightarrow> reap_step s (s\<lparr>vp_exited := True, vp_reaper := ReapDone\<rparr>)"

text \<open>A kill reaches the process only while it runs; the result of the signal, \<open>r\<close>, is ignored by the code.\<close>

definition killed_by :: "gerr option \<Rightarrow> gerr option \<Rightarrow> vmm_proc \<Rightarrow> vmm_proc" where
  "killed_by r e p = (if p = Running \<and> r = None then Zombie e else p)"

inductive destroy_step :: "int \<Rightarrow> bool \<Rightarrow> vmm_state \<Rightarrow> vmm_state \<Rightarrow> bool" for pid client where
  swapped: "at s i Called \<Longrightarrow> \<not> vp_dead s \<Longrightarrow> destroy_step pid client s ((moves s i Asking [])\<lparr>vp_dead := True\<rparr>)"
| refused: "at s i Called \<Longrightarrow> vp_dead s \<Longrightarrow> destroy_step pid client s (moves s i Refused [])"
| asked: "at s i Asking \<Longrightarrow> destroy_step pid client s (moves s i Selecting (shutdown_request client))"
| timed_out: "at s i Selecting \<Longrightarrow> destroy_step pid client s (moves s i Killing [])"
| seen: "at s i Selecting \<Longrightarrow> vp_exited s \<Longrightarrow> destroy_step pid client s (moves s i Awaiting [])"
| killed: "at s i Killing \<Longrightarrow>
    destroy_step pid client s ((moves s i Awaiting [EKill pid r])\<lparr>vp_proc := killed_by r e (vp_proc s)\<rparr>)"
| woken: "at s i Awaiting \<Longrightarrow> vp_exited s \<Longrightarrow> destroy_step pid client s (moves s i (Past (vp_waitErr s)) [EWait pid])"

text \<open>The program's steps, and with them the exit of the process for a reason of its own.\<close>

definition vmm_moves :: "int \<Rightarrow> bool \<Rightarrow> vmm_state \<Rightarrow> vmm_state \<Rightarrow> bool" where
  "vmm_moves pid client s s' = (reap_step s s' \<or> destroy_step pid client s s')"

inductive vmm_step :: "int \<Rightarrow> bool \<Rightarrow> vmm_state \<Rightarrow> vmm_state \<Rightarrow> bool" for pid client where
  exits: "vp_proc s = Running \<Longrightarrow> vmm_step pid client s (s\<lparr>vp_proc := Zombie e\<rparr>)"
| reaps: "reap_step s s' \<Longrightarrow> vmm_step pid client s s'"
| destroys: "destroy_step pid client s s' \<Longrightarrow> vmm_step pid client s s'"

inductive_cases reap_stepE: "reap_step s s'"
inductive_cases destroy_stepE: "destroy_step pid client s s'"
inductive_cases vmm_stepE: "vmm_step pid client s s'"

section \<open>Every run ends\<close>

fun proc_left :: "vmm_proc \<Rightarrow> nat" where
  "proc_left Running = 1"
| "proc_left _ = 0"

fun reaper_left :: "reaper \<Rightarrow> nat" where
  "reaper_left InWait = 3"
| "reaper_left (Storing e) = 2"
| "reaper_left Closing = 1"
| "reaper_left ReapDone = 0"

fun call_left :: "destroyer \<Rightarrow> nat" where
  "call_left Called = 5"
| "call_left Asking = 4"
| "call_left Selecting = 3"
| "call_left Killing = 2"
| "call_left Awaiting = 1"
| "call_left _ = 0"

definition steps_left :: "vmm_state \<Rightarrow> nat" where
  "steps_left s = proc_left (vp_proc s) + reaper_left (vp_reaper s) + sum_list (map call_left (vp_calls s))"

lemma steps_left_dead [simp]: "steps_left (s\<lparr>vp_dead := b\<rparr>) = steps_left s"
  by (simp add: steps_left_def)

lemma steps_left_killed: "steps_left (moves s i c es\<lparr>vp_proc := killed_by r e (vp_proc s)\<rparr>) \<le> steps_left (moves s i c es)"
  by (cases "vp_proc s") (simp_all add: steps_left_def killed_by_def moves_def)

lemma moves_left:
  assumes "at s i c" and "call_left c' < call_left c"
  shows "steps_left (moves s i c' es) < steps_left s"
proof -
  have "i < length (map call_left (vp_calls s))" "map call_left (vp_calls s) ! i = call_left c" using assms by auto
  then show ?thesis
    using elem_le_sum_list [of i "map call_left (vp_calls s)"] assms(2) by (simp add: steps_left_def moves_def map_update sum_list_update)
qed

lemma moves_killed_left:
  "at s i c \<Longrightarrow> call_left c' < call_left c \<Longrightarrow> steps_left (moves s i c' es\<lparr>vp_proc := killed_by r e (vp_proc s)\<rparr>) < steps_left s"
  by (rule le_less_trans [OF steps_left_killed moves_left])

lemma destroy_step_left: "destroy_step pid client s s' \<Longrightarrow> steps_left s' < steps_left s"
  by (erule destroy_stepE) (auto intro: moves_left moves_killed_left)

lemma vmm_step_left: "vmm_step pid client s s' \<Longrightarrow> steps_left s' < steps_left s"
  by (erule vmm_stepE) (auto simp: steps_left_def elim: reap_stepE dest: destroy_step_left)

lemma vmm_run_left: "(vmm_step pid client ^^ k) s s' \<Longrightarrow> k + steps_left s' \<le> steps_left s"
proof (induction k arbitrary: s')
  case (Suc k)
  then obtain t where "(vmm_step pid client ^^ k) s t" "vmm_step pid client t s'" by auto
  then show ?case using Suc.IH vmm_step_left by fastforce
qed simp

lemma steps_left_started: "steps_left (started n) = 5 * n + 4"
  by (simp add: steps_left_def started_def sum_list_replicate)

section \<open>The invariant\<close>

text \<open>What the reaper has done, and what is known of the process at each of its points.\<close>

definition reaper_ok :: "vmm_state \<Rightarrow> bool" where
  "reaper_ok s = (vp_exited s = (vp_reaper s = ReapDone) \<and> (case vp_reaper s of
       InWait \<Rightarrow> \<forall>e. vp_proc s \<noteq> Reaped e
     | Storing e \<Rightarrow> vp_proc s = Reaped e
     | _ \<Rightarrow> vp_proc s = Reaped (vp_waitErr s)))"

text \<open>What the caller that has passed the compare-and-swap knows and has done.\<close>

definition kill_events :: "int \<Rightarrow> gerr option option \<Rightarrow> fc_event list" where
  "kill_events pid b = (case b of None \<Rightarrow> [] | Some r \<Rightarrow> [EKill pid r])"

fun owner_ok :: "int \<Rightarrow> bool \<Rightarrow> vmm_proc \<Rightarrow> fc_event list \<Rightarrow> destroyer \<Rightarrow> bool" where
  "owner_ok pid client p tr Asking = (tr = [])"
| "owner_ok pid client p tr Selecting = (tr = shutdown_request client)"
| "owner_ok pid client p tr Killing = (tr = shutdown_request client)"
| "owner_ok pid client p tr Awaiting = (\<exists>b. tr = shutdown_request client @ kill_events pid b \<and> (p \<noteq> Running \<or> (\<exists>e. b = Some (Some e))))"
| "owner_ok pid client p tr (Past e) = (p = Reaped e \<and> (\<exists>b. tr = shutdown_request client @ kill_events pid b @ [EWait pid]))"
| "owner_ok pid client p tr _ = False"

definition calls_ok :: "int \<Rightarrow> bool \<Rightarrow> vmm_state \<Rightarrow> bool" where
  "calls_ok pid client s =
     (if vp_dead s then \<exists>i < length (vp_calls s). owner_ok pid client (vp_proc s) (vp_trace s) (vp_calls s ! i)
        \<and> (\<forall>j < length (vp_calls s). j \<noteq> i \<longrightarrow> vp_calls s ! j = Called \<or> vp_calls s ! j = Refused)
      else (\<forall>c \<in> set (vp_calls s). c = Called) \<and> vp_trace s = [])"

definition vmm_inv :: "nat \<Rightarrow> int \<Rightarrow> bool \<Rightarrow> vmm_state \<Rightarrow> bool" where
  "vmm_inv n pid client s = (length (vp_calls s) = n \<and> reaper_ok s \<and> calls_ok pid client s)"

lemma vmm_inv_started: "vmm_inv n pid client (started n)"
  by (simp add: vmm_inv_def started_def reaper_ok_def calls_ok_def)

text \<open>A process that has ended stays ended, and with its status.\<close>

definition later :: "vmm_proc \<Rightarrow> vmm_proc \<Rightarrow> bool" where
  "later p p' = ((p \<noteq> Running \<longrightarrow> p' \<noteq> Running) \<and> (\<forall>e. p = Reaped e \<longrightarrow> p' = Reaped e))"

lemma owner_later: "owner_ok pid client p tr c \<Longrightarrow> later p p' \<Longrightarrow> owner_ok pid client p' tr c"
  by (cases c) (auto simp: later_def)

lemma calls_later:
  "calls_ok pid client s \<Longrightarrow> later (vp_proc s) (vp_proc s') \<Longrightarrow> vp_calls s' = vp_calls s \<Longrightarrow> vp_dead s' = vp_dead s
    \<Longrightarrow> vp_trace s' = vp_trace s \<Longrightarrow> calls_ok pid client s'"
  using owner_later unfolding calls_ok_def by metis

text \<open>A caller that is neither before nor refused by the compare-and-swap is the one that owns the VMM.\<close>

lemma owner_moves:
  assumes "calls_ok pid client s" and "at s i c" and "c \<noteq> Called" and "c \<noteq> Refused"
  shows "vp_dead s" "owner_ok pid client (vp_proc s) (vp_trace s) c"
    and "owner_ok pid client p (vp_trace s @ es) c' \<Longrightarrow> calls_ok pid client (moves s i c' es\<lparr>vp_proc := p\<rparr>)"
proof -
  show d: "vp_dead s" using assms by (auto simp: calls_ok_def split: if_splits)
  then obtain j where j: "j < length (vp_calls s)" "owner_ok pid client (vp_proc s) (vp_trace s) (vp_calls s ! j)"
    "\<forall>k < length (vp_calls s). k \<noteq> j \<longrightarrow> vp_calls s ! k = Called \<or> vp_calls s ! k = Refused"
    using assms(1) by (auto simp: calls_ok_def)
  with assms have "j = i" by auto
  with j assms(2) show "owner_ok pid client (vp_proc s) (vp_trace s) c" by simp
  assume "owner_ok pid client p (vp_trace s @ es) c'"
  with d j \<open>j = i\<close> show "calls_ok pid client (moves s i c' es\<lparr>vp_proc := p\<rparr>)"
    by (auto simp: calls_ok_def moves_def nth_list_update intro!: exI [of _ i])
qed

lemma reaper_calls [simp]:
  "reaper_ok (s\<lparr>vp_calls := cs\<rparr>) = reaper_ok s" "reaper_ok (s\<lparr>vp_trace := tr\<rparr>) = reaper_ok s"
  "reaper_ok (s\<lparr>vp_dead := b\<rparr>) = reaper_ok s"
  by (auto simp: reaper_ok_def split: reaper.splits)

lemma reaper_exit: "reaper_ok s \<Longrightarrow> vp_proc s = Running \<Longrightarrow> reaper_ok (s\<lparr>vp_proc := Zombie e\<rparr>)"
  by (auto simp: reaper_ok_def split: reaper.splits)

lemma exited_status: "reaper_ok s \<Longrightarrow> vp_exited s \<Longrightarrow> vp_proc s = Reaped (vp_waitErr s)"
  by (simp add: reaper_ok_def split: reaper.splits)

lemma reap_step_inv:
  assumes "reap_step s s'" and "vmm_inv n pid client s"
  shows "vmm_inv n pid client s'"
proof -
  have c: "calls_ok pid client s" and r: "reaper_ok s" and l: "length (vp_calls s) = n" using assms(2) by (simp_all add: vmm_inv_def)
  from assms(1) show ?thesis
  proof cases
    case (waited e)
    then have "calls_ok pid client s'" by (intro calls_later [OF c]) (auto simp: later_def)
    with waited r l show ?thesis by (auto simp: vmm_inv_def reaper_ok_def)
  next
    case (stored e)
    then have "calls_ok pid client s'" by (intro calls_later [OF c]) (auto simp: later_def)
    with stored r l show ?thesis by (auto simp: vmm_inv_def reaper_ok_def)
  next
    case closed
    then have "calls_ok pid client s'" by (intro calls_later [OF c]) (auto simp: later_def)
    with closed r l show ?thesis by (auto simp: vmm_inv_def reaper_ok_def)
  qed
qed

lemma killed_reaper: "reaper_ok s \<Longrightarrow> reaper_ok (s\<lparr>vp_proc := killed_by r e (vp_proc s)\<rparr>)"
  by (auto simp: reaper_ok_def killed_by_def split: reaper.splits)

lemma destroy_step_inv:
  assumes "destroy_step pid client s s'" and "vmm_inv n pid client s"
  shows "vmm_inv n pid client s'"
proof -
  have c: "calls_ok pid client s" and r: "reaper_ok s" and l: "length (vp_calls s) = n" using assms(2) by (simp_all add: vmm_inv_def)
  have m: "vmm_inv n pid client (moves s i c' es)" if "calls_ok pid client (moves s i c' es)" for i c' es
    using that r l by (simp add: vmm_inv_def moves_def)
  have o: "vmm_inv n pid client (moves s i c' es)"
    if "at s i c0" "c0 \<noteq> Called" "c0 \<noteq> Refused" "owner_ok pid client (vp_proc s) (vp_trace s @ es) c'" for i c0 c' es
    using m owner_moves(3) [OF c that] by (simp add: moves_def)
  from assms(1) show ?thesis
  proof cases
    case (swapped i)
    then have "calls_ok pid client s'" using c by (auto simp: calls_ok_def moves_def nth_list_update intro!: exI [of _ i])
    with swapped r l show ?thesis by (simp add: vmm_inv_def moves_def)
  next
    case (refused i)
    then obtain j where "j < length (vp_calls s)" "owner_ok pid client (vp_proc s) (vp_trace s) (vp_calls s ! j)"
      "\<forall>k < length (vp_calls s). k \<noteq> j \<longrightarrow> vp_calls s ! k = Called \<or> vp_calls s ! k = Refused" using c by (auto simp: calls_ok_def)
    with refused have "calls_ok pid client s'" by (auto simp: calls_ok_def moves_def nth_list_update intro!: exI [of _ j])
    with refused m show ?thesis by blast
  next
    case (asked i)
    then show ?thesis using o [of i Asking] owner_moves(2) [OF c, of i Asking] by simp
  next
    case (timed_out i)
    then show ?thesis using o [of i Selecting] owner_moves(2) [OF c, of i Selecting] by simp
  next
    case (seen i)
    then have "owner_ok pid client (vp_proc s) (vp_trace s) Awaiting"
      using owner_moves(2) [OF c, of i Selecting] exited_status [OF r] by (auto simp: kill_events_def intro!: exI [of _ None])
    with seen show ?thesis using o [of i Selecting] by simp
  next
    case (killed i r' e)
    have "calls_ok pid client s'" unfolding killed(1)
      using killed owner_moves(2) [OF c, of i Killing]
      by (intro owner_moves(3) [OF c, of i Killing]) (auto simp: killed_by_def kill_events_def intro!: exI [of _ "Some r'"])
    moreover have "reaper_ok s'" unfolding killed(1) using killed_reaper [of "moves s i Awaiting [EKill pid r']" r' e] r by (simp add: moves_def)
    ultimately show ?thesis using killed l by (simp add: vmm_inv_def moves_def)
  next
    case (woken i)
    then show ?thesis using o [of i Awaiting] owner_moves(2) [OF c, of i Awaiting] exited_status [OF r] by fastforce
  qed
qed

lemma vmm_step_inv: "vmm_step pid client s s' \<Longrightarrow> vmm_inv n pid client s \<Longrightarrow> vmm_inv n pid client s'"
proof (erule vmm_stepE)
  fix e assume "vmm_inv n pid client s" and "s' = s\<lparr>vp_proc := Zombie e\<rparr>" and "vp_proc s = Running"
  then show "vmm_inv n pid client s'"
    using calls_later [of pid client s s'] by (auto simp: vmm_inv_def later_def reaper_exit)
qed (auto intro: reap_step_inv destroy_step_inv)

lemma vmm_run_inv: "(vmm_step pid client ^^ k) s s' \<Longrightarrow> vmm_inv n pid client s \<Longrightarrow> vmm_inv n pid client s'"
  by (induction k arbitrary: s') (auto intro: vmm_step_inv)

section \<open>No caller is left waiting\<close>

lemma reap_progress: "vp_proc s \<noteq> Running \<Longrightarrow> reaper_ok s \<Longrightarrow> \<not> vp_exited s \<Longrightarrow> \<exists>s'. reap_step s s'"
  by (cases "vp_reaper s"; cases "vp_proc s") (auto simp: reaper_ok_def intro: reap_step.intros)

lemma call_progress:
  assumes "vmm_inv n pid client s" and "at s i c" and "\<forall>e. c \<noteq> Past e" and "c \<noteq> Refused" and "unkilled (vp_trace s) = {}"
  shows "\<exists>s'. vmm_moves pid client s s'"
proof -
  have "\<exists>s'. vmm_moves pid client s s'" if "c = Awaiting"
  proof (cases "vp_exited s")
    case False
    have "vp_proc s \<noteq> Running"
      using owner_moves(2) [of pid client s i c] assms(1,2,5) that by (auto simp: vmm_inv_def unkilled_def kill_events_def split: option.splits) blast
    then show ?thesis using reap_progress False assms(1) by (auto simp: vmm_inv_def vmm_moves_def)
  qed (use assms(2) that in \<open>auto simp: vmm_moves_def intro: destroy_step.woken\<close>)
  moreover have "\<exists>s'. vmm_moves pid client s s'" if "c = Called"
    using assms(2) that by (cases "vp_dead s") (auto simp: vmm_moves_def intro: destroy_step.intros)
  ultimately show ?thesis using assms(2-4) by (cases c) (auto simp: vmm_moves_def intro: destroy_step.intros)
qed

text \<open>When the program has no step left, the VMM has been waited for by one caller and the others are refused.\<close>

lemma vmm_settled:
  assumes "vmm_inv n pid client s" and "0 < n" and "\<forall>s'. \<not> vmm_moves pid client s s'" and "unkilled (vp_trace s) = {}"
  shows "\<exists>i e b. i < n \<and> vp_calls s ! i = Past e \<and> vp_proc s = Reaped e \<and> (\<forall>j < n. j \<noteq> i \<longrightarrow> vp_calls s ! j = Refused)
    \<and> vp_trace s = shutdown_request client @ kill_events pid b @ [EWait pid]"
proof -
  have n: "length (vp_calls s) = n" using assms(1) by (simp add: vmm_inv_def)
  have f: "(\<exists>e. vp_calls s ! i = Past e) \<or> vp_calls s ! i = Refused" if "i < n" for i
    using call_progress [OF assms(1) _ _ _ assms(4), of i] assms(3) that n by blast
  have "vp_dead s" using f [OF assms(2)] assms(1,2) n by (auto simp: vmm_inv_def calls_ok_def all_set_conv_all_nth split: if_splits)
  then obtain i where i: "i < n" "owner_ok pid client (vp_proc s) (vp_trace s) (vp_calls s ! i)"
    and o: "\<forall>j < n. j \<noteq> i \<longrightarrow> vp_calls s ! j = Called \<or> vp_calls s ! j = Refused"
    using assms(1) n by (auto simp: vmm_inv_def calls_ok_def)
  from i f [of i] obtain e where "vp_calls s ! i = Past e" by auto
  with i o f show ?thesis by (intro exI [of _ i] exI [of _ e]) fastforce
qed

text \<open>The events are those of the sequential teardown, for one of its environments.\<close>

lemma end_vmm_events:
  assumes "vi_pid v = Some pid" and "vi_client v = client"
  shows "\<exists>exits kills. h_trace (end_vmm (E\<lparr>fe_exits := exits, fe_kill := kills\<rparr>) v (ctrl_alt_del (E\<lparr>fe_exits := exits, fe_kill := kills\<rparr>) v w))
     = h_trace w @ shutdown_request client @ kill_events pid b @ [EWait pid]"
  using assms by (intro exI [of _ "\<lambda>_. b = None"] exI [of _ "\<lambda>_ _. the b"])
    (auto simp: end_vmm_trace ctrl_alt_del_trace shutdown_request_def kill_events_def split: option.split)

section \<open>Property\<close>


text \<open>Two calls on a VMM that does not exit by itself: the first kills it, the second is refused.\<close>

definition two_done :: vmm_state where
  "two_done = \<lparr>vp_proc = Reaped None, vp_reaper = ReapDone, vp_waitErr = None, vp_exited = True, vp_dead = True,
     vp_calls = [Past None, Refused], vp_trace = [EKill 42 None, EWait 42]\<rparr>"

lemma then_destroys: "destroy_step pid client s t \<Longrightarrow> (vmm_step pid client)\<^sup>*\<^sup>* t u \<Longrightarrow> (vmm_step pid client)\<^sup>*\<^sup>* s u"
  by (meson converse_rtranclp_into_rtranclp vmm_step.destroys)

lemma then_reaps: "reap_step s t \<Longrightarrow> (vmm_step pid client)\<^sup>*\<^sup>* t u \<Longrightarrow> (vmm_step pid client)\<^sup>*\<^sup>* s u"
  by (meson converse_rtranclp_into_rtranclp vmm_step.reaps)

lemma two_calls_run: "(vmm_step 42 False)\<^sup>*\<^sup>* (started 2) two_done"
  unfolding two_done_def started_def
  apply (rule then_destroys [OF destroy_step.swapped [where i = 0]]; simp add: moves_def numeral_2_eq_2)
  apply (rule then_destroys [OF destroy_step.refused [where i = 1]]; simp add: moves_def)
  apply (rule then_destroys [OF destroy_step.asked [where i = 0]]; simp add: moves_def shutdown_request_def)
  apply (rule then_destroys [OF destroy_step.timed_out [where i = 0]]; simp add: moves_def)
  apply (rule then_destroys [OF destroy_step.killed [where i = 0 and r = None and e = None]]; simp add: moves_def killed_by_def)
  apply (rule then_reaps [OF reap_step.waited]; simp)
  apply (rule then_reaps [OF reap_step.stored]; simp)
  apply (rule then_reaps [OF reap_step.closed]; simp)
  apply (rule then_destroys [OF destroy_step.woken [where i = 0]]; simp add: moves_def)
  done


end
