(* ===== verification/FC_Session.thy ===== *)
theory FC_Session
  imports FC_Separation
begin

text \<open>
  What the machines of one session share. Outside the jailer a machine that is booted cold for a
  session has its disk and its vsock socket in the directory of the session, whose name depends on the
  session alone; nothing keeps a second machine of the session from being booted while one runs.
\<close>

section \<open>Where the disk of a session is\<close>

definition place :: "'n vm \<Rightarrow> snap_record option \<times> string \<times> string" where
  "place v = (vi_snapRec v, vi_hostRootfs v, vi_vsockUDS v)"

text \<open>After the paths are prepared, no stage of a cold boot changes the place.\<close>

lemma keeps_place:
  "keeps (\<lambda>l. place (la_vm l)) (check_disk sp)"
  "keeps (\<lambda>l. place (la_vm l)) (setup_tap deps sp)"
  "keeps (\<lambda>l. place (la_vm l)) (start_vmm E cfg fmt)"
  "keeps (\<lambda>l. place (la_vm l)) (attachCgroup deps sp)"
  "keeps (\<lambda>l. place (la_vm l)) (wait_socket E fmt mk ctx path mx)"
  "keeps (\<lambda>l. place (la_vm l)) set_client"
  "keeps (\<lambda>l. place (la_vm l)) (\<lambda>l. whileAlive E (c l) (calls l) l)"
  "keeps (\<lambda>l. place (la_vm l)) (wait_agent E cfg t0 ctx)"
  by (rule keepsI; auto simp: place_def stage_defs split: prod.splits sum.splits option.splits if_splits; fail)+

lemma keeps_place_or_kill: "keeps (\<lambda>l. place (la_vm l)) f \<Longrightarrow> keeps (\<lambda>l. place (la_vm l)) (or_kill E f)"
  by (rule keepsI) (auto simp: or_kill_def kill_def place_def split: prod.splits option.splits dest!: keepsD)

lemma keeps_place_guest: "keeps (\<lambda>l. place (la_vm l)) (wait_guest E cfg ctx)"
proof -
  have "keeps (\<lambda>l. place (la_vm l)) (stages [or_kill E (wait_socket E fmt mk ctx path mx), or_kill E (wait_agent E cfg t0 ctx)])" for fmt mk path mx t0
    by (rule keeps_stages) (auto intro: keeps_place_or_kill keeps_place)
  note s = this [unfolded keeps_def, rule_format]
  show ?thesis unfolding keeps_def wait_guest_def Let_def by (intro allI) (rule s)
qed

definition session_place :: "snap_record \<Rightarrow> snap_record option \<times> string \<times> string" where
  "session_place rec = (Some rec, sr_RootfsPath rec, path_join [sr_Path rec, ''v.sock''])"

lemma prepare_open_place:
  "sr_RootfsPath rec \<noteq> [] \<Longrightarrow>
     triple (\<lambda>l. vi_snapRec (la_vm l) = Some rec) (prepare_open E cfg deps src) (\<lambda>l. place (la_vm l) = session_place rec) (\<lambda>_. True)"
  by (rule tripleI) (auto simp: prepare_open_def session_disk_def place_def session_place_def Let_def split: prod.splits option.splits if_splits)

lemma launch_place:
  assumes "fc_Jailer cfg = []" and "sr_RootfsPath rec \<noteq> []"
  shows "triple (\<lambda>l. vi_snapRec (la_vm l) = Some rec) (launch E cfg deps ctx sp) (\<lambda>l. place (la_vm l) = session_place rec) (\<lambda>_. True)"
proof -
  have k: "triple (\<lambda>l. place (la_vm l) = session_place rec) (stages fs) (\<lambda>l. place (la_vm l) = session_place rec) (\<lambda>_. True)"
    if "\<And>f. f \<in> set fs \<Longrightarrow> keeps (\<lambda>l. place (la_vm l)) f" for fs
    using keeps_triple [OF keeps_stages [OF that], of fs "\<lambda>p. p = session_place rec"] by (rule triple_weaken) auto
  show ?thesis
    unfolding launch_def preparePaths_def preparePathsFrom_def using assms(1)
    by (simp only: if_False simp_thms, intro stages_Cons [OF prepare_open_place [OF assms(2)]] k)
      (auto intro: keeps_place_or_kill keeps_place keeps_place_guest)
qed

lemma launch_no_record: "stays (\<lambda>l. vi_snapRec (la_vm l) = None) (run_launch E cfg deps ctx sp None)"
proof (rule run_launch_stays)
  fix f assume "basic_stage E cfg deps sp None f"
  then show "stays (\<lambda>l. vi_snapRec (la_vm l) = None) f"
    by (cases rule: basic_stage.cases; intro staysI; auto simp: stage_defs split: prod.splits sum.splits option.splits if_splits)
qed (auto simp: kill_def split: option.split)

section \<open>A cold boot of a session\<close>

definition session_dir :: "string \<Rightarrow> string \<Rightarrow> string" where
  "session_dir root sid = path_join [root, sid]"

lemma sessionDir_dir: "sessionDir root sid = Inr dir \<Longrightarrow> dir = session_dir root sid \<and> dir \<noteq> []"
  by (auto simp: sessionDir_Inr session_dir_def path_join_nonempty)

lemma boot_vm_place:
  assumes "boot_vm E cfg deps ctx sp None vid cid w = (w', Ret (Inr v))" and "fc_Jailer cfg = []"
    and "fd_Snapshots deps = Some (store_interface sc root)" and "vi_snapRec v \<noteq> None"
  shows "vi_hostRootfs v = path_join [session_dir root (sp_SessionID sp), ''rootfs.ext4'']
    \<and> vi_vsockUDS v = path_join [session_dir root (sp_SessionID sp), ''v.sock''] \<and> \<not> vi_dead v"
proof -
  obtain w1 w2 r0 l where f: "first_record deps sp vid None w1 = (w2, Inr r0)"
    and l: "run_launch E cfg deps ctx sp None (start_launch cfg ((new_vm cfg sp vid cid)\<lparr>vi_snapRec := r0\<rparr>) w2) = (l, None)"
    and v: "v = la_vm l"
    using assms(1) by (auto simp: boot_vm_def finish_boot_def split: prod.splits option.splits sum.splits if_splits)
  have "r0 \<noteq> None"
  proof
    assume "r0 = None"
    then have "vi_snapRec (la_vm l) = None" using staysD [OF launch_no_record _ l] by (simp add: start_launch_def)
    with assms(4) v show False by simp
  qed
  then obtain rec where r0: "r0 = Some rec" by blast
  with f assms(3) obtain s s' where d: "DirStore_Prepare root (sp_SessionID sp) vid s = (s', Inr rec)"
    by (auto simp: first_record_def store_interface_def on_fs_def split: prod.splits sum.splits if_splits)
  then have rec: "sr_Path rec = session_dir root (sp_SessionID sp)" "sr_RootfsPath rec = path_join [session_dir root (sp_SessionID sp), ''rootfs.ext4'']"
    using sessionDir_dir by (auto simp: DirStore_Prepare_def split: sum.splits prod.splits option.splits)
  moreover have "session_dir root (sp_SessionID sp) \<noteq> []" using d sessionDir_dir by (auto simp: DirStore_Prepare_def split: sum.splits)
  ultimately have "sr_RootfsPath rec \<noteq> []" by (simp add: path_join_nonempty path_name_def)
  note p = triple_ok [OF launch_place [OF assms(2) this, of E deps ctx sp]]
  have "place (la_vm l) = session_place rec" by (rule p [OF _ l [unfolded run_launch_def option.case]]) (simp add: start_launch_def r0)
  moreover have "\<not> vi_dead (la_vm l)"
    using staysD [OF run_launch_ident refl l] by (simp add: ident_def start_launch_def new_vm_def Let_def)
  ultimately show ?thesis by (simp add: v place_def session_place_def rec)
qed

section \<open>Two machines of a session\<close>

text \<open>There is no metadata of the session: no snapshot of it has been committed.\<close>

definition uncommitted :: "string \<Rightarrow> string \<Rightarrow> 'n fc_state \<Rightarrow> bool" where
  "uncommitted root sid s = (fs_tree (h_fs (fs_host s)) (path_clean (path_join [session_dir root sid, metaName])) = None)"

lemma Restore_uncommitted:
  assumes "uncommitted root sid s" and "fs_tree (h_fs w) = fs_tree (h_fs (fs_host s))"
  shows "\<exists>w' e. sn_Restore (store_interface sc root) sid w = (w', Inl e)"
proof (cases "sessionDir root sid")
  case (Inr dir)
  then show ?thesis using assms sessionDir_dir [of root sid dir]
    by (auto simp: store_interface_def on_fs_def DirStore_Restore_def uncommitted_def os_ReadFile_def split: option.split)
qed (simp add: store_interface_def on_fs_def DirStore_Restore_def)

lemma FC_Boot_cold:
  assumes "FC_Boot E cfg deps ctx sp s = (s', Ret (Inr i))" and "fd_Snapshots deps = Some (store_interface sc root)"
    and "uncommitted root (sp_SessionID sp) s"
  shows "\<exists>s1. fs_vms s1 = fs_vms s \<and> bootOne E cfg deps ctx sp None s1 = (s', Ret (Inr i))"
proof -
  obtain s0 r where c: "on_state (on_fs (Config_Validate cfg)) s = (s0, r)" by fastforce
  have "fs_tree (fst (Config_Validate cfg f)) = fs_tree f" for f unfolding Config_Validate_def by (rule check_assets_tree)
  with c have t: "fs_tree (h_fs (fs_host s0)) = fs_tree (h_fs (fs_host s))" "fs_vms s0 = fs_vms s"
    by (auto simp: on_state_def on_fs_def case_prod_beta)
  obtain w e where "sn_Restore (store_interface sc root) (sp_SessionID sp) (fs_host s0) = (w, Inl e)"
    using Restore_uncommitted [OF assms(3) t(1)] by blast
  then have "on_state (sn_Restore (store_interface sc root) (sp_SessionID sp)) s0 = (s0\<lparr>fs_host := w\<rparr>, Inl e)" by (simp add: on_state_def)
  note rest = this
  have b: "boot_session E cfg deps ctx sp s0 = (s', Ret (Inr i))" using assms(1) c by (auto simp: FC_Boot_def split: if_splits option.splits)
  show ?thesis
  proof (cases "sp_SessionID sp = []")
    case True
    then show ?thesis using b assms(2) t by (intro exI [of _ s0]) (simp add: boot_session_def)
  next
    case False
    then show ?thesis using b assms(2) t rest by (intro exI [of _ "s0\<lparr>fs_host := w\<rparr>"]) (simp add: boot_session_def split: if_splits)
  qed
qed

lemma cold_boot_place:
  assumes "FC_Boot E cfg deps ctx sp s = (s', Ret (Inr i))" and "fd_Snapshots deps = Some (store_interface sc root)"
    and "uncommitted root (sp_SessionID sp) s" and "fc_Jailer cfg = []" and "vi_snapRec (fs_vms s' ! i) \<noteq> None"
  shows "i = length (fs_vms s) \<and> length (fs_vms s') = Suc i \<and> (\<forall>j < i. fs_vms s' ! j = fs_vms s ! j)
    \<and> vi_hostRootfs (fs_vms s' ! i) = path_join [session_dir root (sp_SessionID sp), ''rootfs.ext4'']
    \<and> vi_vsockUDS (fs_vms s' ! i) = path_join [session_dir root (sp_SessionID sp), ''v.sock''] \<and> \<not> vi_dead (fs_vms s' ! i)"
proof -
  obtain s1 where v1: "fs_vms s1 = fs_vms s" and b: "bootOne E cfg deps ctx sp None s1 = (s', Ret (Inr i))"
    using FC_Boot_cold [OF assms(1-3)] by blast
  obtain v w where bv: "boot_vm E cfg deps ctx sp None (vm_name (fs_seq s1 + 1)) (choose_cid None (next_cid (fs_cids s1))) (fs_host s1) = (w, Ret (Inr v))"
    and s': "fs_vms s' = fs_vms s1 @ [v]" "i = length (fs_vms s1)"
    using b by (auto simp: bootOne_def Let_def split: prod.splits call.splits sum.splits)
  have "vi_snapRec v \<noteq> None" using assms(5) by (simp add: s')
  then show ?thesis using boot_vm_place [OF bv assms(4,2)] v1 by (simp add: s' nth_append)
qed

text \<open>What a step of the backend keeps of the machines that exist.\<close>

definition places :: "'n fc_state \<Rightarrow> (string \<times> string) list" where
  "places s = map (\<lambda>v. snd (place v)) (fs_vms s)"

lemma bootOne_places: "bootOne E cfg deps ctx sp reco s = (s', x) \<Longrightarrow> prefix (places s) (places s')"
  by (auto simp: bootOne_def Let_def places_def split: prod.splits call.splits sum.splits)

lemma saveSnapshot_place: "saveSnapshot E st v w = (v', w', r) \<Longrightarrow> snd (place v') = snd (place v)"
  by (auto simp: saveSnapshot_def place_def Let_def split: sum.splits prod.splits option.splits)

lemma vm_Execute_place: "vm_Execute E deps ctx req v w = (v', w', r) \<Longrightarrow> snd (place v') = snd (place v)"
  by (auto simp: vm_Execute_def maybeSnapshot_def Let_def split: if_splits sum.splits option.splits prod.splits dest!: saveSnapshot_place)

lemma places_update: "snd (place v) = snd (place (fs_vms s ! i)) \<Longrightarrow> places (s\<lparr>fs_vms := (fs_vms s)[i := v], fs_host := w\<rparr>) = places s"
  by (simp add: places_def map_update) (metis list_update_id map_update)

context quiet_deps
begin

lemma FC_Boot_places: "FC_Boot E cfg deps ctx sp s = (s', x) \<Longrightarrow> prefix (places s) (places s')"
proof -
  have p: "same a b \<Longrightarrow> places b = places a" for a b :: "'n fc_state" by (simp add: same_def places_def)
  assume "FC_Boot E cfg deps ctx sp s = (s', x)"
  then show ?thesis
    by (rule FC_Boot_cases) (use p bootOne_places prefix_order.trans in \<open>metis prefix_order.refl\<close>)+
qed

lemma fc_step_places: "fc_step E cfg deps s s' \<Longrightarrow> prefix (places s) (places s')"
proof (erule fc_stepE)
  fix ctx i req x assume "FC_Execute E deps ctx i req s = (s', x)"
  then show "prefix (places s) (places s')"
    by (auto simp: FC_Execute_def places_update split: if_splits prod.splits dest!: vm_Execute_place)
next
  fix ctx i r assume "FC_Destroy E deps ctx i s = (s', r)"
  then show "prefix (places s) (places s')"
    by (auto simp: FC_Destroy_def vm_Destroy_def place_def places_update split: if_splits prod.splits)
qed (auto simp: places_def dest: FC_Boot_places)

lemma fc_reach_places: "(fc_step E cfg deps)\<^sup>*\<^sup>* s s' \<Longrightarrow> prefix (places s) (places s')"
  by (induction rule: rtranclp_induct) (auto dest!: fc_step_places intro: prefix_order.trans)

end

section \<open>Property\<close>

text \<open>
  C36. A session is not protected against its own concurrent requests. Outside the jailer, when a
  machine has been booted cold for a session and, whatever happened since, a second one is booted
  before a snapshot of the session has been committed, both have the same disk file and the same vsock
  socket, and both live if the first has not been destroyed.
\<close>

theorem same_session_shares_disk:
  assumes "deps = wire E u t cg (Some (sc, root)) pool" and "fc_Jailer cfg = []" and "sp_SessionID sp = sid" and "sp_SessionID sp' = sid"
    and "uncommitted root sid s1" and "FC_Boot E cfg deps ctx sp s1 = (s1', Ret (Inr i))" and "vi_snapRec (fs_vms s1' ! i) \<noteq> None"
    and "(fc_step E cfg deps)\<^sup>*\<^sup>* s1' s2" and "i \<in> fc_live s2"
    and "uncommitted root sid s2" and "FC_Boot E cfg deps ctx' sp' s2 = (s2', Ret (Inr j))" and "vi_snapRec (fs_vms s2' ! j) \<noteq> None"
  shows "i \<noteq> j \<and> {i, j} \<subseteq> fc_live s2' \<and> vi_hostRootfs (fs_vms s2' ! i) = vi_hostRootfs (fs_vms s2' ! j)
    \<and> vi_vsockUDS (fs_vms s2' ! i) = vi_vsockUDS (fs_vms s2' ! j)"
proof -
  have st: "fd_Snapshots deps = Some (store_interface sc root)" by (simp add: assms(1) wire_def)
  note b1 = cold_boot_place [OF assms(6) st _ assms(2,7), unfolded assms(3), OF assms(5)]
  note b2 = cold_boot_place [OF assms(11) st _ assms(2,12), unfolded assms(4), OF assms(10)]
  have i: "i < length (fs_vms s2)" using assms(9) by (simp add: fc_live_def)
  have "prefix (places s1') (places s2)" using wired.fc_reach_places assms(8) unfolding assms(1) by blast
  then have "places s2 ! i = places s1' ! i" using b1 by (auto simp: prefix_def places_def nth_append)
  then have "snd (place (fs_vms s2 ! i)) = snd (place (fs_vms s1' ! i))" using i b1 by (simp add: places_def)
  then show ?thesis using b1 b2 i assms(9) by (auto simp: place_def fc_live_def)
qed

lemma session_wire: "session_deps = wire (demo_env 204) ascii_tables None None (Some (session_codec, ''/s'')) False"
  by (simp add: session_deps_def demo_deps_def wire_def)

theorem same_session_shares_disk_witness:
  "fc_live two_machines = {0, 1} \<and> vi_hostRootfs (fs_vms two_machines ! 0) = vi_hostRootfs (fs_vms two_machines ! 1)
     \<and> fs_tree (h_fs (fs_host one_machine)) (vi_hostRootfs (fs_vms one_machine ! 0)) = Some (File ''dirty'')
     \<and> fs_tree (h_fs (fs_host two_machines)) (vi_hostRootfs (fs_vms two_machines ! 0)) = Some (File ''g'')"
proof -
  define s1 where "s1 = fst (session_boot ''a'' demo_start)"
  have c: "fc_Jailer session_cfg = []" by (simp add: session_cfg_def demo_cfg_def DefaultConfig_def)
  have sid: "sp_SessionID (session_spec ''a'') = ''a''" by (simp add: session_spec_def)
  have u: "uncommitted ''/s'' ''a'' demo_start" "uncommitted ''/s'' ''a'' one_machine" unfolding uncommitted_def session_dir_def by code_simp+
  have "(case session_boot ''a'' demo_start of (_, Ret (Inr i)) \<Rightarrow> i | _ \<Rightarrow> 1) = 0" by code_simp
  then have b1: "FC_Boot (demo_env 204) session_cfg session_deps Background (session_spec ''a'') demo_start = (s1, Ret (Inr 0))"
    unfolding s1_def by (fold session_boot_def) (auto split: prod.splits call.splits sum.splits)
  have b2: "FC_Boot (demo_env 204) session_cfg session_deps Background (session_spec ''a'') one_machine = (two_machines, Ret (Inr 1))"
    using two_machines_disk(1) unfolding two_machines_def by (fold session_boot_def) (auto split: prod.splits call.splits sum.splits)
  have r: "vi_snapRec (fs_vms s1 ! 0) \<noteq> None" "vi_snapRec (fs_vms two_machines ! 1) \<noteq> None" unfolding s1_def by code_simp+
  have st: "(fc_step (demo_env 204) session_cfg session_deps)\<^sup>*\<^sup>* s1 one_machine"
    unfolding one_machine_def s1_def [symmetric] using guest_writes_step by blast
  have "(length (fs_vms one_machine), vi_dead (fs_vms one_machine ! 0)) = (1, False)" by code_simp
  then have l: "0 \<in> fc_live one_machine" by (simp add: fc_live_def)
  note d = same_session_shares_disk [OF session_wire c sid sid u(1) b1 r(1) st l u(2) b2 r(2)]
  obtain v1 v2 where v: "fs_vms two_machines = [v1, v2]" "vi_hostRootfs v1 = ''/s/a/rootfs.ext4''" using two_machines_vms by (auto simp: map_eq_Cons_conv)
  then have "fc_live two_machines \<subseteq> {0, 1}" by (auto simp: fc_live_def)
  then have "fc_live two_machines = {0, 1}" using d by auto
  then show ?thesis using d v two_machines_disk(2,3) by simp
qed

end
