(* ===== verification/Spec2Isabelle.thy ===== *)
theory Spec2Isabelle
  imports Warden_Life Api_Wire FC_Typing FC_Reaper FC_Session
begin

text \<open>
  Warden runs untrusted code in microVMs behind an HTTP API. This library models the Go code of
  the service and of the agent in the guest, and proves what makes them correct.

  \<^bold>\<open>The program.\<close> \<open>cmd/warden\<close> reads the environment and the configuration files, builds the
  runtime, the audit log and the credentials, and serves HTTP. A request passes request id,
  authentication, rate limit and the mux (\<open>internal/api\<close>); \<open>POST /execute\<close> is validated, the
  limiter checks the profile (\<open>internal/resources\<close>), the runtime boots an instance, executes the
  job in it and destroys it, and the outcome is audited (\<open>internal/audit\<close>). The runtime is the
  concurrency gate in front of the Firecracker backend or the stub (\<open>internal/runtime\<close>). The
  backend clones a root disk (pool), sets up a TAP link with its ruleset (\<open>internal/network\<close>),
  starts the VMM, possibly in the jailer, attaches it to a cgroup, drives it through its API
  socket, talks to the guest agent (\<open>cmd/guest-agent\<close>) by the protocol of
  \<open>internal/guestproto\<close>, and saves and restores session snapshots (\<open>internal/snapshot\<close>).

  \<^bold>\<open>The theories.\<close>

  \<^item> \<open>Warden_Prelude\<close>: Go errors, fallible results, the shared collections and list facts.
  \<^item> \<open>Go_Strings\<close>, \<open>Go_Path\<close>, \<open>Go_Net\<close>, \<open>Go_FS\<close>, \<open>Go_Json\<close>: the parts of Go's library the
    program calls. A file system is a tree with a fault oracle: any system call may fail, a write after
    part of its bytes and \<open>RemoveAll\<close> after part of its tree.
  \<^item> \<open>Resources\<close> (\<open>profile.go\<close>, \<open>apply.go\<close>), \<open>Cgroup\<close> (\<open>cgroup.go\<close>).
  \<^item> \<open>Net_Policy\<close> (\<open>policy.go\<close>), \<open>Net_Tap\<close>, \<open>Net_Tap_Facts\<close> (\<open>tap.go\<close>, \<open>nft.go\<close>, \<open>netns.go\<close>).
  \<^item> \<open>Api_Validate\<close>, \<open>Api_RateLimit\<close>, \<open>Api_Jwt\<close>, \<open>Api_Auth\<close>, \<open>Api_Server\<close>, \<open>Api_Server_Facts\<close>:
    \<open>internal/api\<close>. The state of the server is that of the limiter, the key cache, the runtime and
    the audit log; \<open>middleware\<close> is the handler of a request.
  \<^item> \<open>Audit_Log\<close>: \<open>internal/audit\<close> except \<open>pg.go\<close>.
  \<^item> \<open>Runtime_Iface\<close> (\<open>runtime.go\<close>), \<open>Runtime_Stub\<close> (\<open>stub.go\<close>), \<open>Runtime_Gate\<close> (\<open>gate.go\<close>).
  \<^item> \<open>Snapshot_Store\<close> (\<open>store.go\<close>), \<open>Disk_Pool\<close> (\<open>clone.go\<close>, \<open>pool.go\<close>), \<open>Sparse_Diff\<close> (\<open>sparse.go\<close>).
  \<^item> \<open>Guest_Proto\<close> (\<open>proto.go\<close>), \<open>Guest_Agent\<close> (\<open>cmd/guest-agent\<close>).
  \<^item> \<open>FC_Config\<close> (\<open>config.go\<close>, \<open>jailer.go\<close>), \<open>FC_Api\<close> (\<open>fcapi.go\<close>, \<open>fcvsock.go\<close>), \<open>FC_Host\<close> (the
    host and the interfaces of \<open>Config\<close>), \<open>FC_Launch\<close> and \<open>Firecracker\<close> (\<open>firecracker.go\<close>,
    \<open>fcsnap.go\<close>), \<open>FC_Facts\<close>, \<open>FC_Backend\<close> (what the backend owns), \<open>FC_Wiring\<close> (the interfaces
    connected to the program's own implementations), \<open>FC_Props\<close> (its properties), \<open>FC_Separation\<close>
    (machines do not share files), \<open>FC_Session\<close> (machines of one session do), \<open>FC_Typing\<close> (their
    well-formedness), \<open>FC_Reaper\<close> (\<open>reap\<close>, \<open>wait\<close> and concurrent calls of \<open>Destroy\<close>).
  \<^item> \<open>Api_Wire\<close>: the bytes of a request body and of a response (\<open>decodeExecuteRequest\<close>,
    \<open>writeJSON\<close>, the field tags of \<open>types.go\<close>), with Go's JSON decoder and encoder.
  \<^item> \<open>Api_Concurrent\<close>: the same handlers as goroutines that run concurrently (\<open>api_step\<close>).
  \<^item> \<open>Warden_Main\<close>: \<open>main.go\<close>, \<open>tls.go\<close>, \<open>pg.go\<close>, \<open>NewServer\<close>, and the whole program.
  \<^item> \<open>Warden_Life\<close>: \<open>ListenAndServe\<close>, the defaults of \<open>api.Config\<close>, and the life of the process with
    signals, shutdown and its deadline (\<open>proc_step\<close>).

  \<^bold>\<open>Interfaces.\<close> Each is a locale, interpreted on the model of the code that provides it:
  \<open>limiter\<close> and \<open>strict_limiter\<close>, \<open>egress_filter\<close>, \<open>audit_logger\<close>, \<open>file_cloner\<close>, \<open>snapshot_store\<close>,
  \<open>vm_runtime\<close> (the contract of \<open>runtime.Runtime\<close>: which instances live after each operation),
  \<open>gated_runtime\<close> (a runtime behind the gate is again a \<open>vm_runtime\<close>, by a sublocale) and
  \<open>quiet_deps\<close> (what the backend needs of its cgroup, TAP, store and pool: they do not touch the
  backend's own trace; under it the backend is a \<open>vm_runtime\<close>, by a sublocale). The lemma that a
  request leaves no instance behind is proved once for every \<open>vm_runtime\<close>, and holds of the whole
  program by this chain.

  \<^bold>\<open>How code becomes definitions.\<close> A method is a function of its receiver's state that returns
  the new state and its results; an error is a value \<open>gerr\<close> that keeps its format and what it
  wraps, so that \<open>errors.Is\<close> is computed; a panic is a result of its own (\<open>call\<close>). Fixed-width
  counters that can wrap are words (the sequence number, the vsock context ids, the subnet
  index); other integers are \<open>int\<close> with \<open>wrap64\<close> where the code multiplies or adds unchecked.
  The backend works on a host state with files, network, pool, clock and a trace of what it did. The
  trace has, after each call, its result: the signal that was sent or failed (\<open>EKill\<close>), the \<open>Teardown\<close>
  that succeeded or not (\<open>ETapDown\<close>), and likewise for the cgroup and the files. \<open>running\<close> are the VMMs
  that were started and neither killed nor waited for, \<open>taps_up\<close> the links that were set up and not yet
  taken down by a \<open>Teardown\<close> that returned nil; \<open>unkilled\<close> and \<open>stuck_links\<close> are those for which a kill or a
  \<open>Teardown\<close> has failed, errors the code drops.
  What the outside does at the \<open>n\<close>-th interaction is given by an environment \<open>fc_env\<close>, over
  which the theorems quantify: every step may fail, a process may exit at any point, a context may
  expire. Where the code selects between channels (a VMM that exits while a call is made, the gate's
  timer) the choice is the environment's.
  Concurrency is a transition system where it occurs: the gate (\<open>gate_step\<close>), the pool with its
  background clones (\<open>pool_step\<close>), the end of a VMM (\<open>vmm_step\<close>: the reaper goroutine, the process
  and the callers of \<open>Destroy\<close>), the requests of the server (\<open>api_step\<close>: a goroutine is a \<open>task\<close>,
  and its steps are the critical sections of the limiter's and the log's locks, the send and the
  receive on the gate's channel, and the calls of the backend, each of them one step) and the process
  (\<open>proc_step\<close>, with the time that is left to the shutdown). \<open>middleware\<close>, the handler that runs alone, is
  one schedule of it. A boot behind the gate may panic (\<open>boot_panic\<close>); its slot is then lost.

  \<^bold>\<open>What is proved.\<close>

  \<^item> Nothing is left behind, except where a kill or a \<open>Teardown\<close> itself fails: by a request on any path
    (\<open>Api_Server_Facts\<close>), by a failed boot, by a destroyed instance, in any reachable state of the backend
    (\<open>FC_Props\<close>), by any run of the whole program (\<open>Warden_Main\<close>); the gate's bound holds in every
    interleaving, with one slot lost for each boot that panicked.
  \<^item> Nothing is reached without permission: authentication, rate limit, validation, enforceable
    limits, the bind policy, the token verifier; accepted session ids are safe path components.
  \<^item> Isolation: no network without an allowlist, disjoint links, a ruleset whose only lines
    that accept are those of the allowlist, machines with different ids whose directories have no path in common, cgroup limits written before an attach succeeds, guest jobs that are waited for under rlimits and a
    deadline (they start before the rlimits are set), disks that hold the golden image.
  \<^item> Under concurrency: in every interleaving no more VMMs than held slots and none when all requests
    are answered, but for failed kills; a success is answered only after it is audited; an exit after a
    clean shutdown leaves no VMM, and any exit at most those of the requests in flight
    (\<open>Api_Concurrent\<close>, \<open>Warden_Life\<close>).
  \<^item> The end of a machine: concurrent calls of \<open>Destroy\<close> all return if no kill fails, one of them has
    waited for the VMM, and the events are those of \<open>end_vmm\<close> (\<open>FC_Reaper\<close>). What is shared: two machines
    of a session booted before it has a snapshot use one disk and one socket (\<open>FC_Session\<close>).
  \<^item> Bytes: the runtime is reached by well-formed bodies only, a client's request is read back as it
    was sent, no response holds a byte that a browser could take for markup (\<open>Api_Wire\<close>).
  \<^item> Answers: the result of a job is that of the guest's execution of the request; snapshots
    never change it; the protocol, the store, the log and the network record round trip.
  \<^item> Failures: TAP commands all succeed or the whole \<open>Teardown\<close> is called, \<open>Commit\<close> is fail-closed, a
    rebase with a fault holds base or diff bytes only.

  \<^bold>\<open>Bounds.\<close> There is no fuel. Every loop is a function with a termination proof: the loops that
  wait for the API socket and the agent by the time left to their deadline, the extent loop of
  \<open>applySparseDiff\<close> by the bytes left, \<open>descendantPIDs\<close> by the processes not yet found, parsers by
  the length of their input. A request takes at most eight steps of \<open>api_step\<close> from its arrival to
  its answer, by the measure \<open>rank\<close>; a run of \<open>vmm_step\<close> with \<open>n\<close> callers has at most \<open>5 n + 4\<close>. The
  ids of machines differ for \<open>2 ^ 63\<close> calls of the backend, since a call takes at most two of the
  64-bit sequence numbers. The counter of the disk pool, a 64-bit number in the code, is a natural
  number here: it would wrap after \<open>2 ^ 64\<close> clones of one process.

  \<^bold>\<open>Parameters.\<close> Code outside the repository is an argument: SHA-256 and RSA, the JSON codec of
  configuration documents, audit events and snapshot records (the guest protocol's JSON is modelled
  in full, and so is that of the API's bodies; whether the decoder wants more input where a body is
  cut off, \<open>wants\<close>, and the text of an error, \<open>text_of\<close>, are arguments), HTTP transports, the SQL driver,
  DNS, \<open>cp\<close> (with the contract \<open>file_cloner\<close>), TLS key pairs, the kernel's process table, the Firecracker process.

  \<^bold>\<open>Not modelled.\<close> The timeouts that \<open>http.Server\<close> enforces on a connection (they are fields of
  its configuration here), its connections and the sockets below; logging;
  memory shared between goroutines without a lock; the interleaving of two calls inside the backend
  (what calls share there are two atomic counters, the pool and the TAP counter; a call is one step, so
  the VMM of a boot in progress is seen only when the boot is over); how long a lock, the fetch of the key
  set under the verifier's lock, or the wait for a VMM in \<open>Destroy\<close> takes, and that they end at all
  (\<open>api_step\<close> grants a lock and returns from a call in one step); a link that \<open>Setup\<close> has half made and
  whose own rollback fails (it is no link of an instance, and is not in \<open>taps_up\<close>);
  the time a system call takes, except where a deadline reads the clock; the
  contents of errors that come from the operating system; shell scripts,
  configuration files and documentation, which are not Go code of the service.
\<close>

end
